(* ===== verification/Prelude.thy ===== *)
theory Prelude
  imports Main "HOL-Library.Word" "HOL-Library.Signed_Division"
begin

text \<open>
  Shared vocabulary of the development: the machine types of the C++ sources
  (\<open>HANDLE\<close>, \<open>LONGLONG\<close>, \<open>ci::ivec2\<close>), the assertion and undefined-behaviour
  outcomes that the model makes explicit as errors, the result type with its bind,
  and the generic lemmas on results and maps that the component theories share.
\<close>

section \<open>Machine types\<close>

text \<open>
  An opaque Win32/WGL \<open>HANDLE\<close> is a natural number; a nullable one is a
  \<open>handle option\<close> with \<open>None\<close> for \<open>nullptr\<close>. Objects that the code reaches
  through raw pointers live at addresses of an explicit store (\<open>addr\<close>).
  \<open>LONGLONG\<close> is a 64-bit two's complement integer, \<open>ci::ivec2\<close> a pair of
  C \<open>int\<close>s.
\<close>

type_synonym handle = nat
type_synonym addr = nat
type_synonym longlong = "64 word"
type_synonym ivec2 = "int \<times> int"

section \<open>Errors\<close>

text \<open>
  The model is the debug build: an \<open>assert\<close> that fails aborts the program, and a
  dereference of a null or freed pointer is undefined behaviour. Both are values
  of \<open>err\<close>, so that every such path is a branch of the model.
\<close>

datatype err =
    Assert_No_Context      \<comment> \<open>\<open>assert (kInteropContext)\<close> in \<open>InteropContext::Get\<close>\<close>
  | Assert_Already_Locked  \<comment> \<open>\<open>assert (!IsLocked ())\<close> in \<open>SharedTexture::Lock\<close>\<close>
  | Assert_Not_Locked      \<comment> \<open>\<open>assert (IsLocked ())\<close> in \<open>SharedTexture::Unlock\<close>\<close>
  | Null_Device            \<comment> \<open>\<open>context.Device()->CreateTexture2D\<close> with a null device\<close>
  | Dangling_Pointer       \<comment> \<open>use of a freed \<open>SharedTexture\<close> through a raw pointer\<close>
  | Division_By_Zero       \<comment> \<open>integer division by a zero frame rate\<close>

type_synonym 'a result = "err + 'a"

definition res_bind :: "'a result \<Rightarrow> ('a \<Rightarrow> 'b result) \<Rightarrow> 'b result" where
  "res_bind m f = (case m of Inl e \<Rightarrow> Inl e | Inr a \<Rightarrow> f a)"

section \<open>Maps used as stores\<close>

text \<open>
  Allocation takes the next address of a counter; the counter stays above every
  address in use, which makes the new address fresh.
\<close>

definition fresh_above :: "(nat \<rightharpoonup> 'v) \<Rightarrow> nat \<Rightarrow> bool" where
  "fresh_above m n \<longleftrightarrow> (\<forall>a. m a \<noteq> None \<longrightarrow> a < n)"

section \<open>Automation\<close>

named_theorems state_defs "definitions of the initial and example states, unfolded to evaluate concrete runs"
named_theorems op_defs "definitions of the modelled operations, unfolded by component proofs"

lemma res_bind_Inl [simp]: "res_bind (Inl e) f = Inl e"
  by (simp add: res_bind_def)

lemma res_bind_Inr [simp]: "res_bind (Inr a) f = f a"
  by (simp add: res_bind_def)

lemma res_bind_eq_Inr:
  "res_bind m f = Inr b \<longleftrightarrow> (\<exists>a. m = Inr a \<and> f a = Inr b)"
  by (cases m) (auto simp: res_bind_def)

lemma res_bind_eq_Inl:
  "res_bind m f = Inl e \<longleftrightarrow> m = Inl e \<or> (\<exists>a. m = Inr a \<and> f a = Inl e)"
  by (cases m) (auto simp: res_bind_def)

lemma res_bind_cong_Inr:
  "m = Inr a \<Longrightarrow> res_bind m f = f a"
  by simp

lemma fresh_above_None: "fresh_above m n \<Longrightarrow> m n = None"
  by (auto simp: fresh_above_def)

lemma fresh_above_upd [intro]:
  "fresh_above m n \<Longrightarrow> fresh_above (m(n \<mapsto> v)) (Suc n)"
  by (auto simp: fresh_above_def)

lemma fresh_above_upd_old [intro]:
  "fresh_above m n \<Longrightarrow> a \<in> dom m \<Longrightarrow> fresh_above (m(a \<mapsto> v)) n"
  by (auto simp: fresh_above_def)

lemma fresh_above_del [intro]:
  "fresh_above m n \<Longrightarrow> fresh_above (m(a := None)) n"
  by (auto simp: fresh_above_def)

lemma fresh_above_Suc [intro]:
  "fresh_above m n \<Longrightarrow> fresh_above m (Suc n)"
  by (auto simp: fresh_above_def)

lemma dom_subsetD: "dom m \<subseteq> S \<Longrightarrow> m x = Some y \<Longrightarrow> x \<in> S"
  by auto

lemma dom_upd_existing [simp]: "m a \<noteq> None \<Longrightarrow> dom (m(a \<mapsto> v)) = dom m"
  by auto

lemma fresh_above_empty [simp]: "fresh_above Map.empty n"
  by (simp add: fresh_above_def)

section \<open>Lists\<close>

lemma map_eq_replicate_list_all:
  "map f xs = replicate (length xs) d \<Longrightarrow> list_all (\<lambda>x. f x = d) xs"
  by (induction xs) auto

end
