(* ===== verification/Bridge.thy ===== *)
theory Bridge
  imports Prelude
begin

text \<open>
  The environment of the interop code: the \<open>WGL_NV_DX_interop\<close> driver that
  \<open>AX-MediaPlayerMSWDXGIRenderPath.cxx\<close> calls (\<open>wglDXRegisterObjectNV\<close>,
  \<open>wglDXLockObjectsNV\<close>, \<open>wglDXUnlockObjectsNV\<close>, \<open>wglDXUnregisterObjectNV\<close>).
  It is not code of the repository: it is modelled as a store of registered share
  handles, each with the driver's own fence state (\<open>True\<close> while the object is
  locked for GL access). A call may fail for reasons outside the model; its outcome
  is an argument \<open>ok\<close>. A call on a null device handle, on an unregistered object,
  or that would lock a locked (unlock an unlocked) object fails.
\<close>

record bridge =
  br_objs :: "handle \<rightharpoonup> bool"
  br_next :: handle

definition bridge_empty :: bridge where
  "bridge_empty = \<lparr>br_objs = Map.empty, br_next = 1\<rparr>"

definition wgl_register :: "handle option \<Rightarrow> bool \<Rightarrow> bridge \<Rightarrow> handle option \<times> bridge" where
  "wgl_register dev ok b =
     (if dev \<noteq> None \<and> ok
      then (Some (br_next b),
            b\<lparr>br_objs := (br_objs b)(br_next b \<mapsto> False), br_next := Suc (br_next b)\<rparr>)
      else (None, b))"

definition wgl_lock :: "handle option \<Rightarrow> handle option \<Rightarrow> bool \<Rightarrow> bridge \<Rightarrow> bool \<times> bridge" where
  "wgl_lock dev h ok b =
     (case h of
        None \<Rightarrow> (False, b)
      | Some x \<Rightarrow>
          if dev \<noteq> None \<and> ok \<and> br_objs b x = Some False
          then (True, b\<lparr>br_objs := (br_objs b)(x \<mapsto> True)\<rparr>)
          else (False, b))"

definition wgl_unlock :: "handle option \<Rightarrow> handle option \<Rightarrow> bool \<Rightarrow> bridge \<Rightarrow> bool \<times> bridge" where
  "wgl_unlock dev h ok b =
     (case h of
        None \<Rightarrow> (False, b)
      | Some x \<Rightarrow>
          if dev \<noteq> None \<and> ok \<and> br_objs b x = Some True
          then (True, b\<lparr>br_objs := (br_objs b)(x \<mapsto> False)\<rparr>)
          else (False, b))"

definition wgl_unregister :: "handle option \<Rightarrow> handle option \<Rightarrow> bridge \<Rightarrow> bool \<times> bridge" where
  "wgl_unregister dev h b =
     (case h of
        None \<Rightarrow> (False, b)
      | Some x \<Rightarrow>
          if dev \<noteq> None \<and> x \<in> dom (br_objs b)
          then (True, b\<lparr>br_objs := (br_objs b)(x := None)\<rparr>)
          else (False, b))"

text \<open>Handles handed out by the driver are fresh and never null.\<close>

definition bridge_wf :: "bridge \<Rightarrow> bool" where
  "bridge_wf b \<longleftrightarrow> fresh_above (br_objs b) (br_next b)"

lemmas bridge_defs [op_defs] = wgl_register_def wgl_lock_def wgl_unlock_def wgl_unregister_def

lemmas bridge_states [state_defs] = bridge_empty_def

subsection \<open>The driver calls, case by case\<close>

lemma wgl_register_ok:
  "dev \<noteq> None \<Longrightarrow> wgl_register dev True b =
     (Some (br_next b), b\<lparr>br_objs := (br_objs b)(br_next b \<mapsto> False), br_next := Suc (br_next b)\<rparr>)"
  by (simp add: wgl_register_def)

lemma wgl_register_fail:
  "dev = None \<or> \<not> ok \<Longrightarrow> wgl_register dev ok b = (None, b)"
  by (auto simp: wgl_register_def)

lemma wgl_lock_result:
  "wgl_lock dev h ok b = (r, b') \<Longrightarrow>
     (r \<longleftrightarrow> dev \<noteq> None \<and> ok \<and> (\<exists>x. h = Some x \<and> br_objs b x = Some False)) \<and>
     b' = (if r then b\<lparr>br_objs := (br_objs b)(the h \<mapsto> True)\<rparr> else b)"
  by (auto simp: wgl_lock_def split: option.splits if_splits)

lemma wgl_unlock_result:
  "wgl_unlock dev h ok b = (r, b') \<Longrightarrow>
     (r \<longleftrightarrow> dev \<noteq> None \<and> ok \<and> (\<exists>x. h = Some x \<and> br_objs b x = Some True)) \<and>
     b' = (if r then b\<lparr>br_objs := (br_objs b)(the h \<mapsto> False)\<rparr> else b)"
  by (auto simp: wgl_unlock_def split: option.splits if_splits)

lemma wgl_register_wf:
  "bridge_wf b \<Longrightarrow> bridge_wf (snd (wgl_register dev ok b))"
  by (auto simp: wgl_register_def bridge_wf_def)

lemma wgl_lock_wf:
  "bridge_wf b \<Longrightarrow> bridge_wf (snd (wgl_lock dev h ok b))"
  by (auto simp: wgl_lock_def bridge_wf_def split: option.splits)

lemma wgl_unlock_wf:
  "bridge_wf b \<Longrightarrow> bridge_wf (snd (wgl_unlock dev h ok b))"
  by (auto simp: wgl_unlock_def bridge_wf_def split: option.splits)

lemma wgl_unregister_wf:
  "bridge_wf b \<Longrightarrow> bridge_wf (snd (wgl_unregister dev h b))"
  by (auto simp: wgl_unregister_def bridge_wf_def split: option.splits)

lemmas bridge_wf_preserved [intro] =
  wgl_register_wf wgl_lock_wf wgl_unlock_wf wgl_unregister_wf

lemma bridge_wf_empty [simp]: "bridge_wf bridge_empty"
  by (simp add: bridge_wf_def bridge_empty_def)

text \<open>
  Registration hands out a handle the driver did not know before; lock and unlock
  change only the fence of their own object.
\<close>

lemma wgl_register_fresh:
  "bridge_wf b \<Longrightarrow> wgl_register dev ok b = (Some x, b') \<Longrightarrow>
     br_objs b x = None \<and> br_objs b' = (br_objs b)(x \<mapsto> False) \<and> bridge_wf b'"
  by (auto simp: wgl_register_def bridge_wf_def fresh_above_None fresh_above_upd split: if_splits)

lemma wgl_lock_other:
  "h \<noteq> Some y \<Longrightarrow> br_objs (snd (wgl_lock dev h ok b)) y = br_objs b y"
  by (auto simp: wgl_lock_def split: option.splits)

lemma wgl_unlock_other:
  "h \<noteq> Some y \<Longrightarrow> br_objs (snd (wgl_unlock dev h ok b)) y = br_objs b y"
  by (auto simp: wgl_unlock_def split: option.splits)

lemma wgl_unregister_other:
  "h \<noteq> Some y \<Longrightarrow> br_objs (snd (wgl_unregister dev h b)) y = br_objs b y"
  by (auto simp: wgl_unregister_def split: option.splits)

lemma wgl_unregister_removes:
  "dev \<noteq> None \<Longrightarrow> br_objs (snd (wgl_unregister dev (Some x) b)) x = None"
  by (auto simp: wgl_unregister_def)

end
