(* ===== verification/Interop.thy ===== *)
theory Interop
  imports Bridge
begin

text \<open>
  \<open>InteropContext\<close> (\<open>AX-MediaPlayerMSWDXGIRenderPath.cxx\<close>, lines 32--78 and
  135--197): the process-wide D3D11 device, its DXGI device manager and the WGL
  interop handle that bridges the device to the current GL context. The
  constructor runs five steps, each gating the next; the outcome of each external
  call is a field of \<open>init_env\<close>. \<open>kInteropContext\<close>, the singleton pointer, is
  an \<open>interop_ctx option\<close>.
\<close>

unbundle bit_operations_syntax

section \<open>State and constructor\<close>

record interop_ctx =
  ic_device :: bool                  \<comment> \<open>\<open>_device\<close> is non-null\<close>
  ic_dxgi_manager :: bool            \<comment> \<open>\<open>_dxgiManager\<close> is non-null\<close>
  ic_reset_token :: "32 word"        \<comment> \<open>\<open>_dxgiResetToken\<close>\<close>
  ic_mt_protected :: bool            \<comment> \<open>\<open>SetMultithreadProtected (true)\<close> was called\<close>
  ic_manager_bound :: bool           \<comment> \<open>\<open>_dxgiManager->ResetDevice\<close> succeeded\<close>
  ic_interop_handle :: "handle option" \<comment> \<open>\<open>_interopHandle\<close>\<close>
  ic_is_valid :: bool                \<comment> \<open>\<open>_isValid\<close>\<close>

text \<open>Outcomes of the external calls the constructor makes, in their order.\<close>

record init_env =
  env_mf_manager :: "32 word option" \<comment> \<open>\<open>MFCreateDXGIDeviceManager\<close>: the reset token on success\<close>
  env_d3d_device :: bool             \<comment> \<open>\<open>D3D11CreateDevice\<close> succeeded\<close>
  env_mt_query :: bool               \<comment> \<open>\<open>QueryInterface (ID3D10Multithread)\<close> succeeded\<close>
  env_reset_device :: bool           \<comment> \<open>\<open>ResetDevice\<close> succeeded\<close>
  env_dx_open :: "handle option"     \<comment> \<open>\<open>wglDXOpenDeviceNV\<close>: the handle, or null\<close>

text \<open>\<open>D3D11_CREATE_DEVICE_BGRA_SUPPORT | D3D11_CREATE_DEVICE_VIDEO_SUPPORT\<close>, plus
  \<open>D3D11_CREATE_DEVICE_DEBUG\<close> when \<open>NDEBUG\<close> is not defined.\<close>

definition device_flags :: "bool \<Rightarrow> 32 word" where
  "device_flags debug =
     (let f = (0x20 :: 32 word) OR 0x800 in if debug then f OR 0x2 else f)"

text \<open>The member initialisers: every handle null, \<open>_isValid (false)\<close>.\<close>

definition interop_null :: interop_ctx where
  "interop_null =
     \<lparr>ic_device = False, ic_dxgi_manager = False, ic_reset_token = 0, ic_mt_protected = False,
      ic_manager_bound = False, ic_interop_handle = None, ic_is_valid = False\<rparr>"

text \<open>The constructor: each \<open>return\<close> of the source is a branch that keeps the
  context built so far.\<close>

definition interop_ctx_new :: "init_env \<Rightarrow> interop_ctx" where
  "interop_ctx_new e =
     (case env_mf_manager e of
        None \<Rightarrow> interop_null
      | Some tok \<Rightarrow>
          let c1 = interop_null\<lparr>ic_dxgi_manager := True, ic_reset_token := tok\<rparr> in
          if \<not> env_d3d_device e then c1 else
          let c2 = c1\<lparr>ic_device := True\<rparr> in
          if \<not> env_mt_query e then c2 else
          let c3 = c2\<lparr>ic_mt_protected := True\<rparr> in
          if \<not> env_reset_device e then c3 else
          let c4 = c3\<lparr>ic_manager_bound := True\<rparr> in
          c4\<lparr>ic_interop_handle := env_dx_open e, ic_is_valid := env_dx_open e \<noteq> None\<rparr>)"

section \<open>The singleton\<close>

definition interop_static_initialize :: "init_env \<Rightarrow> interop_ctx option \<Rightarrow> interop_ctx option" where
  "interop_static_initialize e k = (case k of None \<Rightarrow> Some (interop_ctx_new e) | Some c \<Rightarrow> Some c)"

definition interop_get :: "interop_ctx option \<Rightarrow> interop_ctx result" where
  "interop_get k = (case k of None \<Rightarrow> Inl Assert_No_Context | Some c \<Rightarrow> Inr c)"

text \<open>The destructor: close the interop handle if there is one, release the
  manager. The debug report of live objects has no effect on the state.\<close>

definition interop_ctx_destroy :: "interop_ctx \<Rightarrow> interop_ctx" where
  "interop_ctx_destroy c =
     (let c1 = (if ic_interop_handle c \<noteq> None then c\<lparr>ic_interop_handle := None\<rparr> else c) in
      c1\<lparr>ic_dxgi_manager := False\<rparr>)"

section \<open>Well-formedness\<close>

text \<open>
  What the constructor guarantees of any context: the steps took effect in order,
  each only after the one before, and the context is valid exactly when it holds
  an interop handle.
\<close>

definition interop_wf :: "interop_ctx \<Rightarrow> bool" where
  "interop_wf c \<longleftrightarrow>
     (ic_is_valid c \<longleftrightarrow> ic_interop_handle c \<noteq> None) \<and>
     (ic_interop_handle c \<noteq> None \<longrightarrow> ic_manager_bound c) \<and>
     (ic_manager_bound c \<longrightarrow> ic_mt_protected c) \<and>
     (ic_mt_protected c \<longrightarrow> ic_device c) \<and>
     (ic_device c \<longrightarrow> ic_dxgi_manager c)"

definition all_steps_succeed :: "init_env \<Rightarrow> bool" where
  "all_steps_succeed e \<longleftrightarrow>
     env_mf_manager e \<noteq> None \<and> env_d3d_device e \<and> env_mt_query e \<and> env_reset_device e \<and>
     env_dx_open e \<noteq> None"

text \<open>Outcomes used in the examples: every initialisation step succeeds, or all but
  the opening of the interop bridge.\<close>

definition env_ok :: init_env where
  "env_ok = \<lparr>env_mf_manager = Some 7, env_d3d_device = True, env_mt_query = True,
             env_reset_device = True, env_dx_open = Some 100\<rparr>"

definition env_bridge_fails :: init_env where
  "env_bridge_fails = env_ok\<lparr>env_dx_open := None\<rparr>"

lemmas interop_defs [op_defs] =
  interop_ctx_new_def interop_static_initialize_def interop_get_def interop_ctx_destroy_def

lemmas interop_states [state_defs] = interop_null_def env_ok_def env_bridge_fails_def

lemma interop_null_wf [simp]: "interop_wf interop_null"
  by (simp add: interop_wf_def interop_null_def)

lemma interop_get_Some [simp]: "interop_get (Some c) = Inr c"
  by (simp add: interop_get_def)

lemma interop_get_None [simp]: "interop_get None = Inl Assert_No_Context"
  by (simp add: interop_get_def)

lemma interop_static_initialize_Some [simp]:
  "interop_static_initialize e (Some c) = Some c"
  by (simp add: interop_static_initialize_def)

lemma interop_static_initialize_None [simp]:
  "interop_static_initialize e None = Some (interop_ctx_new e)"
  by (simp add: interop_static_initialize_def)

lemma interop_static_initialize_not_None [simp]:
  "interop_static_initialize e k \<noteq> None"
  by (cases k) simp_all

lemma interop_get_static_initialize [simp]:
  "interop_get (interop_static_initialize e k) = Inr (case k of None \<Rightarrow> interop_ctx_new e | Some c \<Rightarrow> c)"
  by (cases k) simp_all

section \<open>Properties of the constructor\<close>

lemma interop_ctx_new_wf [intro]: "interop_wf (interop_ctx_new e)"
  by (auto simp: interop_ctx_new_def interop_wf_def interop_null_def Let_def split: option.splits)

lemma interop_ctx_new_valid_iff:
  "ic_is_valid (interop_ctx_new e) \<longleftrightarrow> all_steps_succeed e"
  by (auto simp: interop_ctx_new_def all_steps_succeed_def interop_null_def Let_def
      split: option.splits)

lemma interop_ctx_new_handle:
  "ic_interop_handle (interop_ctx_new e) = (if all_steps_succeed e then env_dx_open e else None)"
  by (auto simp: interop_ctx_new_def all_steps_succeed_def interop_null_def Let_def
      split: option.splits)

lemma interop_valid_protected:
  "interop_wf c \<Longrightarrow> ic_is_valid c \<Longrightarrow> ic_mt_protected c \<and> ic_manager_bound c \<and> ic_device c"
  by (simp add: interop_wf_def)

lemma interop_wf_static_initialize:
  "(\<forall>c. k = Some c \<longrightarrow> interop_wf c) \<Longrightarrow> interop_static_initialize e k = Some c \<Longrightarrow> interop_wf c"
  by (cases k) auto

section \<open>Behaviour of the constructor and the singleton\<close>

text \<open>C9: each step of the constructor takes effect exactly when it and every step
  before it succeeded: a failure aborts the remaining steps, and the context is valid,
  with the opened handle, exactly when all five steps succeeded.\<close>

lemma interop_steps_gate:
  "(ic_dxgi_manager (interop_ctx_new e) \<longleftrightarrow> env_mf_manager e \<noteq> None) \<and>
   (ic_device (interop_ctx_new e) \<longleftrightarrow> env_mf_manager e \<noteq> None \<and> env_d3d_device e) \<and>
   (ic_mt_protected (interop_ctx_new e) \<longleftrightarrow>
      env_mf_manager e \<noteq> None \<and> env_d3d_device e \<and> env_mt_query e) \<and>
   (ic_manager_bound (interop_ctx_new e) \<longleftrightarrow>
      env_mf_manager e \<noteq> None \<and> env_d3d_device e \<and> env_mt_query e \<and> env_reset_device e) \<and>
   (ic_is_valid (interop_ctx_new e) \<longleftrightarrow> all_steps_succeed e) \<and>
   (ic_interop_handle (interop_ctx_new e) = (if all_steps_succeed e then env_dx_open e else None))"
  by (auto simp: interop_ctx_new_def all_steps_succeed_def interop_null_def Let_def
      split: option.splits)

text \<open>C10: \<open>StaticInitialize\<close> constructs the context on its first call only; a second
  call, whatever the outcome of the first, neither retries nor replaces it, and \<open>Get\<close>
  then returns it without asserting.\<close>

lemma interop_static_initialize_once:
  "interop_static_initialize e2 (interop_static_initialize e1 k) = interop_static_initialize e1 k \<and>
   interop_get (interop_static_initialize e1 k) =
     Inr (case k of None \<Rightarrow> interop_ctx_new e1 | Some c \<Rightarrow> c)"
  by (cases k) simp_all

end
