(* ===== verification/SharedTexture.thy ===== *)
theory SharedTexture
  imports Interop
begin

text \<open>
  \<open>DXGIRenderPath::SharedTexture\<close> (\<open>AX-MediaPlayerMSWDXGIRenderPath.cxx\<close>, lines
  80--105 and 199--255): a D3D11 texture and a GL texture of the same size,
  registered with the interop driver as one shared object, with a lock flag and
  the last presentation timestamp. The objects live in an explicit store
  (\<open>w_heap\<close>) because the render path owns them through a \<open>unique_ptr\<close> while
  frame leases reach them through raw pointers.
\<close>

section \<open>Descriptors of the two textures\<close>

record tex_desc =
  td_width :: "32 word"
  td_height :: "32 word"
  td_mip_levels :: "32 word"
  td_array_size :: "32 word"
  td_format :: "32 word"
  td_sample_count :: "32 word"
  td_sample_quality :: "32 word"
  td_bind_flags :: "32 word"
  td_usage :: "32 word"

text \<open>\<open>D3D11_TEXTURE2D_DESC\<close> as the constructor fills it: \<open>UINT\<close> width and height
  converted from the \<open>int\<close> size, \<open>DXGI_FORMAT_B8G8R8A8_UNORM\<close> (87),
  \<open>D3D11_BIND_RENDER_TARGET\<close> (0x20), \<open>D3D11_USAGE_DEFAULT\<close> (0).\<close>

definition texture_desc :: "ivec2 \<Rightarrow> tex_desc" where
  "texture_desc sz =
     \<lparr>td_width = word_of_int (fst sz), td_height = word_of_int (snd sz), td_mip_levels = 1,
      td_array_size = 1, td_format = 87, td_sample_count = 1, td_sample_quality = 0,
      td_bind_flags = 0x20, td_usage = 0\<rparr>"

record gl_tex =
  gl_width :: int
  gl_height :: int
  gl_internal_format :: "32 word"
  gl_load_top_down :: bool

text \<open>\<open>gl::Texture::create (size.x, size.y, fmt)\<close> with
  \<open>fmt.internalFormat (GL_RGBA).loadTopDown ()\<close>; \<open>GL_RGBA\<close> is 0x1908.\<close>

definition gl_texture_rgba :: "ivec2 \<Rightarrow> gl_tex" where
  "gl_texture_rgba sz =
     \<lparr>gl_width = fst sz, gl_height = snd sz, gl_internal_format = 0x1908, gl_load_top_down = True\<rparr>"

section \<open>The object\<close>

record shared_texture =
  st_gl_texture :: "gl_tex option"       \<comment> \<open>\<open>_glTexture\<close>\<close>
  st_dx_texture :: "tex_desc option"     \<comment> \<open>\<open>_dxTexture\<close>\<close>
  st_share_handle :: "handle option"     \<comment> \<open>\<open>_shareHandle\<close>\<close>
  st_is_valid :: bool                    \<comment> \<open>\<open>_isValid\<close>\<close>
  st_is_locked :: bool                   \<comment> \<open>\<open>_isLocked\<close>\<close>
  st_pts :: longlong                     \<comment> \<open>\<open>_presentationTimestamp\<close>\<close>

definition shared_texture_null :: shared_texture where
  "shared_texture_null =
     \<lparr>st_gl_texture = None, st_dx_texture = None, st_share_handle = None, st_is_valid = False,
      st_is_locked = False, st_pts = -1\<rparr>"

text \<open>The constructor. \<open>create_ok\<close> is the outcome of \<open>CreateTexture2D\<close>,
  \<open>reg_ok\<close> that of \<open>wglDXRegisterObjectNV\<close>; a null device is dereferenced.\<close>

definition shared_texture_new ::
  "interop_ctx option \<Rightarrow> bool \<Rightarrow> bool \<Rightarrow> ivec2 \<Rightarrow> bridge \<Rightarrow> (shared_texture \<times> bridge) result" where
  "shared_texture_new k create_ok reg_ok sz b =
     res_bind (interop_get k) (\<lambda>c.
       if \<not> ic_device c then Inl Null_Device
       else if \<not> create_ok then Inr (shared_texture_null, b)
       else
         (let (h, b') = wgl_register (ic_interop_handle c) reg_ok b in
          Inr (shared_texture_null\<lparr>st_gl_texture := Some (gl_texture_rgba sz),
                 st_dx_texture := Some (texture_desc sz), st_share_handle := h,
                 st_is_valid := (h \<noteq> None)\<rparr>, b')))"

text \<open>\<open>Lock\<close>: \<open>_isLocked\<close> takes the driver's answer, whatever it is.\<close>

definition st_lock ::
  "interop_ctx option \<Rightarrow> bool \<Rightarrow> shared_texture \<Rightarrow> bridge \<Rightarrow> (bool \<times> shared_texture \<times> bridge) result" where
  "st_lock k ok t b =
     (if st_is_locked t then Inl Assert_Already_Locked
      else res_bind (interop_get k) (\<lambda>c.
        let (r, b') = wgl_lock (ic_interop_handle c) (st_share_handle t) ok b in
        Inr (r, t\<lparr>st_is_locked := r\<rparr>, b')))"

text \<open>\<open>Unlock\<close>: the flag is cleared only when the driver unlocked the object.\<close>

definition st_unlock ::
  "interop_ctx option \<Rightarrow> bool \<Rightarrow> shared_texture \<Rightarrow> bridge \<Rightarrow> (bool \<times> shared_texture \<times> bridge) result" where
  "st_unlock k ok t b =
     (if \<not> st_is_locked t then Inl Assert_Not_Locked
      else res_bind (interop_get k) (\<lambda>c.
        let (r, b') = wgl_unlock (ic_interop_handle c) (st_share_handle t) ok b in
        if r then Inr (True, t\<lparr>st_is_locked := False\<rparr>, b') else Inr (False, t, b')))"

text \<open>The destructor: only with a current GL context, unlock (its result ignored)
  and unregister; without one the registration is left behind.\<close>

definition st_destroy ::
  "interop_ctx option \<Rightarrow> bool \<Rightarrow> bool \<Rightarrow> shared_texture \<Rightarrow> bridge \<Rightarrow> bridge result" where
  "st_destroy k gl_current unlock_ok t b =
     (if st_share_handle t = None \<or> \<not> gl_current then Inr b
      else res_bind (interop_get k) (\<lambda>c.
        let b1 = (if st_is_locked t
                  then snd (wgl_unlock (ic_interop_handle c) (st_share_handle t) unlock_ok b)
                  else b) in
        Inr (snd (wgl_unregister (ic_interop_handle c) (st_share_handle t) b1))))"

section \<open>The system state\<close>

text \<open>
  What the interop code shares: the singleton pointer \<open>kInteropContext\<close>, the
  driver, the store of \<open>SharedTexture\<close> objects with its allocation counter, and
  whether a GL context is current on the calling thread (\<open>wglGetCurrentContext\<close>).
\<close>

record world =
  w_interop :: "interop_ctx option"
  w_bridge :: bridge
  w_heap :: "addr \<rightharpoonup> shared_texture"
  w_next :: addr
  w_gl_current :: bool

definition deref :: "world \<Rightarrow> addr \<Rightarrow> shared_texture result" where
  "deref w a = (case w_heap w a of None \<Rightarrow> Inl Dangling_Pointer | Some t \<Rightarrow> Inr t)"

text \<open>\<open>p->Lock ()\<close>, \<open>p->Unlock ()\<close> and \<open>delete p\<close> through a pointer into the store.\<close>

definition tex_lock :: "bool \<Rightarrow> addr \<Rightarrow> world \<Rightarrow> (bool \<times> world) result" where
  "tex_lock ok a w =
     res_bind (deref w a) (\<lambda>t.
       res_bind (st_lock (w_interop w) ok t (w_bridge w)) (\<lambda>(r, t', b').
         Inr (r, w\<lparr>w_heap := (w_heap w)(a \<mapsto> t'), w_bridge := b'\<rparr>)))"

definition tex_unlock :: "bool \<Rightarrow> addr \<Rightarrow> world \<Rightarrow> (bool \<times> world) result" where
  "tex_unlock ok a w =
     res_bind (deref w a) (\<lambda>t.
       res_bind (st_unlock (w_interop w) ok t (w_bridge w)) (\<lambda>(r, t', b').
         Inr (r, w\<lparr>w_heap := (w_heap w)(a \<mapsto> t'), w_bridge := b'\<rparr>)))"

definition tex_delete :: "bool \<Rightarrow> addr \<Rightarrow> world \<Rightarrow> world result" where
  "tex_delete unlock_ok a w =
     res_bind (deref w a) (\<lambda>t.
       res_bind (st_destroy (w_interop w) (w_gl_current w) unlock_ok t (w_bridge w)) (\<lambda>b'.
         Inr (w\<lparr>w_heap := (w_heap w)(a := None), w_bridge := b'\<rparr>)))"

text \<open>Example objects for the witnesses: a valid interop context, a registered
  unlocked 4x4 texture at address 0 and the driver that holds its handle.\<close>

definition ex_ctx :: interop_ctx where
  "ex_ctx = interop_null\<lparr>ic_device := True, ic_dxgi_manager := True, ic_mt_protected := True,
     ic_manager_bound := True, ic_interop_handle := Some 100, ic_is_valid := True\<rparr>"
definition ex_tex :: shared_texture where
  "ex_tex = shared_texture_null\<lparr>st_gl_texture := Some (gl_texture_rgba (4, 4)),
     st_dx_texture := Some (texture_desc (4, 4)), st_share_handle := Some 1, st_is_valid := True\<rparr>"
definition ex_bridge :: bridge where
  "ex_bridge = \<lparr>br_objs = [1 \<mapsto> False], br_next = 2\<rparr>"
definition ex_world :: world where
  "ex_world = \<lparr>w_interop = Some ex_ctx, w_bridge = ex_bridge, w_heap = [0 \<mapsto> ex_tex], w_next = 1,
     w_gl_current = True\<rparr>"

lemmas shared_texture_defs [op_defs] =
  shared_texture_new_def st_lock_def st_unlock_def st_destroy_def
  tex_lock_def tex_unlock_def tex_delete_def

lemmas shared_texture_states [state_defs] =
  shared_texture_null_def ex_ctx_def ex_tex_def ex_bridge_def ex_world_def

section \<open>Agreement of the lock flag with the driver\<close>

text \<open>
  A texture agrees with the driver when its share handle is registered and the
  driver's fence is the texture's \<open>_isLocked\<close>; an unregistered texture is never
  locked.
\<close>

definition fence_agrees :: "bridge \<Rightarrow> shared_texture \<Rightarrow> bool" where
  "fence_agrees b t \<longleftrightarrow>
     (st_share_handle t = None \<longrightarrow> \<not> st_is_locked t) \<and>
     (\<forall>h. st_share_handle t = Some h \<longrightarrow> br_objs b h = Some (st_is_locked t))"

lemma deref_Some [simp]: "w_heap w a = Some t \<Longrightarrow> deref w a = Inr t"
  by (simp add: deref_def)

lemma deref_None [simp]: "w_heap w a = None \<Longrightarrow> deref w a = Inl Dangling_Pointer"
  by (simp add: deref_def)

lemma deref_Inr: "deref w a = Inr t \<longleftrightarrow> w_heap w a = Some t"
  by (simp add: deref_def split: option.splits)

lemma shared_texture_null_simps [simp]:
  "st_gl_texture shared_texture_null = None" "st_share_handle shared_texture_null = None"
  "st_is_valid shared_texture_null = False" "st_is_locked shared_texture_null = False"
  "st_pts shared_texture_null = -1"
  by (simp_all add: shared_texture_null_def)

section \<open>Lock, unlock, construction and destruction\<close>

text \<open>Lock and unlock keep the flag in agreement with the driver, and the flag is
  the answer of the last call that changed it.\<close>

lemma st_lock_fence:
  "fence_agrees b t \<Longrightarrow> st_lock k ok t b = Inr (r, t', b') \<Longrightarrow>
     fence_agrees b' t' \<and> st_is_locked t' = r \<and> t' = t\<lparr>st_is_locked := r\<rparr>"
  by (auto simp: st_lock_def fence_agrees_def wgl_lock_def res_bind_eq_Inr
      split: if_splits option.splits)

lemma st_unlock_fence:
  "fence_agrees b t \<Longrightarrow> st_unlock k ok t b = Inr (r, t', b') \<Longrightarrow>
     fence_agrees b' t' \<and> st_is_locked t' = (\<not> r) \<and> t' = t\<lparr>st_is_locked := \<not> r\<rparr>"
  by (auto simp: st_unlock_def fence_agrees_def wgl_unlock_def res_bind_eq_Inr
      split: if_splits option.splits)

text \<open>C8: a successful \<open>Lock\<close> followed by a successful \<open>Unlock\<close> restores the texture
  and the driver exactly; in between, a second \<open>Lock\<close> asserts.\<close>

lemma lock_unlock_roundtrip:
  assumes "fence_agrees b t" "st_share_handle t = Some h" "\<not> st_is_locked t"
    "ic_interop_handle c \<noteq> None"
  shows "st_lock (Some c) True t b =
           Inr (True, t\<lparr>st_is_locked := True\<rparr>, b\<lparr>br_objs := (br_objs b)(h \<mapsto> True)\<rparr>) \<and>
         st_lock (Some c) ok (t\<lparr>st_is_locked := True\<rparr>) (b\<lparr>br_objs := (br_objs b)(h \<mapsto> True)\<rparr>)
           = Inl Assert_Already_Locked \<and>
         st_unlock (Some c) True (t\<lparr>st_is_locked := True\<rparr>) (b\<lparr>br_objs := (br_objs b)(h \<mapsto> True)\<rparr>)
           = Inr (True, t, b)"
proof -
  have h: "br_objs b h = Some False" using assms(1-3) by (simp add: fence_agrees_def)
  then have "b\<lparr>br_objs := (br_objs b)(h \<mapsto> False)\<rparr> = b"
    by (simp add: map_upd_triv)
  with assms h show ?thesis
    by (auto simp: st_lock_def st_unlock_def wgl_lock_def wgl_unlock_def)
qed

lemma shared_texture_new_valid:
  assumes new: "shared_texture_new k cok rok sz b = Inr (t, b')" and "st_is_valid t" "bridge_wf b"
  shows "\<exists>h. st_share_handle t = Some h \<and> br_objs b h = None \<and> br_objs b' = (br_objs b)(h \<mapsto> False) \<and>
       \<not> st_is_locked t \<and> st_pts t = -1 \<and> st_gl_texture t = Some (gl_texture_rgba sz) \<and>
       st_dx_texture t = Some (texture_desc sz)"
proof -
  from new \<open>st_is_valid t\<close> obtain c :: interop_ctx and h where reg: "wgl_register (ic_interop_handle c) rok b = (Some h, b')"
    and t: "t = shared_texture_null\<lparr>st_gl_texture := Some (gl_texture_rgba sz),
               st_dx_texture := Some (texture_desc sz), st_share_handle := Some h, st_is_valid := True\<rparr>"
    by (auto simp: shared_texture_new_def res_bind_eq_Inr split: if_splits prod.splits)
  from wgl_register_fresh [OF \<open>bridge_wf b\<close> reg] t show ?thesis by simp
qed

text \<open>C21: a texture built while the context has no interop handle is never valid, and
  the driver is left unchanged.\<close>

lemma shared_texture_new_invalid_context:
  "k = Some c \<Longrightarrow> ic_interop_handle c = None \<Longrightarrow>
     shared_texture_new k cok rok sz b = Inr (t, b') \<Longrightarrow> \<not> st_is_valid t \<and> b' = b"
  by (auto simp: shared_texture_new_def wgl_register_def split: if_splits prod.splits)

lemma st_lock_Inr:
  assumes "st_lock k ok t b = Inr (r, t', b')"
  shows "\<not> st_is_locked t \<and> t' = t\<lparr>st_is_locked := r\<rparr>"
proof -
  from assms have nl: "\<not> st_is_locked t" by (auto simp: st_lock_def split: if_splits)
  from assms nl obtain c where k: "k = Some c" by (cases k) (auto simp: st_lock_def)
  obtain r0 b0 where call: "wgl_lock (ic_interop_handle c) (st_share_handle t) ok b = (r0, b0)"
    by fastforce
  from assms nl k call show ?thesis by (auto simp: st_lock_def)
qed

lemma st_unlock_Inr:
  assumes "st_unlock k ok t b = Inr (r, t', b')"
  shows "st_is_locked t \<and> t' = t\<lparr>st_is_locked := \<not> r\<rparr>"
proof -
  from assms have lk: "st_is_locked t" by (auto simp: st_unlock_def split: if_splits)
  from assms lk obtain c where k: "k = Some c" by (cases k) (auto simp: st_unlock_def)
  obtain r0 b0 where call: "wgl_unlock (ic_interop_handle c) (st_share_handle t) ok b = (r0, b0)"
    by fastforce
  from lk have triv: "t\<lparr>st_is_locked := True\<rparr> = t" by (cases t) simp
  from assms lk k call show ?thesis by (cases r0) (auto simp: st_unlock_def triv)
qed

text \<open>C3: lock and unlock alternate strictly: \<open>IsLocked\<close> is the outcome of the last
  call that changed it, after a successful \<open>Lock\<close> only \<open>Unlock\<close> is allowed (a second
  \<open>Lock\<close> asserts), and after a failed one only \<open>Lock\<close>; symmetrically for \<open>Unlock\<close>.\<close>

lemma lock_unlock_alternate:
  "(st_lock k ok t b = Inr (r, t', b') \<longrightarrow> st_is_locked t' = r \<and>
      (r \<longrightarrow> st_lock k ok' t' b'' = Inl Assert_Already_Locked) \<and>
      (\<not> r \<longrightarrow> st_unlock k ok' t' b'' = Inl Assert_Not_Locked)) \<and>
   (st_unlock k ok t b = Inr (r2, t2, b2) \<longrightarrow> st_is_locked t2 = (\<not> r2) \<and>
      (r2 \<longrightarrow> st_unlock k ok' t2 b'' = Inl Assert_Not_Locked) \<and>
      (\<not> r2 \<longrightarrow> st_lock k ok' t2 b'' = Inl Assert_Already_Locked))"
  by (auto simp: st_lock_def [of k ok'] st_unlock_def [of k ok'] dest!: st_lock_Inr st_unlock_Inr)

section \<open>Witnesses\<close>

lemma lock_unlock_alternate_witness:
  "st_lock (Some ex_ctx) True ex_tex ex_bridge =
     Inr (True, ex_tex\<lparr>st_is_locked := True\<rparr>, ex_bridge\<lparr>br_objs := [1 \<mapsto> True]\<rparr>) \<and>
   st_lock (Some ex_ctx) True (ex_tex\<lparr>st_is_locked := True\<rparr>) ex_bridge = Inl Assert_Already_Locked"
proof -
  have l: "st_lock (Some ex_ctx) True ex_tex ex_bridge =
     Inr (True, ex_tex\<lparr>st_is_locked := True\<rparr>, ex_bridge\<lparr>br_objs := [1 \<mapsto> True]\<rparr>)"
    by (simp add: st_lock_def wgl_lock_def state_defs)
  from lock_unlock_alternate [of "Some ex_ctx" True ex_tex ex_bridge, THEN conjunct1, rule_format, OF l]
  have "st_lock (Some ex_ctx) True (ex_tex\<lparr>st_is_locked := True\<rparr>) ex_bridge = Inl Assert_Already_Locked"
    by blast
  with l show ?thesis by simp
qed

lemma lock_unlock_roundtrip_witness:
  "fence_agrees ex_bridge ex_tex \<and> st_share_handle ex_tex = Some 1 \<and> \<not> st_is_locked ex_tex \<and>
   ic_interop_handle ex_ctx \<noteq> None \<and>
   st_unlock (Some ex_ctx) True (ex_tex\<lparr>st_is_locked := True\<rparr>) (ex_bridge\<lparr>br_objs := (br_objs ex_bridge)(1 \<mapsto> True)\<rparr>)
     = Inr (True, ex_tex, ex_bridge)"
proof -
  have h: "fence_agrees ex_bridge ex_tex" "st_share_handle ex_tex = Some 1" "\<not> st_is_locked ex_tex"
    "ic_interop_handle ex_ctx \<noteq> None"
    by (simp_all add: fence_agrees_def ex_bridge_def ex_tex_def ex_ctx_def)
  from lock_unlock_roundtrip [OF h] h show ?thesis by blast
qed

lemma shared_texture_new_invalid_context_witness:
  "Some (ex_ctx\<lparr>ic_interop_handle := None\<rparr>) = Some (ex_ctx\<lparr>ic_interop_handle := None\<rparr>) \<and>
   ic_interop_handle (ex_ctx\<lparr>ic_interop_handle := None\<rparr>) = None \<and>
   (\<exists>t. shared_texture_new (Some (ex_ctx\<lparr>ic_interop_handle := None\<rparr>)) True True (4, 4) ex_bridge = Inr (t, ex_bridge) \<and>
        \<not> st_is_valid t)"
proof -
  let ?c = "ex_ctx\<lparr>ic_interop_handle := None\<rparr>"
  have h: "Some ?c = Some ?c" "ic_interop_handle ?c = None" by simp_all
  obtain t b' where n: "shared_texture_new (Some ?c) True True (4, 4) ex_bridge = Inr (t, b')"
    by (simp add: shared_texture_new_def wgl_register_def state_defs)
  from shared_texture_new_invalid_context [OF h n] n h show ?thesis by blast
qed

end
