(* ===== verification/FrameLease.thy ===== *)
theory FrameLease
  imports SharedTexture
begin

text \<open>
  \<open>DXGIRenderPathFrameLease\<close> (\<open>AX-MediaPlayerMSWDXGIRenderPath.cxx\<close>, lines
  107--133): a non-owning pointer to the render path's \<open>SharedTexture\<close> that locks
  it on construction and unlocks it on destruction. The lease is the pointer
  \<open>_texture\<close>, an address of the store or null.
\<close>

type_synonym frame_lease = "addr option"

text \<open>Construction: lock the texture if there is one; the result of \<open>Lock\<close> is
  dropped.\<close>

definition lease_new :: "bool \<Rightarrow> addr option \<Rightarrow> world \<Rightarrow> (frame_lease \<times> world) result" where
  "lease_new lock_ok p w =
     (case p of
        None \<Rightarrow> Inr (None, w)
      | Some a \<Rightarrow> res_bind (tex_lock lock_ok a w) (\<lambda>(_, w'). Inr (Some a, w')))"

definition lease_to_texture :: "world \<Rightarrow> frame_lease \<Rightarrow> gl_tex option result" where
  "lease_to_texture w l =
     (case l of
        None \<Rightarrow> Inr None
      | Some a \<Rightarrow> res_bind (deref w a) (\<lambda>t. Inr (st_gl_texture t)))"

definition lease_is_valid :: "world \<Rightarrow> frame_lease \<Rightarrow> bool result" where
  "lease_is_valid w l = res_bind (lease_to_texture w l) (\<lambda>x. Inr (x \<noteq> None))"

definition lease_pts :: "world \<Rightarrow> frame_lease \<Rightarrow> longlong result" where
  "lease_pts w l =
     (case l of
        None \<Rightarrow> Inr (-1)
      | Some a \<Rightarrow> res_bind (deref w a) (\<lambda>t. Inr (st_pts t)))"

text \<open>Destruction: unlock only if the texture is locked, ignore the result of
  \<open>Unlock\<close>, and reset the pointer inside the same branch.\<close>

definition lease_destroy :: "bool \<Rightarrow> frame_lease \<Rightarrow> world \<Rightarrow> (frame_lease \<times> world) result" where
  "lease_destroy unlock_ok l w =
     (case l of
        None \<Rightarrow> Inr (None, w)
      | Some a \<Rightarrow>
          res_bind (deref w a) (\<lambda>t.
            if st_is_locked t
            then res_bind (tex_unlock unlock_ok a w) (\<lambda>(_, w'). Inr (None, w'))
            else Inr (Some a, w)))"

text \<open>A texture ready to be leased: registered, unlocked and in agreement with the driver,
 in a world whose interop context has a handle.\<close>

definition leasable :: "world \<Rightarrow> addr \<Rightarrow> bool" where
  "leasable w a \<longleftrightarrow>
     (\<exists>t h c. w_heap w a = Some t \<and> st_share_handle t = Some h \<and> \<not> st_is_locked t \<and>
        st_gl_texture t \<noteq> None \<and>
        fence_agrees (w_bridge w) t \<and> w_interop w = Some c \<and> ic_interop_handle c \<noteq> None)"

lemmas frame_lease_defs [op_defs] =
  lease_new_def lease_to_texture_def lease_is_valid_def lease_pts_def lease_destroy_def

section \<open>Properties of a lease\<close>

text \<open>C5: a lease built from no texture locks nothing, reports itself invalid with the
  timestamp \<open>-1\<close>, and its destructor changes nothing.\<close>

lemma lease_null:
  "lease_new ok None w = Inr (None, w) \<and> lease_is_valid w None = Inr False \<and>
   lease_pts w None = Inr (-1) \<and> lease_destroy uok None w = Inr (None, w)"
  by (simp add: lease_new_def lease_is_valid_def lease_to_texture_def lease_pts_def lease_destroy_def)

lemma tex_lock_leasable:
  assumes "leasable w a"
  shows "\<exists>t h. w_heap w a = Some t \<and> st_share_handle t = Some h \<and>
    tex_lock True a w = Inr (True, w\<lparr>w_heap := (w_heap w)(a \<mapsto> t\<lparr>st_is_locked := True\<rparr>),
       w_bridge := (w_bridge w)\<lparr>br_objs := (br_objs (w_bridge w))(h \<mapsto> True)\<rparr>\<rparr>)"
  using assms
  by (auto simp: leasable_def tex_lock_def st_lock_def wgl_lock_def fence_agrees_def)

text \<open>C6: a lease on a registered, unlocked texture locks it (in agreement with the
  driver) when it is built, and its destructor unlocks it and restores the exact state:
  the net effect of a lease on the texture and the driver is nil.\<close>

lemma lease_roundtrip:
  assumes "leasable w a"
  shows "\<exists>w1. lease_new True (Some a) w = Inr (Some a, w1) \<and>
     (\<exists>t. w_heap w1 a = Some t \<and> st_is_locked t \<and> fence_agrees (w_bridge w1) t) \<and>
     lease_destroy True (Some a) w1 = Inr (None, w)"
proof -
  from tex_lock_leasable [OF assms] obtain t h where
    t: "w_heap w a = Some t" "st_share_handle t = Some h" and
    lk: "tex_lock True a w = Inr (True, w\<lparr>w_heap := (w_heap w)(a \<mapsto> t\<lparr>st_is_locked := True\<rparr>),
       w_bridge := (w_bridge w)\<lparr>br_objs := (br_objs (w_bridge w))(h \<mapsto> True)\<rparr>\<rparr>)"
    by blast
  from assms t obtain c where c: "w_interop w = Some c" "ic_interop_handle c \<noteq> None"
    and nl: "\<not> st_is_locked t" and fa: "br_objs (w_bridge w) h = Some False"
    by (auto simp: leasable_def fence_agrees_def)
  have restore: "w\<lparr>w_heap := (w_heap w)(a \<mapsto> t\<lparr>st_is_locked := False\<rparr>), w_bridge := (w_bridge w)\<lparr>br_objs := (br_objs (w_bridge w))(h \<mapsto> False)\<rparr>\<rparr> = w"
    using t fa nl by (simp add: map_upd_triv)
  show ?thesis
    using lk t c nl restore
    by (auto simp: lease_new_def lease_destroy_def tex_unlock_def st_unlock_def wgl_unlock_def fence_agrees_def)
qed

text \<open>C15: a lease whose \<open>Lock\<close> failed is built all the same, leaves the texture
  unlocked, and still reports itself valid: validity is the presence of the texture, not
  the success of the lock.\<close>

lemma lease_lock_failure_valid:
  assumes "leasable w a"
  shows "lease_new False (Some a) w = Inr (Some a, w) \<and> lease_is_valid w (Some a) = Inr True"
proof -
  from assms obtain t where t: "w_heap w a = Some t" "\<not> st_is_locked t"
    by (auto simp: leasable_def)
  then have "w\<lparr>w_heap := (w_heap w)(a \<mapsto> t\<lparr>st_is_locked := False\<rparr>)\<rparr> = w"
    by (simp add: map_upd_triv)
  with assms t show ?thesis
    by (auto simp: leasable_def lease_new_def lease_is_valid_def lease_to_texture_def tex_lock_def
        st_lock_def wgl_lock_def)
qed

text \<open>C16: when the \<open>Unlock\<close> of a lease's destructor fails, the texture stays locked,
  and building the next lease on it violates the assertion of \<open>Lock\<close>.\<close>

lemma lease_unlock_failure_blocks_next:
  assumes "leasable w a" "lease_new True (Some a) w = Inr (Some a, w1)"
  shows "lease_destroy False (Some a) w1 = Inr (None, w1) \<and>
         lease_new ok (Some a) w1 = Inl Assert_Already_Locked"
proof -
  from tex_lock_leasable [OF assms(1)] obtain t h where
    t: "w_heap w a = Some t" and
    lk: "tex_lock True a w = Inr (True, w\<lparr>w_heap := (w_heap w)(a \<mapsto> t\<lparr>st_is_locked := True\<rparr>),
       w_bridge := (w_bridge w)\<lparr>br_objs := (br_objs (w_bridge w))(h \<mapsto> True)\<rparr>\<rparr>)"
    by blast
  with assms(2) have w1: "w1 = w\<lparr>w_heap := (w_heap w)(a \<mapsto> t\<lparr>st_is_locked := True\<rparr>),
       w_bridge := (w_bridge w)\<lparr>br_objs := (br_objs (w_bridge w))(h \<mapsto> True)\<rparr>\<rparr>"
    by (auto simp: lease_new_def)
  from assms(1) obtain c where c: "w_interop w = Some c"
    by (auto simp: leasable_def)
  have "w1\<lparr>w_heap := (w_heap w1)(a \<mapsto> t\<lparr>st_is_locked := True\<rparr>)\<rparr> = w1"
    using w1 by simp
  with w1 c show ?thesis
    by (auto simp: lease_destroy_def lease_new_def tex_unlock_def tex_lock_def st_unlock_def
        st_lock_def wgl_unlock_def split: prod.splits option.splits)
qed

lemma ex_leasable: "leasable ex_world 0"
  by (simp add: leasable_def state_defs fence_agrees_def)

lemma lease_roundtrip_witness:
  "leasable ex_world 0 \<and> (\<exists>w1. lease_new True (Some 0) ex_world = Inr (Some 0, w1) \<and>
     lease_destroy True (Some 0) w1 = Inr (None, ex_world))"
  using lease_roundtrip [OF ex_leasable] ex_leasable by blast

lemma lease_lock_failure_valid_witness:
  "leasable ex_world 0 \<and> lease_new False (Some 0) ex_world = Inr (Some 0, ex_world) \<and>
   lease_is_valid ex_world (Some 0) = Inr True"
  using lease_lock_failure_valid [OF ex_leasable] ex_leasable by blast

lemma lease_unlock_failure_blocks_next_witness:
  "\<exists>w1. leasable ex_world 0 \<and> lease_new True (Some 0) ex_world = Inr (Some 0, w1) \<and>
     lease_destroy False (Some 0) w1 = Inr (None, w1) \<and>
     lease_new True (Some 0) w1 = Inl Assert_Already_Locked"
proof -
  have "\<exists>w1. lease_new True (Some 0) ex_world = Inr (Some 0, w1)"
    by (simp add: lease_new_def tex_lock_def st_lock_def wgl_lock_def state_defs)
  then obtain w1 where ln: "lease_new True (Some 0) ex_world = Inr (Some 0, w1)" by blast
  from lease_unlock_failure_blocks_next [OF ex_leasable ln] ex_leasable ln show ?thesis by blast
qed

end
