(* ===== verification/RenderPath.thy ===== *)
theory RenderPath
  imports FrameLease
begin

text \<open>
  \<open>DXGIRenderPath\<close> (\<open>AX-MediaPlayerMSWDXGIRenderPath.cxx\<close>, lines 167--173 and
  257--318): one per playback session. It owns at most one \<open>SharedTexture\<close>
  (\<open>_sharedTexture\<close>, a \<open>unique_ptr\<close>, here an address of the store), keyed by
  the last requested size \<open>_size\<close>; it feeds the media engine's frames into that
  texture and hands out frame leases on it. \<open>_owner._hasNewFrame\<close>, the flag of the
  owning player, is kept with the render path.
\<close>

section \<open>State\<close>

text \<open>The media engine's attribute store (\<open>IMFAttributes\<close>), reduced to the one
  attribute the render path sets.\<close>

record mf_attributes =
  attr_dxgi_manager :: bool   \<comment> \<open>\<open>MF_MEDIA_ENGINE_DXGI_MANAGER\<close> holds the context's manager\<close>

record render_path =
  rp_size :: ivec2                    \<comment> \<open>\<open>_size\<close>\<close>
  rp_shared_texture :: "addr option"  \<comment> \<open>\<open>_sharedTexture\<close>\<close>
  rp_has_new_frame :: bool            \<comment> \<open>\<open>_owner._hasNewFrame\<close>\<close>

text \<open>The constructor: \<open>ci::ivec2\<close> default-initialises to \<open>(0, 0)\<close>, the
  \<open>unique_ptr\<close> to null.\<close>

definition render_path_new :: render_path where
  "render_path_new = \<lparr>rp_size = (0, 0), rp_shared_texture = None, rp_has_new_frame = False\<rparr>"

text \<open>The arguments of \<open>IMFMediaEngine::TransferVideoFrame\<close>: the destination
  surface, the normalised source rectangle \<open>{0, 0, 1, 1}\<close>, the destination
  rectangle in pixels and the border colour \<open>MFARGB {0, 0, 0, 0}\<close>.\<close>

record video_transfer =
  vt_surface :: addr
  vt_src_rect :: "int \<times> int \<times> int \<times> int"
  vt_dst_rect :: "int \<times> int \<times> int \<times> int"
  vt_border :: "8 word \<times> 8 word \<times> 8 word \<times> 8 word"

section \<open>Operations\<close>

text \<open>\<open>Initialize\<close>: create the singleton if needed, refuse an invalid context, and
  store the manager in the engine's attributes; \<open>set_ok\<close> is the outcome of
  \<open>SetUnknown\<close>.\<close>

definition rp_initialize ::
  "init_env \<Rightarrow> bool \<Rightarrow> mf_attributes \<Rightarrow> world \<Rightarrow> (bool \<times> mf_attributes \<times> world) result" where
  "rp_initialize e set_ok attrs w =
     (let w1 = w\<lparr>w_interop := interop_static_initialize e (w_interop w)\<rparr> in
      res_bind (interop_get (w_interop w1)) (\<lambda>c.
        if \<not> ic_is_valid c then Inr (False, attrs, w1)
        else if set_ok then Inr (True, attrs\<lparr>attr_dxgi_manager := True\<rparr>, w1)
        else Inr (False, attrs, w1)))"

text \<open>\<open>InteropContext::CreateSharedTexture\<close>: allocate and construct; keep the
  object if it is valid, otherwise the temporary \<open>unique_ptr\<close> destroys it.\<close>

definition create_shared_texture :: "bool \<Rightarrow> bool \<Rightarrow> ivec2 \<Rightarrow> world \<Rightarrow> (addr option \<times> world) result" where
  "create_shared_texture create_ok reg_ok sz w =
     res_bind (shared_texture_new (w_interop w) create_ok reg_ok sz (w_bridge w)) (\<lambda>(t, b').
       if st_is_valid t
       then Inr (Some (w_next w),
                 w\<lparr>w_bridge := b', w_heap := (w_heap w)(w_next w \<mapsto> t), w_next := Suc (w_next w)\<rparr>)
       else res_bind (st_destroy (w_interop w) (w_gl_current w) False t b') (\<lambda>b''.
              Inr (None, w\<lparr>w_bridge := b''\<rparr>)))"

text \<open>What a \<open>unique_ptr\<close> does to the object it gives up: delete it, if any.\<close>

definition release_texture :: "bool \<Rightarrow> addr option \<Rightarrow> world \<Rightarrow> world result" where
  "release_texture unlock_ok p w = (case p of None \<Rightarrow> Inr w | Some a \<Rightarrow> tex_delete unlock_ok a w)"

text \<open>\<open>InitializeRenderTarget\<close>: recreate when there is no texture or the size
  differs. \<open>_size\<close> is updated first; the new texture is built before the move
  assignment deletes the old one.\<close>

definition rp_initialize_render_target ::
  "bool \<Rightarrow> bool \<Rightarrow> bool \<Rightarrow> ivec2 \<Rightarrow> render_path \<Rightarrow> world \<Rightarrow> (bool \<times> render_path \<times> world) result" where
  "rp_initialize_render_target create_ok reg_ok unlock_ok sz rp w =
     (if rp_shared_texture rp = None \<or> sz \<noteq> rp_size rp then
        (let rp1 = rp\<lparr>rp_size := sz\<rparr> in
         res_bind (create_shared_texture create_ok reg_ok sz w) (\<lambda>(p, w1).
           res_bind (release_texture unlock_ok (rp_shared_texture rp1) w1) (\<lambda>w2.
             let rp2 = rp1\<lparr>rp_shared_texture := p\<rparr> in
             Inr (rp_shared_texture rp2 \<noteq> None, rp2, w2))))
      else Inr (rp_shared_texture rp \<noteq> None, rp, w))"

definition transfer_request :: "addr \<Rightarrow> render_path \<Rightarrow> video_transfer" where
  "transfer_request a rp =
     \<lparr>vt_surface = a, vt_src_rect = (0, 0, 1, 1), vt_dst_rect = (0, 0, fst (rp_size rp), snd (rp_size rp)),
      vt_border = (0, 0, 0, 0)\<rparr>"

text \<open>\<open>ProcessFrame\<close>: \<open>engine\<close> is the outcome of \<open>TransferVideoFrame\<close> for the
  request it receives. The timestamp is recorded whether or not the transfer
  succeeded.\<close>

definition rp_process_frame ::
  "(video_transfer \<Rightarrow> bool) \<Rightarrow> longlong \<Rightarrow> render_path \<Rightarrow> world \<Rightarrow> (bool \<times> render_path \<times> world) result" where
  "rp_process_frame engine pts rp w =
     (case rp_shared_texture rp of
        None \<Rightarrow> Inr (False, rp, w)
      | Some a \<Rightarrow>
          res_bind (deref w a) (\<lambda>t.
            let ok = engine (transfer_request a rp);
                rp' = (if ok then rp\<lparr>rp_has_new_frame := True\<rparr> else rp) in
            Inr (ok, rp', w\<lparr>w_heap := (w_heap w)(a \<mapsto> t\<lparr>st_pts := pts\<rparr>)\<rparr>)))"

definition rp_get_frame_lease :: "bool \<Rightarrow> render_path \<Rightarrow> world \<Rightarrow> (frame_lease \<times> world) result" where
  "rp_get_frame_lease lock_ok rp w = lease_new lock_ok (rp_shared_texture rp) w"

text \<open>The destructor resets \<open>_sharedTexture\<close>, deleting the texture.\<close>

definition rp_destroy :: "bool \<Rightarrow> render_path \<Rightarrow> world \<Rightarrow> (render_path \<times> world) result" where
  "rp_destroy unlock_ok rp w =
     res_bind (release_texture unlock_ok (rp_shared_texture rp) w) (\<lambda>w'.
       Inr (rp\<lparr>rp_shared_texture := None\<rparr>, w'))"

section \<open>Invariants\<close>

text \<open>
  Every texture in the store is valid, registered, has its GL side, and its lock
  flag agrees with the driver's fence; distinct textures have distinct share
  handles; a texture exists only once a context with an interop handle does. The
  render path's texture, if any, is in the store and has the size \<open>_size\<close>.
\<close>

definition tex_ok :: "bridge \<Rightarrow> shared_texture \<Rightarrow> bool" where
  "tex_ok b t \<longleftrightarrow> st_is_valid t \<and> st_share_handle t \<noteq> None \<and> st_gl_texture t \<noteq> None \<and> fence_agrees b t"

definition world_inv :: "world \<Rightarrow> bool" where
  "world_inv w \<longleftrightarrow>
     bridge_wf (w_bridge w) \<and> fresh_above (w_heap w) (w_next w) \<and>
     (\<forall>c. w_interop w = Some c \<longrightarrow> interop_wf c) \<and>
     (\<forall>a t. w_heap w a = Some t \<longrightarrow> tex_ok (w_bridge w) t \<and>
        (\<exists>c. w_interop w = Some c \<and> ic_interop_handle c \<noteq> None)) \<and>
     (\<forall>a a' t t'. w_heap w a = Some t \<longrightarrow> w_heap w a' = Some t' \<longrightarrow>
        st_share_handle t = st_share_handle t' \<longrightarrow> a = a')"

definition rp_inv :: "render_path \<Rightarrow> world \<Rightarrow> bool" where
  "rp_inv rp w \<longleftrightarrow> world_inv w \<and>
     (\<forall>a. rp_shared_texture rp = Some a \<longrightarrow>
        (\<exists>t. w_heap w a = Some t \<and> st_gl_texture t = Some (gl_texture_rgba (rp_size rp))))"

text \<open>The example render path, holding the example texture of the store.\<close>

definition ex_rp :: render_path where
  "ex_rp = \<lparr>rp_size = (4, 4), rp_shared_texture = Some 0, rp_has_new_frame = False\<rparr>"

lemmas render_path_defs [op_defs] =
  rp_initialize_def create_shared_texture_def release_texture_def rp_initialize_render_target_def
  rp_process_frame_def rp_get_frame_lease_def rp_destroy_def

lemmas render_path_states [state_defs] = render_path_new_def ex_rp_def

section \<open>The invariants are kept\<close>

lemma fence_agrees_frame:
  "fence_agrees b t \<Longrightarrow> st_share_handle t = Some h \<Longrightarrow> br_objs b' h = br_objs b h \<Longrightarrow> fence_agrees b' t"
  by (simp add: fence_agrees_def)

lemma world_inv_update_one:
  assumes inv: "world_inv w" and a: "w_heap w a = Some t" and ok: "tex_ok b' t'"
    and sh: "st_share_handle t' = st_share_handle t"
    and frame: "\<And>y. st_share_handle t \<noteq> Some y \<Longrightarrow> br_objs b' y = br_objs (w_bridge w) y"
    and wf: "bridge_wf b'"
  shows "world_inv (w\<lparr>w_heap := (w_heap w)(a \<mapsto> t'), w_bridge := b'\<rparr>)"
proof -
  have others: "tex_ok b' t2" if "w_heap w a2 = Some t2" "a2 \<noteq> a" for a2 t2
  proof -
    from inv that have ok2: "tex_ok (w_bridge w) t2" and ne: "st_share_handle t2 \<noteq> st_share_handle t"
      using a by (auto simp: world_inv_def)
    from ok2 obtain h2 where h2: "st_share_handle t2 = Some h2" by (auto simp: tex_ok_def)
    with ne have "st_share_handle t \<noteq> Some h2" by simp
    with frame have "br_objs b' h2 = br_objs (w_bridge w) h2" by simp
    with ok2 h2 show ?thesis by (auto simp: tex_ok_def intro: fence_agrees_frame)
  qed
  from a inv have "a \<in> dom (w_heap w)" by auto
  with inv a ok sh wf others show ?thesis
    unfolding world_inv_def by (auto simp: fresh_above_upd_old)
qed

lemma world_inv_delete_one:
  assumes inv: "world_inv w" and a: "w_heap w a = Some t"
    and frame: "\<And>y. st_share_handle t \<noteq> Some y \<Longrightarrow> br_objs b' y = br_objs (w_bridge w) y"
    and wf: "bridge_wf b'"
  shows "world_inv (w\<lparr>w_heap := (w_heap w)(a := None), w_bridge := b'\<rparr>)"
proof -
  have others: "tex_ok b' t2" if "w_heap w a2 = Some t2" "a2 \<noteq> a" for a2 t2
  proof -
    from inv that have ok2: "tex_ok (w_bridge w) t2" and ne: "st_share_handle t2 \<noteq> st_share_handle t"
      using a by (auto simp: world_inv_def)
    from ok2 obtain h2 where h2: "st_share_handle t2 = Some h2" by (auto simp: tex_ok_def)
    with ne have "st_share_handle t \<noteq> Some h2" by simp
    with frame have "br_objs b' h2 = br_objs (w_bridge w) h2" by simp
    with ok2 h2 show ?thesis by (auto simp: tex_ok_def intro: fence_agrees_frame)
  qed
  with inv wf show ?thesis
    unfolding world_inv_def by (auto simp: fresh_above_del)
qed

lemma tex_lock_inv:
  assumes inv: "world_inv w" and lk: "tex_lock ok a w = Inr (r, w')"
  shows "\<exists>t. w_heap w a = Some t \<and> \<not> st_is_locked t \<and>
           w_heap w' = (w_heap w)(a \<mapsto> t\<lparr>st_is_locked := r\<rparr>) \<and> w_interop w' = w_interop w \<and>
           w_next w' = w_next w \<and> w_gl_current w' = w_gl_current w \<and> world_inv w'"
proof -
  from lk obtain t where a: "w_heap w a = Some t"
    by (cases "w_heap w a") (auto simp: tex_lock_def)
  from lk a obtain c where c: "w_interop w = Some c"
    by (cases "w_interop w") (auto simp: tex_lock_def st_lock_def split: if_splits)
  from lk a have nl: "\<not> st_is_locked t"
    by (auto simp: tex_lock_def st_lock_def)
  obtain r0 b' where call: "wgl_lock (ic_interop_handle c) (st_share_handle t) ok (w_bridge w) = (r0, b')"
    by (cases "wgl_lock (ic_interop_handle c) (st_share_handle t) ok (w_bridge w)")
  from lk a c nl call have r0: "r0 = r"
    and w': "w' = w\<lparr>w_heap := (w_heap w)(a \<mapsto> t\<lparr>st_is_locked := r\<rparr>), w_bridge := b'\<rparr>"
    by (auto simp: tex_lock_def st_lock_def)
  note call = call [unfolded r0]
  from inv a have ok: "tex_ok (w_bridge w) t" by (auto simp: world_inv_def)
  have "st_lock (w_interop w) ok t (w_bridge w) = Inr (r, t\<lparr>st_is_locked := r\<rparr>, b')"
    using nl c call by (simp add: st_lock_def)
  from st_lock_fence [OF _ this] ok have "tex_ok b' (t\<lparr>st_is_locked := r\<rparr>)"
    by (simp add: tex_ok_def)
  moreover have "br_objs b' y = br_objs (w_bridge w) y" if "st_share_handle t \<noteq> Some y" for y
    using wgl_lock_other [OF that, of "ic_interop_handle c" ok "w_bridge w"] call by simp
  moreover have "bridge_wf b'"
    using wgl_lock_wf [of "w_bridge w" "ic_interop_handle c" "st_share_handle t" ok] inv call
    by (simp add: world_inv_def)
  ultimately have "world_inv w'"
    unfolding w' by (intro world_inv_update_one [OF inv a]) simp_all
  with a nl w' show ?thesis by simp
qed

lemma tex_unlock_inv:
  assumes inv: "world_inv w" and lk: "tex_unlock ok a w = Inr (r, w')"
  shows "\<exists>t. w_heap w a = Some t \<and> st_is_locked t \<and>
           w_heap w' = (w_heap w)(a \<mapsto> t\<lparr>st_is_locked := \<not> r\<rparr>) \<and> w_interop w' = w_interop w \<and>
           w_next w' = w_next w \<and> w_gl_current w' = w_gl_current w \<and> world_inv w'"
proof -
  from lk obtain t where a: "w_heap w a = Some t"
    by (cases "w_heap w a") (auto simp: tex_unlock_def)
  from lk a obtain c where c: "w_interop w = Some c"
    by (cases "w_interop w") (auto simp: tex_unlock_def st_unlock_def split: if_splits)
  from lk a have lkd: "st_is_locked t"
    by (auto simp: tex_unlock_def st_unlock_def split: if_splits)
  obtain r0 b' where call: "wgl_unlock (ic_interop_handle c) (st_share_handle t) ok (w_bridge w) = (r0, b')"
    by (cases "wgl_unlock (ic_interop_handle c) (st_share_handle t) ok (w_bridge w)")
  from lkd have triv: "t\<lparr>st_is_locked := True\<rparr> = t" by (cases t) simp
  from lk a c lkd call have r0: "r0 = r"
    and w': "w' = w\<lparr>w_heap := (w_heap w)(a \<mapsto> t\<lparr>st_is_locked := \<not> r\<rparr>), w_bridge := b'\<rparr>"
    by (auto simp: tex_unlock_def st_unlock_def triv split: if_splits)
  note call = call [unfolded r0]
  from inv a have ok: "tex_ok (w_bridge w) t" by (auto simp: world_inv_def)
  have "st_unlock (w_interop w) ok t (w_bridge w) = Inr (r, t\<lparr>st_is_locked := \<not> r\<rparr>, b')"
    using lkd c call by (auto simp: st_unlock_def)
  from st_unlock_fence [OF _ this] ok have "tex_ok b' (t\<lparr>st_is_locked := \<not> r\<rparr>)"
    by (simp add: tex_ok_def)
  moreover have "br_objs b' y = br_objs (w_bridge w) y" if "st_share_handle t \<noteq> Some y" for y
    using wgl_unlock_other [OF that, of "ic_interop_handle c" ok "w_bridge w"] call by simp
  moreover have "bridge_wf b'"
    using wgl_unlock_wf [of "w_bridge w" "ic_interop_handle c" "st_share_handle t" ok] inv call
    by (simp add: world_inv_def)
  ultimately have "world_inv w'"
    unfolding w' by (intro world_inv_update_one [OF inv a]) simp_all
  with a lkd w' show ?thesis by simp
qed

lemma st_destroy_frame:
  "st_destroy k g u t b = Inr b' \<Longrightarrow>
     (\<forall>y. st_share_handle t \<noteq> Some y \<longrightarrow> br_objs b' y = br_objs b y) \<and> (bridge_wf b \<longrightarrow> bridge_wf b')"
  by (auto simp: st_destroy_def res_bind_eq_Inr Let_def wgl_unlock_other wgl_unregister_other
      intro!: wgl_unregister_wf wgl_unlock_wf split: if_splits)

lemma tex_delete_inv:
  assumes inv: "world_inv w" and del: "tex_delete uok a w = Inr w'"
  shows "\<exists>t b'. w_heap w a = Some t \<and> st_destroy (w_interop w) (w_gl_current w) uok t (w_bridge w) = Inr b' \<and>
           w' = w\<lparr>w_heap := (w_heap w)(a := None), w_bridge := b'\<rparr> \<and> world_inv w'"
proof -
  from del obtain t where a: "w_heap w a = Some t"
    by (cases "w_heap w a") (auto simp: tex_delete_def)
  from del a obtain b' where d: "st_destroy (w_interop w) (w_gl_current w) uok t (w_bridge w) = Inr b'"
    and w': "w' = w\<lparr>w_heap := (w_heap w)(a := None), w_bridge := b'\<rparr>"
    by (auto simp: tex_delete_def res_bind_eq_Inr)
  from st_destroy_frame [OF d] inv have "world_inv w'"
    unfolding w' by (intro world_inv_delete_one [OF inv a]) (auto simp: world_inv_def)
  with a d w' show ?thesis by blast
qed

lemma world_inv_alloc:
  assumes inv: "world_inv w" and ok: "tex_ok b' t" and sh: "st_share_handle t = Some h"
    and new: "br_objs (w_bridge w) h = None"
    and frame: "\<And>y. y \<noteq> h \<Longrightarrow> br_objs b' y = br_objs (w_bridge w) y"
    and wf: "bridge_wf b'" and ctx: "\<exists>c. w_interop w = Some c \<and> ic_interop_handle c \<noteq> None"
  shows "world_inv (w\<lparr>w_bridge := b', w_heap := (w_heap w)(w_next w \<mapsto> t), w_next := Suc (w_next w)\<rparr>)"
proof -
  have others: "tex_ok b' t2 \<and> st_share_handle t2 \<noteq> Some h" if "w_heap w a2 = Some t2" for a2 t2
  proof -
    from inv that have ok2: "tex_ok (w_bridge w) t2" by (auto simp: world_inv_def)
    then obtain h2 where h2: "st_share_handle t2 = Some h2" "br_objs (w_bridge w) h2 = Some (st_is_locked t2)"
      by (auto simp: tex_ok_def fence_agrees_def)
    with new have "h2 \<noteq> h" by auto
    with frame h2 ok2 show ?thesis by (auto simp: tex_ok_def fence_agrees_def)
  qed
  have fresh: "w_heap w (w_next w) = None"
    using inv by (auto simp: world_inv_def fresh_above_None)
  show ?thesis
    using inv ok sh wf ctx others fresh unfolding world_inv_def
    by (auto simp: fresh_above_upd) metis+
qed

lemma shared_texture_new_ctx:
  "shared_texture_new k cok rok sz b = Inr (t, b') \<Longrightarrow> st_is_valid t \<Longrightarrow>
     \<exists>c. k = Some c \<and> ic_interop_handle c \<noteq> None"
  by (auto simp: shared_texture_new_def res_bind_eq_Inr interop_get_def wgl_register_def
      split: if_splits option.splits)

lemma shared_texture_new_invalid:
  "shared_texture_new k cok rok sz b = Inr (t, b') \<Longrightarrow> \<not> st_is_valid t \<Longrightarrow>
     b' = b \<and> st_share_handle t = None"
  by (auto simp: shared_texture_new_def res_bind_eq_Inr wgl_register_def split: if_splits)

lemma create_shared_texture_inv:
  assumes inv: "world_inv w" and cr: "create_shared_texture cok rok sz w = Inr (p, w')"
  shows "world_inv w' \<and> w_interop w' = w_interop w \<and> w_gl_current w' = w_gl_current w \<and>
    w_next w \<le> w_next w' \<and>
    (case p of
       None \<Rightarrow> w' = w
     | Some a \<Rightarrow> a = w_next w \<and> w_heap w a = None \<and>
         (\<exists>t. w_heap w' = (w_heap w)(a \<mapsto> t) \<and> st_gl_texture t = Some (gl_texture_rgba sz) \<and>
              \<not> st_is_locked t \<and> st_pts t = -1))"
proof -
  from cr obtain t b' where new: "shared_texture_new (w_interop w) cok rok sz (w_bridge w) = Inr (t, b')"
    by (auto simp: create_shared_texture_def res_bind_eq_Inr)
  show ?thesis
  proof (cases "st_is_valid t")
    case True
    have wfb: "bridge_wf (w_bridge w)" using inv by (simp add: world_inv_def)
    from shared_texture_new_valid [OF new True wfb] obtain h where
      h: "st_share_handle t = Some h" "br_objs (w_bridge w) h = None"
         "br_objs b' = (br_objs (w_bridge w))(h \<mapsto> False)" "\<not> st_is_locked t" "st_pts t = -1"
         "st_gl_texture t = Some (gl_texture_rgba sz)"
      by blast
    have wf': "bridge_wf b'"
      using new True wfb by (auto simp: shared_texture_new_def res_bind_eq_Inr wgl_register_wf
          split: if_splits prod.splits dest: wgl_register_fresh)
    have ok: "tex_ok b' t" using True h by (simp add: tex_ok_def fence_agrees_def)
    from cr new True have p: "p = Some (w_next w)"
      and w': "w' = w\<lparr>w_bridge := b', w_heap := (w_heap w)(w_next w \<mapsto> t), w_next := Suc (w_next w)\<rparr>"
      by (auto simp: create_shared_texture_def)
    have "world_inv w'"
      unfolding w' using h wf' shared_texture_new_ctx [OF new True]
      by (intro world_inv_alloc [OF inv ok h(1,2)]) auto
    moreover have "w_heap w (w_next w) = None"
      using inv by (auto simp: world_inv_def fresh_above_None)
    ultimately show ?thesis using p w' h by auto
  next
    case False
    from shared_texture_new_invalid [OF new False] have "b' = w_bridge w" "st_share_handle t = None"
      by simp_all
    with cr new False have "p = None" "w' = w"
      by (auto simp: create_shared_texture_def st_destroy_def)
    with inv show ?thesis by simp
  qed
qed

lemma release_texture_inv:
  assumes inv: "world_inv w" and rel: "release_texture uok p w = Inr w'"
  shows "world_inv w' \<and> w_interop w' = w_interop w \<and> w_next w' = w_next w \<and>
         w_gl_current w' = w_gl_current w \<and>
         (\<forall>a. p = Some a \<longrightarrow> w_heap w' = (w_heap w)(a := None)) \<and> (p = None \<longrightarrow> w' = w)"
proof (cases p)
  case None
  with rel inv show ?thesis by (simp add: release_texture_def)
next
  case (Some a)
  with rel have "tex_delete uok a w = Inr w'" by (simp add: release_texture_def)
  from tex_delete_inv [OF inv this] Some show ?thesis by auto
qed

lemma init_target_inv:
  assumes inv: "rp_inv rp w"
    and it: "rp_initialize_render_target cok rok uok sz rp w = Inr (r, rp', w')"
  shows "rp_inv rp' w' \<and> (r \<longleftrightarrow> rp_shared_texture rp' \<noteq> None) \<and>
         w_interop w' = w_interop w \<and> w_gl_current w' = w_gl_current w"
proof (cases "rp_shared_texture rp = None \<or> sz \<noteq> rp_size rp")
  case False
  with it inv show ?thesis by (auto simp: rp_initialize_render_target_def)
next
  case True
  from it True obtain p w1 where cr: "create_shared_texture cok rok sz w = Inr (p, w1)"
    and rel: "release_texture uok (rp_shared_texture rp) w1 = Inr w'"
    and rp': "rp' = rp\<lparr>rp_size := sz, rp_shared_texture := p\<rparr>" and r: "r = (p \<noteq> None)"
    by (auto simp: rp_initialize_render_target_def res_bind_eq_Inr Let_def)
  from inv have winv: "world_inv w" by (simp add: rp_inv_def)
  note c = create_shared_texture_inv [OF winv cr]
  note d = release_texture_inv [OF conjunct1 [OF c] rel]
  have "rp_inv rp' w'"
  proof (cases p)
    case None
    with d rp' show ?thesis by (simp add: rp_inv_def)
  next
    case (Some a)
    with c obtain t where a: "a = w_next w" "w_heap w1 = (w_heap w)(a \<mapsto> t)"
      "st_gl_texture t = Some (gl_texture_rgba sz)" by auto
    have "rp_shared_texture rp \<noteq> Some a"
      using inv a winv by (auto simp: rp_inv_def world_inv_def fresh_above_None)
    with d a Some rp' show ?thesis
      by (cases "rp_shared_texture rp") (auto simp: rp_inv_def)
  qed
  with c d r rp' show ?thesis by simp
qed

lemma rp_initialize_inv:
  assumes inv: "rp_inv rp w" and ini: "rp_initialize e ok attrs w = Inr (r, attrs', w')"
  shows "rp_inv rp w' \<and> w_heap w' = w_heap w \<and> w_bridge w' = w_bridge w \<and> w_next w' = w_next w \<and>
         w_gl_current w' = w_gl_current w \<and> w_interop w' = interop_static_initialize e (w_interop w)"
proof -
  from ini have w': "w' = w\<lparr>w_interop := interop_static_initialize e (w_interop w)\<rparr>"
    by (auto simp: rp_initialize_def Let_def split: if_splits)
  have "rp_inv rp w'"
  proof (cases "w_interop w")
    case None
    with inv have "w_heap w = Map.empty" by (auto simp: rp_inv_def world_inv_def)
    with inv None show ?thesis
      unfolding w' by (auto simp: rp_inv_def world_inv_def)
  next
    case (Some c)
    with inv show ?thesis unfolding w' by (simp add: rp_inv_def world_inv_def)
  qed
  with w' show ?thesis by simp
qed

lemma process_frame_inv:
  assumes inv: "rp_inv rp w" and pf: "rp_process_frame engine pts rp w = Inr (ok, rp', w')"
  shows "rp_inv rp' w'"
proof (cases "rp_shared_texture rp")
  case None
  with pf inv show ?thesis by (simp add: rp_process_frame_def)
next
  case (Some a)
  with inv obtain t where a: "w_heap w a = Some t" by (auto simp: rp_inv_def)
  with pf Some have w': "w' = w\<lparr>w_heap := (w_heap w)(a \<mapsto> t\<lparr>st_pts := pts\<rparr>), w_bridge := w_bridge w\<rparr>"
    and sz: "rp_size rp' = rp_size rp" "rp_shared_texture rp' = rp_shared_texture rp"
    by (auto simp: rp_process_frame_def Let_def)
  from inv a have "tex_ok (w_bridge w) t" by (auto simp: rp_inv_def world_inv_def)
  then have "tex_ok (w_bridge w) (t\<lparr>st_pts := pts\<rparr>)"
    by (simp add: tex_ok_def fence_agrees_def)
  with inv a have "world_inv w'"
    unfolding w' by (intro world_inv_update_one) (auto simp: rp_inv_def world_inv_def)
  with inv a sz Some show ?thesis
    unfolding w' by (auto simp: rp_inv_def)
qed

lemma tex_lock_rp_inv:
  assumes inv: "rp_inv rp w" and lk: "tex_lock ok a w = Inr (r, w')"
  shows "rp_inv rp w'"
proof -
  from inv have "world_inv w" by (simp add: rp_inv_def)
  from tex_lock_inv [OF this lk] obtain t where
    "w_heap w a = Some t" "w_heap w' = (w_heap w)(a \<mapsto> t\<lparr>st_is_locked := r\<rparr>)" "world_inv w'"
    by blast
  with inv show ?thesis by (auto simp: rp_inv_def)
qed

lemma tex_unlock_rp_inv:
  assumes inv: "rp_inv rp w" and lk: "tex_unlock ok a w = Inr (r, w')"
  shows "rp_inv rp w'"
proof -
  from inv have "world_inv w" by (simp add: rp_inv_def)
  from tex_unlock_inv [OF this lk] obtain t where
    "w_heap w a = Some t" "w_heap w' = (w_heap w)(a \<mapsto> t\<lparr>st_is_locked := \<not> r\<rparr>)" "world_inv w'"
    by blast
  with inv show ?thesis by (auto simp: rp_inv_def)
qed

lemma lease_new_rp_inv:
  "rp_inv rp w \<Longrightarrow> lease_new ok p w = Inr (l, w') \<Longrightarrow> rp_inv rp w' \<and> l = p"
  by (auto simp: lease_new_def res_bind_eq_Inr split: option.splits dest: tex_lock_rp_inv)

lemma lease_destroy_rp_inv:
  "rp_inv rp w \<Longrightarrow> lease_destroy ok l w = Inr (l', w') \<Longrightarrow> rp_inv rp w'"
  by (auto simp: lease_destroy_def res_bind_eq_Inr split: option.splits if_splits
      dest: tex_unlock_rp_inv)

lemma process_frame_heap:
  assumes pf: "rp_process_frame engine pts rp w = Inr (ok, rp', w')"
  shows "rp_shared_texture rp' = rp_shared_texture rp \<and> rp_size rp' = rp_size rp \<and>
    w_next w' = w_next w \<and>
    (\<forall>a. rp_shared_texture rp = Some a \<longrightarrow>
       (\<exists>t. w_heap w a = Some t \<and> w_heap w' = (w_heap w)(a \<mapsto> t\<lparr>st_pts := pts\<rparr>))) \<and>
    (rp_shared_texture rp = None \<longrightarrow> w' = w)"
  using pf by (auto simp: rp_process_frame_def Let_def deref_Inr res_bind_eq_Inr split: option.splits)

lemma init_target_heap:
  assumes inv: "rp_inv rp w" and it: "rp_initialize_render_target cok rok uok sz rp w = Inr (r, rp', w')"
  shows "(dom (w_heap w') \<subseteq> (dom (w_heap w) - set_option (rp_shared_texture rp)) \<union> set_option (rp_shared_texture rp') \<and>
          (\<forall>a t. rp_shared_texture rp' = Some a \<longrightarrow> w_heap w' a = Some t \<longrightarrow> \<not> st_is_locked t))
         \<or> (rp' = rp \<and> w' = w)"
proof (cases "rp_shared_texture rp = None \<or> sz \<noteq> rp_size rp")
  case False
  with it show ?thesis by (auto simp: rp_initialize_render_target_def)
next
  case True
  from it True obtain p w1 where cr: "create_shared_texture cok rok sz w = Inr (p, w1)"
    and rel: "release_texture uok (rp_shared_texture rp) w1 = Inr w'"
    and rp': "rp' = rp\<lparr>rp_size := sz, rp_shared_texture := p\<rparr>"
    by (auto simp: rp_initialize_render_target_def res_bind_eq_Inr Let_def)
  from inv have winv: "world_inv w" by (simp add: rp_inv_def)
  note c = create_shared_texture_inv [OF winv cr]
  note d = release_texture_inv [OF conjunct1 [OF c] rel]
  have "dom (w_heap w') \<subseteq> (dom (w_heap w) - set_option (rp_shared_texture rp)) \<union> set_option p \<and>
        (\<forall>a t. p = Some a \<longrightarrow> w_heap w' a = Some t \<longrightarrow> \<not> st_is_locked t)"
  proof (cases p)
    case None
    with c d show ?thesis by (cases "rp_shared_texture rp") auto
  next
    case (Some a)
    with c obtain t where a: "a = w_next w" "w_heap w a = None" "w_heap w1 = (w_heap w)(a \<mapsto> t)"
      "\<not> st_is_locked t" by auto
    have "rp_shared_texture rp \<noteq> Some a"
      using inv a winv by (auto simp: rp_inv_def)
    with d a Some show ?thesis
      by (cases "rp_shared_texture rp") auto
  qed
  with rp' show ?thesis by simp
qed

text \<open>What \<open>InitializeRenderTarget\<close> does to the store: either nothing (same size, a
  texture present), or the old texture is freed and the new one, if any, is unlocked at
  the next fresh address.\<close>

lemma init_target_effect:
  assumes inv: "rp_inv rp w" and it: "rp_initialize_render_target cok rok uok sz rp w = Inr (r, rp', w')"
  shows "(rp_shared_texture rp \<noteq> None \<and> sz = rp_size rp \<and> rp' = rp \<and> w' = w) \<or>
         ((rp_shared_texture rp = None \<or> sz \<noteq> rp_size rp) \<and> rp_size rp' = sz \<and> w_next w \<le> w_next w' \<and>
          (\<forall>a. rp_shared_texture rp = Some a \<longrightarrow> w_heap w' a = None) \<and>
          (rp_shared_texture rp' = None \<or>
           (rp_shared_texture rp' = Some (w_next w) \<and>
            (\<exists>t. w_heap w' (w_next w) = Some t \<and> \<not> st_is_locked t))))"
proof (cases "rp_shared_texture rp = None \<or> sz \<noteq> rp_size rp")
  case False
  with it show ?thesis by (auto simp: rp_initialize_render_target_def)
next
  case True
  from it True obtain p w1 where cr: "create_shared_texture cok rok sz w = Inr (p, w1)"
    and rel: "release_texture uok (rp_shared_texture rp) w1 = Inr w'"
    and rp': "rp' = rp\<lparr>rp_size := sz, rp_shared_texture := p\<rparr>"
    by (auto simp: rp_initialize_render_target_def res_bind_eq_Inr Let_def)
  from inv have winv: "world_inv w" by (simp add: rp_inv_def)
  note c = create_shared_texture_inv [OF winv cr]
  note d = release_texture_inv [OF conjunct1 [OF c] rel]
  have old: "\<forall>a. rp_shared_texture rp = Some a \<longrightarrow> w_heap w' a = None" using d by simp
  show ?thesis
  proof (cases p)
    case None
    with c d rp' old True show ?thesis by simp
  next
    case (Some a)
    with c obtain t where a: "a = w_next w" "w_heap w a = None" "w_heap w1 = (w_heap w)(a \<mapsto> t)"
      "\<not> st_is_locked t" by auto
    have "rp_shared_texture rp \<noteq> Some a"
      using inv a by (auto simp: rp_inv_def)
    with d a have "w_heap w' a = Some t" by (cases "rp_shared_texture rp") auto
    with a c d rp' old Some True show ?thesis by auto
  qed
qed

lemma tex_unlock_result:
  assumes inv: "world_inv w" and a: "w_heap w a = Some t" and lk: "st_is_locked t"
    and ul: "tex_unlock ok a w = Inr (r, w')"
  shows "r = ok"
proof -
  from inv a have ok: "tex_ok (w_bridge w) t"
    and "\<exists>c. w_interop w = Some c \<and> ic_interop_handle c \<noteq> None"
    by (auto simp: world_inv_def)
  then obtain c h where c: "w_interop w = Some c" "ic_interop_handle c \<noteq> None"
    and h: "st_share_handle t = Some h"
    by (auto simp: tex_ok_def)
  with ok lk have "br_objs (w_bridge w) h = Some True"
    by (simp add: tex_ok_def fence_agrees_def)
  with a lk ul c h show ?thesis
    by (auto simp: tex_unlock_def st_unlock_def wgl_unlock_def split: if_splits)
qed

text \<open>Against the invariant the driver refuses nothing but what the environment fails:
  a lock of a stored texture succeeds exactly when its call does.\<close>

lemma tex_lock_result:
  assumes inv: "world_inv w" and lk: "tex_lock ok a w = Inr (r, w')"
  shows "r = ok"
proof -
  from tex_lock_inv [OF inv lk] obtain t where a: "w_heap w a = Some t" and nl: "\<not> st_is_locked t"
    by blast
  from inv a have ok: "tex_ok (w_bridge w) t"
    and "\<exists>c. w_interop w = Some c \<and> ic_interop_handle c \<noteq> None"
    by (auto simp: world_inv_def)
  then obtain c h where c: "w_interop w = Some c" "ic_interop_handle c \<noteq> None"
    and h: "st_share_handle t = Some h"
    by (auto simp: tex_ok_def)
  with ok nl have "br_objs (w_bridge w) h = Some False"
    by (simp add: tex_ok_def fence_agrees_def)
  with a nl lk c h show ?thesis
    by (auto simp: tex_lock_def st_lock_def wgl_lock_def split: if_splits)
qed

lemma init_target_without_handle:
  assumes "w_interop w = Some c" "ic_interop_handle c = None" "rp_shared_texture rp = None"
    and it: "rp_initialize_render_target cok rok uok sz rp w = Inr (r, rp', w')"
  shows "\<not> r \<and> rp_shared_texture rp' = None \<and> w' = w"
  using assms
  by (auto simp: rp_initialize_render_target_def create_shared_texture_def shared_texture_new_def
      wgl_register_def st_destroy_def release_texture_def res_bind_eq_Inr Let_def
      split: if_splits prod.splits)

lemma rp_initialize_result:
  "rp_initialize e ok attrs w = Inr (r, attrs', w') \<Longrightarrow>
     w' = w\<lparr>w_interop := interop_static_initialize e (w_interop w)\<rparr> \<and>
     (r \<longleftrightarrow> ok \<and> ic_is_valid (the (w_interop w'))) \<and> (\<not> r \<longrightarrow> attrs' = attrs)"
  by (cases "w_interop w") (auto simp: rp_initialize_def Let_def split: if_splits)

section \<open>Creation succeeds against a valid context\<close>

lemma create_shared_texture_ok:
  assumes inv: "world_inv w" and c: "w_interop w = Some c" "ic_is_valid c"
  shows "\<exists>w'. create_shared_texture True True sz w = Inr (Some (w_next w), w')"
proof -
  from inv c have "interop_wf c" by (simp add: world_inv_def)
  with c have "ic_device c" "ic_interop_handle c \<noteq> None" by (auto simp: interop_wf_def)
  with c show ?thesis
    by (auto simp: create_shared_texture_def shared_texture_new_def wgl_register_def Let_def)
qed

lemma release_texture_ok:
  assumes inv: "world_inv w" and p: "\<forall>a. p = Some a \<longrightarrow> w_heap w a \<noteq> None"
  shows "\<exists>w'. release_texture uok p w = Inr w'"
proof (cases p)
  case None then show ?thesis by (simp add: release_texture_def)
next
  case (Some a)
  with p obtain t where t: "w_heap w a = Some t" by auto
  with inv have "\<exists>c. w_interop w = Some c" unfolding world_inv_def by blast
  then obtain c where "w_interop w = Some c" by blast
  with Some t show ?thesis
    by (auto simp: release_texture_def tex_delete_def st_destroy_def Let_def)
qed

lemma init_target_new_texture:
  assumes inv: "rp_inv rp w" and c: "w_interop w = Some c" "ic_is_valid c" and sz: "sz \<noteq> rp_size rp"
  shows "\<exists>rp' w'. rp_initialize_render_target True True uok sz rp w = Inr (True, rp', w') \<and>
     rp_shared_texture rp' = Some (w_next w) \<and> rp_inv rp' w' \<and> leasable w' (w_next w)"
proof -
  from inv have winv: "world_inv w" by (simp add: rp_inv_def)
  from create_shared_texture_ok [OF winv c] obtain w1
    where cr: "create_shared_texture True True sz w = Inr (Some (w_next w), w1)" by blast
  note c1 = create_shared_texture_inv [OF winv cr]
  from c1 obtain t where h1: "w_heap w1 = (w_heap w)(w_next w \<mapsto> t)" "\<not> st_is_locked t"
    and fresh: "w_heap w (w_next w) = None" by auto
  have old: "\<forall>a. rp_shared_texture rp = Some a \<longrightarrow> w_heap w1 a \<noteq> None"
    using inv h1 by (auto simp: rp_inv_def)
  from release_texture_ok [OF conjunct1 [OF c1] old] obtain w2
    where rel: "release_texture uok (rp_shared_texture rp) w1 = Inr w2" by blast
  let ?rp' = "rp\<lparr>rp_size := sz, rp_shared_texture := Some (w_next w)\<rparr>"
  have it: "rp_initialize_render_target True True uok sz rp w = Inr (True, ?rp', w2)"
    using cr rel sz by (simp add: rp_initialize_render_target_def)
  note i2 = init_target_inv [OF inv it]
  note r2 = release_texture_inv [OF conjunct1 [OF c1] rel]
  have "w_heap w2 (w_next w) = Some t"
  proof (cases "rp_shared_texture rp")
    case None with r2 h1 show ?thesis by simp
  next
    case (Some a)
    with inv fresh have "a \<noteq> w_next w" by (auto simp: rp_inv_def)
    with Some r2 h1 show ?thesis by simp
  qed
  with i2 h1(2) c have "leasable w2 (w_next w)"
    by (auto simp: leasable_def rp_inv_def world_inv_def tex_ok_def)
  with it i2 show ?thesis by auto
qed

text \<open>With a texture there is a context with a device, so recreation never fails.\<close>

lemma create_shared_texture_total:
  assumes c: "w_interop w = Some c" "ic_device c"
  shows "\<exists>p w'. create_shared_texture cok rok sz w = Inr (p, w')"
  using c by (auto simp: create_shared_texture_def shared_texture_new_def st_destroy_def Let_def
      split: prod.splits)

lemma init_target_total:
  assumes inv: "rp_inv rp w" and a: "rp_shared_texture rp = Some a"
  shows "\<exists>r rp' w'. rp_initialize_render_target cok rok uok sz rp w = Inr (r, rp', w')"
proof -
  from inv a obtain t where t: "w_heap w a = Some t" and winv: "world_inv w"
    by (auto simp: rp_inv_def)
  with winv obtain c where c: "w_interop w = Some c" "ic_interop_handle c \<noteq> None"
    unfolding world_inv_def by blast
  with winv have "ic_device c" by (auto simp: world_inv_def interop_wf_def)
  from create_shared_texture_total [OF c(1) this] obtain p w1
    where cr: "create_shared_texture cok rok sz w = Inr (p, w1)" by blast
  note c1 = create_shared_texture_inv [OF winv cr]
  have "w_heap w1 a \<noteq> None"
    using c1 t by (cases p) auto
  with release_texture_ok [OF conjunct1 [OF c1], of "Some a" uok] obtain w2
    where "release_texture uok (Some a) w1 = Inr w2" by blast
  with cr a show ?thesis
    by (cases "sz \<noteq> rp_size rp") (auto simp: rp_initialize_render_target_def)
qed

section \<open>Behaviour of the render path\<close>

text \<open>C1: calling \<open>InitializeRenderTarget\<close> again with the size of the current texture
  keeps the texture object (no reallocation), changes nothing, and reports success.\<close>

lemma init_target_same_size_keeps:
  "rp_shared_texture rp = Some a \<Longrightarrow>
     rp_initialize_render_target cok rok uok (rp_size rp) rp w = Inr (True, rp, w)"
  by (simp add: rp_initialize_render_target_def)

lemma init_target_recreate:
  assumes inv: "rp_inv rp w" and re: "rp_shared_texture rp = None \<or> sz \<noteq> rp_size rp"
    and it: "rp_initialize_render_target cok rok uok sz rp w = Inr (r, rp', w')"
  shows "rp_size rp' = sz \<and> (\<forall>a. rp_shared_texture rp = Some a \<longrightarrow> w_heap w' a = None) \<and>
         (\<forall>a'. rp_shared_texture rp' = Some a' \<longrightarrow> a' = w_next w)"
proof -
  from it re obtain p w1 where cr: "create_shared_texture cok rok sz w = Inr (p, w1)"
    and rel: "release_texture uok (rp_shared_texture rp) w1 = Inr w'"
    and rp': "rp' = rp\<lparr>rp_size := sz, rp_shared_texture := p\<rparr>"
    by (auto simp: rp_initialize_render_target_def res_bind_eq_Inr Let_def)
  from inv have winv: "world_inv w" by (simp add: rp_inv_def)
  note c = create_shared_texture_inv [OF winv cr]
  note d = release_texture_inv [OF conjunct1 [OF c] rel]
  from c have "\<forall>a'. p = Some a' \<longrightarrow> a' = w_next w" by (auto split: option.splits)
  with d rp' show ?thesis by auto
qed

text \<open>C2: calling \<open>InitializeRenderTarget\<close> with a different size deletes the old
  texture and, exactly when it reports success, holds a new texture object of the new size.\<close>

lemma init_target_resize:
  assumes inv: "rp_inv rp w" and old: "rp_shared_texture rp = Some a" and ne: "sz \<noteq> rp_size rp"
    and it: "rp_initialize_render_target cok rok uok sz rp w = Inr (r, rp', w')"
  shows "rp_size rp' = sz \<and> w_heap w' a = None \<and>
         (r \<longleftrightarrow> (\<exists>a' t. rp_shared_texture rp' = Some a' \<and> a' \<noteq> a \<and> w_heap w' a' = Some t \<and>
                     st_gl_texture t = Some (gl_texture_rgba sz)))"
proof -
  from init_target_recreate [OF inv _ it] ne old have rc: "rp_size rp' = sz" "w_heap w' a = None"
    "\<forall>a'. rp_shared_texture rp' = Some a' \<longrightarrow> a' = w_next w" by auto
  from init_target_inv [OF inv it] have i: "rp_inv rp' w'" "r \<longleftrightarrow> rp_shared_texture rp' \<noteq> None"
    by auto
  from inv old have "a \<noteq> w_next w"
    by (auto simp: rp_inv_def world_inv_def fresh_above_None)
  with rc i show ?thesis by (auto simp: rp_inv_def)
qed

text \<open>C12: \<open>ProcessFrame\<close> with a texture returns the engine's answer, records the
  timestamp on the texture whether or not the transfer succeeded, and raises the owner's
  new-frame flag only on success.\<close>

lemma process_frame_records_pts:
  assumes "rp_shared_texture rp = Some a" "w_heap w a = Some t"
    and pf: "rp_process_frame engine pts rp w = Inr (ok, rp', w')"
  shows "ok = engine (transfer_request a rp) \<and> w_heap w' a = Some (t\<lparr>st_pts := pts\<rparr>) \<and>
         (rp_has_new_frame rp' \<longleftrightarrow> rp_has_new_frame rp \<or> ok) \<and>
         rp_size rp' = rp_size rp \<and> rp_shared_texture rp' = rp_shared_texture rp"
  using assms by (auto simp: rp_process_frame_def Let_def split: if_splits)

text \<open>C13: \<open>ProcessFrame\<close> without a texture fails and changes nothing.\<close>

lemma process_frame_no_texture:
  "rp_shared_texture rp = None \<Longrightarrow> rp_process_frame engine pts rp w = Inr (False, rp, w)"
  by (simp add: rp_process_frame_def)

text \<open>C14: \<open>Initialize\<close> against an existing invalid interop context returns false and
  leaves the engine attributes and the context untouched.\<close>

lemma initialize_invalid_context:
  assumes "w_interop w = Some c" "\<not> ic_is_valid c"
  shows "rp_initialize e ok attrs w = Inr (False, attrs, w)"
  using assms by (simp add: rp_initialize_def)

section \<open>Witnesses\<close>

lemma ex_rp_inv: "rp_inv ex_rp ex_world"
  by (auto simp: rp_inv_def world_inv_def tex_ok_def fence_agrees_def bridge_wf_def fresh_above_def
      interop_wf_def ex_rp_def ex_world_def ex_tex_def ex_ctx_def ex_bridge_def interop_null_def)

lemma init_target_same_size_keeps_witness:
  "rp_shared_texture ex_rp = Some 0 \<and>
   rp_initialize_render_target True True True (4, 4) ex_rp ex_world = Inr (True, ex_rp, ex_world)"
proof -
  have h: "rp_shared_texture ex_rp = Some 0" by (simp add: ex_rp_def)
  from init_target_same_size_keeps [OF h, of True True True ex_world] h show ?thesis
    by (simp add: ex_rp_def)
qed

lemma init_target_resize_witness:
  "\<exists>r rp' w'. rp_initialize_render_target True True True (8, 8) ex_rp ex_world = Inr (r, rp', w') \<and>
     rp_inv ex_rp ex_world \<and> rp_shared_texture ex_rp = Some 0 \<and> (8, 8) \<noteq> rp_size ex_rp \<and>
     r \<and> w_heap w' 0 = None"
proof -
  have "\<exists>r rp' w'. rp_initialize_render_target True True True (8, 8) ex_rp ex_world = Inr (r, rp', w')"
    by (auto simp add: op_defs state_defs Let_def)
  then obtain r rp' w' where it: "rp_initialize_render_target True True True (8, 8) ex_rp ex_world = Inr (r, rp', w')"
    by blast
  have h: "rp_shared_texture ex_rp = Some 0" "(8, 8) \<noteq> rp_size ex_rp" by (simp_all add: ex_rp_def)
  have "r"
    using it by (simp add: op_defs state_defs Let_def)
  with init_target_resize [OF ex_rp_inv h it] ex_rp_inv h it show ?thesis by blast
qed

lemma process_frame_records_pts_witness:
  "rp_shared_texture ex_rp = Some 0 \<and> w_heap ex_world 0 = Some ex_tex \<and>
   (\<exists>rp' w'. rp_process_frame (\<lambda>_. False) 40 ex_rp ex_world = Inr (False, rp', w') \<and>
      w_heap w' 0 = Some (ex_tex\<lparr>st_pts := 40\<rparr>) \<and> \<not> rp_has_new_frame rp')"
proof -
  have h: "rp_shared_texture ex_rp = Some 0" "w_heap ex_world 0 = Some ex_tex"
    by (simp_all add: ex_rp_def ex_world_def)
  obtain ok rp' w' where pf: "rp_process_frame (\<lambda>_. False) 40 ex_rp ex_world = Inr (ok, rp', w')"
    using h by (auto simp: rp_process_frame_def Let_def)
  from process_frame_records_pts [OF h pf] h pf show ?thesis by (auto simp: ex_rp_def)
qed

lemma initialize_invalid_context_witness:
  "w_interop (ex_world\<lparr>w_interop := Some interop_null\<rparr>) = Some interop_null \<and> \<not> ic_is_valid interop_null \<and>
   rp_initialize env_ok True \<lparr>attr_dxgi_manager = False\<rparr> (ex_world\<lparr>w_interop := Some interop_null\<rparr>) =
     Inr (False, \<lparr>attr_dxgi_manager = False\<rparr>, ex_world\<lparr>w_interop := Some interop_null\<rparr>)"
proof -
  have h: "w_interop (ex_world\<lparr>w_interop := Some interop_null\<rparr>) = Some interop_null"
    "\<not> ic_is_valid interop_null" by (simp_all add: interop_null_def)
  from initialize_invalid_context [OF h] h show ?thesis by blast
qed

text \<open>C20: \<open>InitializeRenderTarget\<close> on a context whose device was never created (the
  caller went on after a failed \<open>Initialize\<close>) dereferences the null device.\<close>

lemma init_target_null_device:
  assumes "w_interop w = Some c" "\<not> ic_device c" "rp_shared_texture rp = None \<or> sz \<noteq> rp_size rp"
  shows "rp_initialize_render_target cok rok uok sz rp w = Inl Null_Device"
  using assms
  by (auto simp: rp_initialize_render_target_def create_shared_texture_def shared_texture_new_def Let_def)

lemma init_target_null_device_witness:
  "w_interop (ex_world\<lparr>w_interop := Some interop_null\<rparr>) = Some interop_null \<and> \<not> ic_device interop_null \<and>
   (rp_shared_texture render_path_new = None \<or> (4, 4) \<noteq> rp_size render_path_new) \<and>
   rp_initialize_render_target True True True (4, 4) render_path_new (ex_world\<lparr>w_interop := Some interop_null\<rparr>)
     = Inl Null_Device"
proof -
  have h: "w_interop (ex_world\<lparr>w_interop := Some interop_null\<rparr>) = Some interop_null" "\<not> ic_device interop_null"
    "rp_shared_texture render_path_new = None \<or> (4, 4) \<noteq> rp_size render_path_new"
    by (simp_all add: interop_null_def render_path_new_def)
  from init_target_null_device [OF h] h show ?thesis by blast
qed

lemma process_frame_no_texture_witness:
  "rp_shared_texture render_path_new = None \<and>
   rp_process_frame (\<lambda>_. True) 40 render_path_new ex_world = Inr (False, render_path_new, ex_world)"
proof -
  have h: "rp_shared_texture render_path_new = None" by (simp add: render_path_new_def)
  from process_frame_no_texture [OF h] h show ?thesis by blast
qed

text \<open>C25: destroying a render path that satisfies its invariant never fails: its texture
  leaves the store and, when a GL context is current, its share handle is unregistered
  from the driver; without one the registration is left behind, the leak the destructor's
  comment accepts at shutdown. No other registration changes and the world keeps its
  invariant.\<close>

lemma rp_destroy_releases:
  assumes inv: "rp_inv rp w" and a: "rp_shared_texture rp = Some a"
  shows "\<exists>rp' w' t h. rp_destroy uok rp w = Inr (rp', w') \<and> rp_shared_texture rp' = None \<and>
     w_heap w a = Some t \<and> st_share_handle t = Some h \<and> w_heap w' = (w_heap w)(a := None) \<and>
     br_objs (w_bridge w') h = (if w_gl_current w then None else br_objs (w_bridge w) h) \<and>
     (\<forall>h'. h' \<noteq> h \<longrightarrow> br_objs (w_bridge w') h' = br_objs (w_bridge w) h') \<and> world_inv w'"
proof -
  from inv a obtain t where t: "w_heap w a = Some t" by (auto simp: rp_inv_def)
  from inv t have "tex_ok (w_bridge w) t \<and> (\<exists>c. w_interop w = Some c \<and> ic_interop_handle c \<noteq> None)"
    unfolding rp_inv_def world_inv_def by blast
  then obtain c h where c: "w_interop w = Some c" "ic_interop_handle c \<noteq> None"
    and h: "st_share_handle t = Some h"
    by (auto simp: tex_ok_def)
  have "\<exists>b'. st_destroy (w_interop w) (w_gl_current w) uok t (w_bridge w) = Inr b' \<and>
          br_objs b' h = (if w_gl_current w then None else br_objs (w_bridge w) h)"
    using c h by (cases "w_gl_current w") (simp_all add: st_destroy_def wgl_unregister_removes Let_def)
  then obtain b' where d: "st_destroy (w_interop w) (w_gl_current w) uok t (w_bridge w) = Inr b'"
    and bh: "br_objs b' h = (if w_gl_current w then None else br_objs (w_bridge w) h)" by blast
  have del: "tex_delete uok a w = Inr (w\<lparr>w_heap := (w_heap w)(a := None), w_bridge := b'\<rparr>)"
    using t d by (simp add: tex_delete_def)
  from tex_delete_inv [OF conjunct1 [OF inv [unfolded rp_inv_def]] del] have wi:
    "world_inv (w\<lparr>w_heap := (w_heap w)(a := None), w_bridge := b'\<rparr>)" by blast
  from st_destroy_frame [OF d] h have fr: "\<forall>h'. h' \<noteq> h \<longrightarrow> br_objs b' h' = br_objs (w_bridge w) h'"
    by auto
  show ?thesis
    using a t h bh fr wi del by (simp add: rp_destroy_def release_texture_def)
qed

lemma rp_destroy_releases_witness:
  "rp_inv ex_rp ex_world \<and> rp_shared_texture ex_rp = Some 0 \<and>
   (\<exists>rp' w'. rp_destroy True ex_rp ex_world = Inr (rp', w') \<and> w_heap w' 0 = None \<and>
      br_objs (w_bridge w') 1 = None)"
proof -
  have a: "rp_shared_texture ex_rp = Some 0" by (simp add: ex_rp_def)
  from rp_destroy_releases [OF ex_rp_inv a, of True] obtain rp' w' t h where
    d: "rp_destroy True ex_rp ex_world = Inr (rp', w')" and t: "w_heap ex_world 0 = Some t"
    and h: "st_share_handle t = Some h" and w': "w_heap w' = (w_heap ex_world)(0 := None)"
    and b: "br_objs (w_bridge w') h = (if w_gl_current ex_world then None else br_objs (w_bridge ex_world) h)"
    by blast
  from t h have "h = 1" by (auto simp: state_defs)
  with b have "br_objs (w_bridge w') 1 = None" by (simp add: state_defs)
  with ex_rp_inv a d w' show ?thesis by auto
qed

end
