(* ===== verification/Session.thy ===== *)
theory Session
  imports RenderPath
begin

text \<open>
  A playback session as the player drives it: a sequence of calls into the render
  path (\<open>Initialize\<close>, \<open>InitializeRenderTarget\<close>, \<open>ProcessFrame\<close>,
  \<open>GetFrameLease\<close> and the end of a lease's scope) interleaved with the
  environment making a GL context current or not. Each event carries the outcomes
  of the external calls it makes. Leases live in the renderer's scopes, so they are
  released in the reverse order of their acquisition (a stack). The player itself
  (\<open>MediaPlayer::Impl\<close>) is not in the sources; this theory only composes the
  modelled operations.
\<close>

record session =
  s_world :: world
  s_rp :: render_path
  s_attrs :: mf_attributes
  s_leases :: "frame_lease list"

datatype event =
    Ev_Initialize init_env bool
  | Ev_Init_Target bool bool bool ivec2
  | Ev_Process_Frame bool longlong
  | Ev_Acquire_Lease bool
  | Ev_Release_Lease bool
  | Ev_GL_Current bool
  | Ev_New_Session bool

fun session_step :: "session \<Rightarrow> event \<Rightarrow> session result" where
  "session_step s (Ev_Initialize e ok) =
     res_bind (rp_initialize e ok (s_attrs s) (s_world s)) (\<lambda>(_, at, w).
       Inr (s\<lparr>s_attrs := at, s_world := w\<rparr>))"
| "session_step s (Ev_Init_Target cok rok uok sz) =
     res_bind (rp_initialize_render_target cok rok uok sz (s_rp s) (s_world s)) (\<lambda>(_, rp, w).
       Inr (s\<lparr>s_rp := rp, s_world := w\<rparr>))"
| "session_step s (Ev_Process_Frame ok pts) =
     res_bind (rp_process_frame (\<lambda>_. ok) pts (s_rp s) (s_world s)) (\<lambda>(_, rp, w).
       Inr (s\<lparr>s_rp := rp, s_world := w\<rparr>))"
| "session_step s (Ev_Acquire_Lease ok) =
     res_bind (rp_get_frame_lease ok (s_rp s) (s_world s)) (\<lambda>(l, w).
       Inr (s\<lparr>s_leases := l # s_leases s, s_world := w\<rparr>))"
| "session_step s (Ev_Release_Lease ok) =
     (case s_leases s of
        [] \<Rightarrow> Inr s
      | l # ls \<Rightarrow> res_bind (lease_destroy ok l (s_world s)) (\<lambda>(_, w).
                   Inr (s\<lparr>s_leases := ls, s_world := w\<rparr>)))"
| "session_step s (Ev_GL_Current g) = Inr (s\<lparr>s_world := (s_world s)\<lparr>w_gl_current := g\<rparr>\<rparr>)"
| "session_step s (Ev_New_Session uok) =
     res_bind (rp_destroy uok (s_rp s) (s_world s)) (\<lambda>(_, w).
       Inr (s\<lparr>s_rp := render_path_new, s_attrs := \<lparr>attr_dxgi_manager = False\<rparr>, s_world := w\<rparr>))"

fun session_run :: "session \<Rightarrow> event list \<Rightarrow> session result" where
  "session_run s [] = Inr s"
| "session_run s (e # es) = res_bind (session_step s e) (\<lambda>s'. session_run s' es)"

text \<open>Process start: no interop context yet, an empty driver, no texture, a GL
  context current, a fresh render path and attribute store.\<close>

definition session_init :: session where
  "session_init =
     \<lparr>s_world = \<lparr>w_interop = None, w_bridge = bridge_empty, w_heap = Map.empty, w_next = 1,
                 w_gl_current = True\<rparr>,
      s_rp = render_path_new, s_attrs = \<lparr>attr_dxgi_manager = False\<rparr>, s_leases = []\<rparr>"

inductive reachable :: "session \<Rightarrow> bool" where
  start: "reachable session_init"
| step: "reachable s \<Longrightarrow> session_step s e = Inr s' \<Longrightarrow> reachable s'"

text \<open>A release whose \<open>wglDXUnlockObjectsNV\<close> call succeeds, if it makes one.\<close>

fun unlock_succeeds :: "event \<Rightarrow> bool" where
  "unlock_succeeds (Ev_Release_Lease ok) = ok"
| "unlock_succeeds _ = True"

text \<open>The lease discipline: the store holds at most the render path's texture, and
  that texture is locked only while a lease on it is alive.\<close>

definition lease_inv :: "session \<Rightarrow> bool" where
  "lease_inv s \<longleftrightarrow>
     dom (w_heap (s_world s)) \<subseteq> set_option (rp_shared_texture (s_rp s)) \<and>
     (\<forall>a t. rp_shared_texture (s_rp s) = Some a \<longrightarrow> w_heap (s_world s) a = Some t \<longrightarrow>
        st_is_locked t \<longrightarrow> Some a \<in> set (s_leases s))"

text \<open>Ownership of the store: the render path's \<open>unique_ptr\<close> is the only owner, so
  the store holds at most its texture, and every lease points to an address that was
  allocated before.\<close>

definition store_inv :: "session \<Rightarrow> bool" where
  "store_inv s \<longleftrightarrow> rp_inv (s_rp s) (s_world s) \<and>
     dom (w_heap (s_world s)) \<subseteq> set_option (rp_shared_texture (s_rp s)) \<and>
     (\<forall>b. Some b \<in> set (s_leases s) \<longrightarrow> b < w_next (s_world s))"

lemmas session_states [state_defs] = session_init_def

section \<open>Every reachable session keeps the render path invariant\<close>

lemma rp_inv_init: "rp_inv (s_rp session_init) (s_world session_init)"
  by (simp add: rp_inv_def world_inv_def session_init_def render_path_new_def)

lemma session_step_inv:
  assumes inv: "rp_inv (s_rp s) (s_world s)" and st: "session_step s e = Inr s'"
  shows "rp_inv (s_rp s') (s_world s')"
proof (cases e)
  case (Ev_Initialize e ok)
  with st obtain r at w where "rp_initialize e ok (s_attrs s) (s_world s) = Inr (r, at, w)"
    and "s' = s\<lparr>s_attrs := at, s_world := w\<rparr>"
    by (auto simp: res_bind_eq_Inr)
  with rp_initialize_inv [OF inv] show ?thesis by auto
next
  case (Ev_Init_Target cok rok uok sz)
  with st obtain r rp w where "rp_initialize_render_target cok rok uok sz (s_rp s) (s_world s) = Inr (r, rp, w)"
    and "s' = s\<lparr>s_rp := rp, s_world := w\<rparr>"
    by (auto simp: res_bind_eq_Inr)
  with init_target_inv [OF inv] show ?thesis by auto
next
  case (Ev_Process_Frame ok pts)
  with st obtain r rp w where "rp_process_frame (\<lambda>_. ok) pts (s_rp s) (s_world s) = Inr (r, rp, w)"
    and "s' = s\<lparr>s_rp := rp, s_world := w\<rparr>"
    by (auto simp: res_bind_eq_Inr)
  with process_frame_inv [OF inv] show ?thesis by auto
next
  case (Ev_Acquire_Lease ok)
  with st obtain l w where "lease_new ok (rp_shared_texture (s_rp s)) (s_world s) = Inr (l, w)"
    and "s' = s\<lparr>s_leases := l # s_leases s, s_world := w\<rparr>"
    by (auto simp: res_bind_eq_Inr rp_get_frame_lease_def)
  with lease_new_rp_inv [OF inv] show ?thesis by auto
next
  case (Ev_Release_Lease ok)
  show ?thesis
  proof (cases "s_leases s")
    case Nil
    with st Ev_Release_Lease inv show ?thesis by simp
  next
    case (Cons l ls)
    with st Ev_Release_Lease obtain l' w where "lease_destroy ok l (s_world s) = Inr (l', w)"
      and "s' = s\<lparr>s_leases := ls, s_world := w\<rparr>"
      by (auto simp: res_bind_eq_Inr)
    with lease_destroy_rp_inv [OF inv] show ?thesis by auto
  qed
next
  case (Ev_GL_Current g)
  with st inv show ?thesis by (auto simp: rp_inv_def world_inv_def)
next
  case (Ev_New_Session uok)
  with st obtain w where "release_texture uok (rp_shared_texture (s_rp s)) (s_world s) = Inr w"
    and "s' = s\<lparr>s_rp := render_path_new, s_attrs := \<lparr>attr_dxgi_manager = False\<rparr>, s_world := w\<rparr>"
    by (auto simp: rp_destroy_def res_bind_eq_Inr)
  with release_texture_inv [OF conjunct1 [OF inv [unfolded rp_inv_def]]] show ?thesis
    by (simp add: rp_inv_def render_path_new_def)
qed

lemma reachable_rp_inv: "reachable s \<Longrightarrow> rp_inv (s_rp s) (s_world s)"
proof (induction rule: reachable.induct)
  case start
  show ?case by (rule rp_inv_init)
next
  case (step s e s')
  then show ?case by (blast intro: session_step_inv)
qed

lemma session_run_reachable:
  "reachable s \<Longrightarrow> session_run s es = Inr s' \<Longrightarrow> reachable s'"
proof (induction es arbitrary: s)
  case Nil
  then show ?case by simp
next
  case (Cons e es)
  then obtain s1 where "session_step s e = Inr s1" "session_run s1 es = Inr s'"
    by (auto simp: res_bind_eq_Inr)
  with Cons show ?case by (blast intro: reachable.step)
qed

section \<open>Ownership of the store\<close>

lemma store_inv_init: "store_inv session_init"
  by (simp add: store_inv_def rp_inv_init) (simp add: session_init_def render_path_new_def)

lemma session_step_store_inv:
  assumes inv: "store_inv s" and st: "session_step s e = Inr s'"
  shows "store_inv s'"
proof -
  from inv have rp: "rp_inv (s_rp s) (s_world s)"
    and dm: "dom (w_heap (s_world s)) \<subseteq> set_option (rp_shared_texture (s_rp s))"
    and ls: "\<forall>b. Some b \<in> set (s_leases s) \<longrightarrow> b < w_next (s_world s)"
    by (simp_all add: store_inv_def)
  from rp have winv: "world_inv (s_world s)" by (simp add: rp_inv_def)
  have "dom (w_heap (s_world s')) \<subseteq> set_option (rp_shared_texture (s_rp s')) \<and>
        (\<forall>b. Some b \<in> set (s_leases s') \<longrightarrow> b < w_next (s_world s'))"
  proof (cases e)
    case (Ev_Initialize e ok)
    with st obtain r at w where "rp_initialize e ok (s_attrs s) (s_world s) = Inr (r, at, w)"
      and "s' = s\<lparr>s_attrs := at, s_world := w\<rparr>"
      by (auto simp: res_bind_eq_Inr)
    with rp_initialize_inv [OF rp] dm ls show ?thesis by auto
  next
    case (Ev_Init_Target cok rok uok sz)
    with st obtain r rp w where it: "rp_initialize_render_target cok rok uok sz (s_rp s) (s_world s) = Inr (r, rp, w)"
      and s': "s' = s\<lparr>s_rp := rp, s_world := w\<rparr>"
      by (auto simp: res_bind_eq_Inr)
    from dm have "dom (w_heap (s_world s)) - set_option (rp_shared_texture (s_rp s)) = {}" by auto
    with init_target_effect [OF rp it] init_target_heap [OF rp it] dm ls s' show ?thesis
      by auto
  next
    case (Ev_Process_Frame ok pts)
    with st obtain r rp w where pf: "rp_process_frame (\<lambda>_. ok) pts (s_rp s) (s_world s) = Inr (r, rp, w)"
      and s': "s' = s\<lparr>s_rp := rp, s_world := w\<rparr>"
      by (auto simp: res_bind_eq_Inr)
    from process_frame_heap [OF pf] have "dom (w_heap w) = dom (w_heap (s_world s))"
      by (cases "rp_shared_texture (s_rp s)") (auto split: if_splits)
    with process_frame_heap [OF pf] dm ls s' show ?thesis by auto
  next
    case (Ev_Acquire_Lease ok)
    with st obtain l w where ln: "lease_new ok (rp_shared_texture (s_rp s)) (s_world s) = Inr (l, w)"
      and s': "s' = s\<lparr>s_leases := l # s_leases s, s_world := w\<rparr>"
      by (auto simp: res_bind_eq_Inr rp_get_frame_lease_def)
    show ?thesis
    proof (cases "rp_shared_texture (s_rp s)")
      case None
      with ln s' dm ls show ?thesis by (auto simp: lease_new_def)
    next
      case (Some a)
      with ln obtain r where lk: "tex_lock ok a (s_world s) = Inr (r, w)" and l: "l = Some a"
        by (auto simp: lease_new_def res_bind_eq_Inr)
      from tex_lock_inv [OF winv lk] obtain t where t: "w_heap (s_world s) a = Some t"
        and h: "w_heap w = (w_heap (s_world s))(a \<mapsto> t\<lparr>st_is_locked := r\<rparr>)"
        and n: "w_next w = w_next (s_world s)" by blast
      from winv t have "a < w_next (s_world s)" by (auto simp: world_inv_def fresh_above_def)
      with t h n s' l dm ls Some show ?thesis by auto
    qed
  next
    case (Ev_Release_Lease ok)
    show ?thesis
    proof (cases "s_leases s")
      case Nil
      with st Ev_Release_Lease dm ls show ?thesis by simp
    next
      case (Cons l ls')
      with st Ev_Release_Lease obtain l' w where ld: "lease_destroy ok l (s_world s) = Inr (l', w)"
        and s': "s' = s\<lparr>s_leases := ls', s_world := w\<rparr>"
        by (auto simp: res_bind_eq_Inr)
      have "dom (w_heap w) = dom (w_heap (s_world s)) \<and> w_next w = w_next (s_world s)"
      proof (cases "\<exists>b t. l = Some b \<and> w_heap (s_world s) b = Some t \<and> st_is_locked t")
        case True
        then obtain b t where b: "l = Some b" "w_heap (s_world s) b = Some t" "st_is_locked t" by blast
        with ld obtain r where "tex_unlock ok b (s_world s) = Inr (r, w)"
          by (auto simp: lease_destroy_def res_bind_eq_Inr)
        from tex_unlock_inv [OF winv this] b show ?thesis by auto
      next
        case False
        with ld show ?thesis
          by (auto simp: lease_destroy_def res_bind_eq_Inr deref_Inr split: option.splits if_splits)
      qed
      with s' dm ls Cons show ?thesis by auto
    qed
  next
    case (Ev_GL_Current g)
    with st have "s' = s\<lparr>s_world := (s_world s)\<lparr>w_gl_current := g\<rparr>\<rparr>" by simp
    with dm ls show ?thesis by simp
  next
    case (Ev_New_Session uok)
    with st obtain w where rel: "release_texture uok (rp_shared_texture (s_rp s)) (s_world s) = Inr w"
      and s': "s' = s\<lparr>s_rp := render_path_new, s_attrs := \<lparr>attr_dxgi_manager = False\<rparr>, s_world := w\<rparr>"
      by (auto simp: rp_destroy_def res_bind_eq_Inr)
    from release_texture_inv [OF winv rel] dm
    have "dom (w_heap w) = {}" "w_next w = w_next (s_world s)"
      by (cases "rp_shared_texture (s_rp s)"; auto)+
    with s' ls show ?thesis by (simp add: render_path_new_def)
  qed
  with session_step_inv [OF rp st] show ?thesis by (simp add: store_inv_def)
qed

lemma reachable_store_inv: "reachable s \<Longrightarrow> store_inv s"
  by (induction rule: reachable.induct) (auto intro: store_inv_init session_step_store_inv)

section \<open>The lease discipline\<close>

lemma lease_inv_init: "lease_inv session_init"
  by (simp add: lease_inv_def session_init_def)

lemma lease_step_inv:
  assumes inv: "rp_inv (s_rp s) (s_world s)" and li: "lease_inv s"
    and st: "session_step s e = Inr s'" and ok: "unlock_succeeds e"
  shows "lease_inv s'"
proof (cases e)
  case (Ev_Initialize e ok)
  with st obtain r at w where "rp_initialize e ok (s_attrs s) (s_world s) = Inr (r, at, w)"
    and "s' = s\<lparr>s_attrs := at, s_world := w\<rparr>"
    by (auto simp: res_bind_eq_Inr)
  with rp_initialize_inv [OF inv] li show ?thesis by (auto simp: lease_inv_def)
next
  case (Ev_Init_Target cok rok uok sz)
  with st obtain r rp w where it: "rp_initialize_render_target cok rok uok sz (s_rp s) (s_world s) = Inr (r, rp, w)"
    and s': "s' = s\<lparr>s_rp := rp, s_world := w\<rparr>"
    by (auto simp: res_bind_eq_Inr)
  from init_target_heap [OF inv it] show ?thesis
  proof
    assume h: "dom (w_heap w) \<subseteq> (dom (w_heap (s_world s)) - set_option (rp_shared_texture (s_rp s))) \<union>
                 set_option (rp_shared_texture rp) \<and>
               (\<forall>a t. rp_shared_texture rp = Some a \<longrightarrow> w_heap w a = Some t \<longrightarrow> \<not> st_is_locked t)"
    from li have "dom (w_heap (s_world s)) - set_option (rp_shared_texture (s_rp s)) = {}"
      by (auto simp: lease_inv_def)
    with h s' show ?thesis by (auto simp: lease_inv_def)
  next
    assume "rp = s_rp s \<and> w = s_world s"
    with li s' show ?thesis by (auto simp: lease_inv_def)
  qed
next
  case (Ev_Process_Frame ok pts)
  with st obtain r rp w where pf: "rp_process_frame (\<lambda>_. ok) pts (s_rp s) (s_world s) = Inr (r, rp, w)"
    and s': "s' = s\<lparr>s_rp := rp, s_world := w\<rparr>"
    by (auto simp: res_bind_eq_Inr)
  note h = process_frame_heap [OF pf]
  show ?thesis
  proof (cases "rp_shared_texture (s_rp s)")
    case None
    with h li s' show ?thesis by (auto simp: lease_inv_def)
  next
    case (Some a)
    with h obtain t where t: "w_heap (s_world s) a = Some t"
      "w_heap w = (w_heap (s_world s))(a \<mapsto> t\<lparr>st_pts := pts\<rparr>)" by blast
    then have "dom (w_heap w) = dom (w_heap (s_world s))" by auto
    with t h li s' Some show ?thesis by (auto simp: lease_inv_def)
  qed
next
  case (Ev_Acquire_Lease ok)
  with st obtain l w where ln: "lease_new ok (rp_shared_texture (s_rp s)) (s_world s) = Inr (l, w)"
    and s': "s' = s\<lparr>s_leases := l # s_leases s, s_world := w\<rparr>"
    by (auto simp: res_bind_eq_Inr rp_get_frame_lease_def)
  show ?thesis
  proof (cases "rp_shared_texture (s_rp s)")
    case None
    with ln s' li show ?thesis by (auto simp: lease_new_def lease_inv_def)
  next
    case (Some a)
    with ln obtain r where lk: "tex_lock ok a (s_world s) = Inr (r, w)" and l: "l = Some a"
      by (auto simp: lease_new_def res_bind_eq_Inr)
    from inv have "world_inv (s_world s)" by (simp add: rp_inv_def)
    from tex_lock_inv [OF this lk] li s' l Some show ?thesis
      by (auto simp: lease_inv_def dest: dom_subsetD)
  qed
next
  case (Ev_Release_Lease ok')
  show ?thesis
  proof (cases "s_leases s")
    case Nil
    with st Ev_Release_Lease li show ?thesis by simp
  next
    case (Cons l ls)
    with st Ev_Release_Lease obtain l' w where ld: "lease_destroy ok' l (s_world s) = Inr (l', w)"
      and s': "s' = s\<lparr>s_leases := ls, s_world := w\<rparr>"
      by (auto simp: res_bind_eq_Inr)
    from ok Ev_Release_Lease have ok': ok' by simp
    from inv have winv: "world_inv (s_world s)" by (simp add: rp_inv_def)
    show ?thesis
    proof (cases l)
      case None
      with ld s' li Cons show ?thesis by (auto simp: lease_destroy_def lease_inv_def)
    next
      case (Some b)
      with ld obtain t where b: "w_heap (s_world s) b = Some t"
        by (cases "w_heap (s_world s) b") (auto simp: lease_destroy_def)
      with li have own: "rp_shared_texture (s_rp s) = Some b" by (auto simp: lease_inv_def)
      show ?thesis
      proof (cases "st_is_locked t")
        case False
        with ld Some b s' li Cons own show ?thesis by (auto simp: lease_destroy_def lease_inv_def)
      next
        case True
        with ld Some b ok' obtain r where ul: "tex_unlock True b (s_world s) = Inr (r, w)"
          by (auto simp: lease_destroy_def res_bind_eq_Inr)
        from tex_unlock_result [OF winv b True ul] ok' have rt: r by simp
        from tex_unlock_inv [OF winv ul] b rt s' li own show ?thesis
          by (auto simp: lease_inv_def)
      qed
    qed
  qed
next
  case (Ev_GL_Current g)
  with st li show ?thesis by (auto simp: lease_inv_def dest: dom_subsetD)
next
  case (Ev_New_Session uok)
  with st obtain w where rel: "release_texture uok (rp_shared_texture (s_rp s)) (s_world s) = Inr w"
    and s': "s' = s\<lparr>s_rp := render_path_new, s_attrs := \<lparr>attr_dxgi_manager = False\<rparr>, s_world := w\<rparr>"
    by (auto simp: rp_destroy_def res_bind_eq_Inr)
  from release_texture_inv [OF conjunct1 [OF inv [unfolded rp_inv_def]] rel] li
  have "dom (w_heap w) = {}" by (cases "rp_shared_texture (s_rp s)") (auto simp: lease_inv_def)
  with s' show ?thesis by (simp add: lease_inv_def render_path_new_def)
qed

section \<open>Properties of sessions\<close>

lemma lease_run_inv:
  "rp_inv (s_rp s) (s_world s) \<Longrightarrow> lease_inv s \<Longrightarrow> session_run s es = Inr s' \<Longrightarrow>
     list_all unlock_succeeds es \<Longrightarrow> lease_inv s'"
proof (induction es arbitrary: s)
  case Nil
  then show ?case by simp
next
  case (Cons e es)
  then obtain s1 where st: "session_step s e = Inr s1" and run: "session_run s1 es = Inr s'"
    by (auto simp: res_bind_eq_Inr)
  from Cons.prems st have "rp_inv (s_rp s1) (s_world s1)" "lease_inv s1"
    by (auto intro: session_step_inv lease_step_inv)
  with Cons.IH run Cons.prems(4) show ?case by simp
qed

text \<open>C4: in every reachable session, every texture in the store is valid, has a share
  handle, and its \<open>_isLocked\<close> flag is the fence state the interop driver holds for it.\<close>

lemma reachable_fence_agrees:
  assumes "reachable s" "w_heap (s_world s) a = Some t"
  shows "fence_agrees (w_bridge (s_world s)) t \<and> st_is_valid t \<and> st_share_handle t \<noteq> None"
proof -
  from reachable_rp_inv [OF assms(1)] have "world_inv (s_world s)" by (simp add: rp_inv_def)
  with assms(2) show ?thesis by (auto simp: world_inv_def tex_ok_def)
qed

lemma reachable_fence_agrees_witness:
  "\<exists>s t. session_run session_init [Ev_Initialize env_ok True, Ev_Init_Target True True True (4, 4)] = Inr s \<and>
     w_heap (s_world s) 1 = Some t \<and> fence_agrees (w_bridge (s_world s)) t \<and> st_is_valid t"
proof -
  have "\<exists>s t. session_run session_init [Ev_Initialize env_ok True, Ev_Init_Target True True True (4, 4)] = Inr s \<and>
     w_heap (s_world s) 1 = Some t"
    by (simp add: op_defs state_defs Let_def)
  then obtain s t where run: "session_run session_init [Ev_Initialize env_ok True, Ev_Init_Target True True True (4, 4)] = Inr s"
    and t: "w_heap (s_world s) 1 = Some t" by blast
  from session_run_reachable [OF reachable.start run] have "reachable s" .
  from reachable_fence_agrees [OF this t] run t show ?thesis by blast
qed

text \<open>C7: in a session whose lease releases all unlock successfully, once no lease is
  alive the render path's texture is unlocked: every lease locks and unlocks it a net zero times.\<close>

lemma session_no_lease_unlocked:
  assumes run: "session_run session_init es = Inr s" and ok: "list_all unlock_succeeds es"
    and nl: "s_leases s = []" and a: "rp_shared_texture (s_rp s) = Some a"
    and t: "w_heap (s_world s) a = Some t"
  shows "\<not> st_is_locked t"
proof -
  from lease_run_inv [OF rp_inv_init lease_inv_init run ok] have "lease_inv s" .
  with nl a t show ?thesis by (auto simp: lease_inv_def)
qed

lemma session_no_lease_unlocked_witness:
  "\<exists>s t. session_run session_init
       [Ev_Initialize env_ok True, Ev_Init_Target True True True (4, 4), Ev_Acquire_Lease True,
        Ev_Process_Frame True 40, Ev_Release_Lease True] = Inr s \<and>
     list_all unlock_succeeds
       [Ev_Initialize env_ok True, Ev_Init_Target True True True (4, 4), Ev_Acquire_Lease True,
        Ev_Process_Frame True 40, Ev_Release_Lease True] \<and>
     s_leases s = [] \<and> rp_shared_texture (s_rp s) = Some 1 \<and> w_heap (s_world s) 1 = Some t \<and>
     \<not> st_is_locked t"
proof -
  let ?es = "[Ev_Initialize env_ok True, Ev_Init_Target True True True (4, 4), Ev_Acquire_Lease True,
        Ev_Process_Frame True 40, Ev_Release_Lease True]"
  have "\<exists>s t. session_run session_init ?es = Inr s \<and> s_leases s = [] \<and>
     rp_shared_texture (s_rp s) = Some 1 \<and> w_heap (s_world s) 1 = Some t"
    by (simp add: op_defs state_defs Let_def)
  then obtain s t where run: "session_run session_init ?es = Inr s" and
    props: "s_leases s = []" "rp_shared_texture (s_rp s) = Some 1" "w_heap (s_world s) 1 = Some t"
    by blast
  have ok: "list_all unlock_succeeds ?es" by simp
  from session_no_lease_unlocked [OF run ok props] run ok props show ?thesis by blast
qed

text \<open>C19: in every reachable session the store holds exactly the render path's texture:
  a texture replaced by \<open>InitializeRenderTarget\<close>, a texture the constructor left
  invalid and the texture of a destroyed render path are always deleted, so no
  \<open>SharedTexture\<close> object outlives its owning \<open>unique_ptr\<close>.\<close>

lemma reachable_store_owned:
  assumes "reachable s"
  shows "dom (w_heap (s_world s)) = set_option (rp_shared_texture (s_rp s))"
proof -
  from reachable_store_inv [OF assms] have "dom (w_heap (s_world s)) \<subseteq> set_option (rp_shared_texture (s_rp s))"
    and "rp_inv (s_rp s) (s_world s)" by (simp_all add: store_inv_def)
  then show ?thesis by (auto simp: rp_inv_def)
qed

lemma reachable_store_owned_witness:
  "\<exists>s. session_run session_init [Ev_Initialize env_ok True, Ev_Init_Target True True True (4, 4),
        Ev_Init_Target True True True (8, 8)] = Inr s \<and> reachable s \<and>
     rp_shared_texture (s_rp s) = Some 2 \<and> dom (w_heap (s_world s)) = {2}"
proof -
  have "\<exists>s. session_run session_init [Ev_Initialize env_ok True, Ev_Init_Target True True True (4, 4),
        Ev_Init_Target True True True (8, 8)] = Inr s \<and> rp_shared_texture (s_rp s) = Some 2"
    by (simp add: op_defs state_defs Let_def numeral_2_eq_2)
  then obtain s where run: "session_run session_init [Ev_Initialize env_ok True,
      Ev_Init_Target True True True (4, 4), Ev_Init_Target True True True (8, 8)] = Inr s"
    and p: "rp_shared_texture (s_rp s) = Some 2" by blast
  have r: "reachable s" by (rule session_run_reachable [OF reachable.start run])
  from reachable_store_owned [OF r] p run r show ?thesis by auto
qed

text \<open>C27: no reachable session is stuck: whenever the context is valid, the player can
  obtain a valid frame lease on a texture locked in agreement with the driver again,
  by making a GL context current and initialising the render target at a new size; in
  particular after a failed unlock has left the old texture locked forever.\<close>

theorem lease_recoverable:
  assumes r: "reachable s" and c: "w_interop (s_world s) = Some c" "ic_is_valid c"
    and sz: "sz \<noteq> rp_size (s_rp s)"
  shows "\<exists>s' a t. session_run s [Ev_GL_Current True, Ev_Init_Target True True True sz,
             Ev_Acquire_Lease True] = Inr s' \<and>
     s_leases s' = Some a # s_leases s \<and> w_heap (s_world s') a = Some t \<and> st_is_locked t \<and>
     fence_agrees (w_bridge (s_world s')) t \<and> lease_is_valid (s_world s') (Some a) = Inr True"
proof -
  let ?w1 = "(s_world s)\<lparr>w_gl_current := True\<rparr>"
  from reachable_rp_inv [OF r] have "rp_inv (s_rp s) ?w1" by (simp add: rp_inv_def world_inv_def)
  moreover have "w_interop ?w1 = Some c" using c by simp
  ultimately obtain rp' w2 where
    it: "rp_initialize_render_target True True True sz (s_rp s) ?w1 = Inr (True, rp', w2)"
    and p: "rp_shared_texture rp' = Some (w_next ?w1)" and l: "leasable w2 (w_next ?w1)"
    using init_target_new_texture [where uok = True, OF _ _ c(2)] sz by fastforce
  from tex_lock_leasable [OF l] obtain t h where t: "w_heap w2 (w_next ?w1) = Some t"
    and h: "st_share_handle t = Some h"
    and lk: "tex_lock True (w_next ?w1) w2 = Inr (True, w2\<lparr>w_heap := (w_heap w2)(w_next ?w1 \<mapsto> t\<lparr>st_is_locked := True\<rparr>),
       w_bridge := (w_bridge w2)\<lparr>br_objs := (br_objs (w_bridge w2))(h \<mapsto> True)\<rparr>\<rparr>)"
    by blast
  from l t have gl: "st_gl_texture t \<noteq> None" by (auto simp: leasable_def)
  show ?thesis
    using it p lk t h gl
    by (simp add: rp_get_frame_lease_def lease_new_def lease_is_valid_def lease_to_texture_def
        fence_agrees_def)
qed

theorem lease_recoverable_witness:
  "\<exists>s s' a t. session_run session_init [Ev_Initialize env_ok True, Ev_Init_Target True True True (4, 4),
        Ev_Acquire_Lease True, Ev_Release_Lease False] = Inr s \<and> reachable s \<and>
     w_interop (s_world s) = Some (interop_ctx_new env_ok) \<and> ic_is_valid (interop_ctx_new env_ok) \<and>
     (8, 8) \<noteq> rp_size (s_rp s) \<and> (\<exists>t0. w_heap (s_world s) 1 = Some t0 \<and> st_is_locked t0) \<and>
     session_run s [Ev_GL_Current True, Ev_Init_Target True True True (8, 8), Ev_Acquire_Lease True] =
       Inr s' \<and>
     w_heap (s_world s') a = Some t \<and> st_is_locked t \<and> lease_is_valid (s_world s') (Some a) = Inr True"
proof -
  have "\<exists>s. session_run session_init [Ev_Initialize env_ok True, Ev_Init_Target True True True (4, 4),
        Ev_Acquire_Lease True, Ev_Release_Lease False] = Inr s \<and>
     w_interop (s_world s) = Some (interop_ctx_new env_ok) \<and> (8, 8) \<noteq> rp_size (s_rp s) \<and>
     (\<exists>t0. w_heap (s_world s) 1 = Some t0 \<and> st_is_locked t0)"
    by (simp add: op_defs state_defs Let_def)
  then obtain s where run: "session_run session_init [Ev_Initialize env_ok True,
        Ev_Init_Target True True True (4, 4), Ev_Acquire_Lease True, Ev_Release_Lease False] = Inr s"
    and c: "w_interop (s_world s) = Some (interop_ctx_new env_ok)" and sz: "(8, 8) \<noteq> rp_size (s_rp s)"
    and stuck: "\<exists>t0. w_heap (s_world s) 1 = Some t0 \<and> st_is_locked t0"
    by blast
  have r: "reachable s" by (rule session_run_reachable [OF reachable.start run])
  have v: "ic_is_valid (interop_ctx_new env_ok)" by (simp add: interop_ctx_new_def state_defs)
  from lease_recoverable [OF r c v sz] run r c v sz stuck show ?thesis by blast
qed

end
