(* ===== verification/Protocol.thy ===== *)
theory Protocol
  imports Session
begin

text \<open>
  The lease protocol of the render path, abstractly: what the specification promises
  of a \<open>SharedTexture\<close> and the leases on it (sections 4.3 and 4.4), as a state machine
  over the session's events. The abstract state forgets the driver, the timestamps and
  the addresses: it keeps the render target's size, whether the texture is absent,
  unlocked or locked, and for each live lease whether it is null, points to the current
  texture, or points to a texture that no longer exists. The session refines it: every
  step of a reachable session is a step of the protocol (\<open>session_refines_protocol\<close>).
\<close>

datatype texture_state = No_Texture | Unlocked | Locked

datatype lease_state = Null_Lease | Live_Lease | Stale_Lease

record protocol =
  pr_size :: ivec2
  pr_texture :: texture_state
  pr_leases :: "lease_state list"

text \<open>A lease on a texture that is deleted becomes stale.\<close>

fun stale :: "lease_state \<Rightarrow> lease_state" where
  "stale Live_Lease = Stale_Lease"
| "stale x = x"

text \<open>The protocol. \<open>InitializeRenderTarget\<close> keeps a texture of the requested size and
  otherwise replaces it by a new unlocked one, or by none when creation fails, and every
  lease on the old one goes stale. A lease locks an unlocked texture exactly when the
  lock call succeeds; there is no step that locks a locked texture. Ending a lease
  unlocks the texture exactly when the unlock call succeeds; there is no step that ends
  a stale lease. Destroying the render path deletes the texture.\<close>

inductive protocol_step :: "protocol \<Rightarrow> event \<Rightarrow> protocol \<Rightarrow> bool" where
  initialize: "protocol_step p (Ev_Initialize e ok) p"
| target_keep: "pr_texture p \<noteq> No_Texture \<Longrightarrow> sz = pr_size p \<Longrightarrow>
    protocol_step p (Ev_Init_Target cok rok uok sz) p"
| target_new: "pr_texture p = No_Texture \<or> sz \<noteq> pr_size p \<Longrightarrow> x = No_Texture \<or> x = Unlocked \<Longrightarrow>
    p' = \<lparr>pr_size = sz, pr_texture = x, pr_leases = map stale (pr_leases p)\<rparr> \<Longrightarrow>
    protocol_step p (Ev_Init_Target cok rok uok sz) p'"
| process: "protocol_step p (Ev_Process_Frame ok pts) p"
| acquire_none: "pr_texture p = No_Texture \<Longrightarrow>
    p' = p\<lparr>pr_leases := Null_Lease # pr_leases p\<rparr> \<Longrightarrow> protocol_step p (Ev_Acquire_Lease ok) p'"
| acquire: "pr_texture p = Unlocked \<Longrightarrow>
    p' = p\<lparr>pr_texture := (if ok then Locked else Unlocked), pr_leases := Live_Lease # pr_leases p\<rparr> \<Longrightarrow>
    protocol_step p (Ev_Acquire_Lease ok) p'"
| release_none: "pr_leases p = [] \<Longrightarrow> protocol_step p (Ev_Release_Lease ok) p"
| release_null: "pr_leases p = Null_Lease # ls \<Longrightarrow> p' = p\<lparr>pr_leases := ls\<rparr> \<Longrightarrow>
    protocol_step p (Ev_Release_Lease ok) p'"
| release_live: "pr_leases p = Live_Lease # ls \<Longrightarrow>
    p' = p\<lparr>pr_texture := (if pr_texture p = Locked \<and> ok then Unlocked else pr_texture p),
           pr_leases := ls\<rparr> \<Longrightarrow>
    protocol_step p (Ev_Release_Lease ok) p'"
| gl_current: "protocol_step p (Ev_GL_Current g) p"
| new_session: "p' = \<lparr>pr_size = (0, 0), pr_texture = No_Texture, pr_leases = map stale (pr_leases p)\<rparr> \<Longrightarrow>
    protocol_step p (Ev_New_Session uok) p'"

inductive protocol_run :: "protocol \<Rightarrow> event list \<Rightarrow> protocol \<Rightarrow> bool" where
  nil: "protocol_run p [] p"
| cons: "protocol_step p e p1 \<Longrightarrow> protocol_run p1 es p' \<Longrightarrow> protocol_run p (e # es) p'"

section \<open>Abstraction of a session\<close>

definition texture_state_of :: "addr option \<Rightarrow> (addr \<rightharpoonup> shared_texture) \<Rightarrow> texture_state" where
  "texture_state_of p h =
     (case p of
        None \<Rightarrow> No_Texture
      | Some a \<Rightarrow> (case h a of None \<Rightarrow> No_Texture | Some t \<Rightarrow> if st_is_locked t then Locked else Unlocked))"

definition lease_state_of :: "addr option \<Rightarrow> (addr \<rightharpoonup> shared_texture) \<Rightarrow> frame_lease \<Rightarrow> lease_state" where
  "lease_state_of p h l =
     (case l of
        None \<Rightarrow> Null_Lease
      | Some b \<Rightarrow> if p = Some b \<and> h b \<noteq> None then Live_Lease else Stale_Lease)"

definition session_abs :: "session \<Rightarrow> protocol" where
  "session_abs s =
     \<lparr>pr_size = rp_size (s_rp s),
      pr_texture = texture_state_of (rp_shared_texture (s_rp s)) (w_heap (s_world s)),
      pr_leases = map (lease_state_of (rp_shared_texture (s_rp s)) (w_heap (s_world s))) (s_leases s)\<rparr>"

inductive_cases protocol_step_acquireE: "protocol_step p (Ev_Acquire_Lease ok) p'"
inductive_cases protocol_step_releaseE: "protocol_step p (Ev_Release_Lease ok) p'"

section \<open>The abstraction under the session's changes\<close>

lemma lease_state_of_dom:
  "dom h' = dom h \<Longrightarrow> lease_state_of p h' = lease_state_of p h"
  by (rule ext) (auto simp: lease_state_of_def split: option.splits)

lemma texture_state_of_upd_lock:
  "h a = Some t \<Longrightarrow>
     texture_state_of (Some a) (h(a \<mapsto> t\<lparr>st_is_locked := r\<rparr>)) = (if r then Locked else Unlocked)"
  by (simp add: texture_state_of_def)

lemma texture_state_of_upd_other:
  "h a = Some t \<Longrightarrow> st_is_locked t' = st_is_locked t \<Longrightarrow>
     texture_state_of p (h(a \<mapsto> t')) = texture_state_of p h"
  by (auto simp: texture_state_of_def split: option.splits)

text \<open>Once the texture the leases knew is gone, a lease is live only if it points to the
  new texture, which no lease can: every lease points below the allocation counter.\<close>

lemma lease_state_of_replaced:
  assumes new: "p' = None \<or> p' = Some n" and below: "\<forall>b. l = Some b \<longrightarrow> b < n"
  shows "lease_state_of p' h' l = stale (lease_state_of p h l)"
  using assms by (auto simp: lease_state_of_def split: option.splits)

section \<open>Each operation is a step of the protocol\<close>

text \<open>\<open>ProcessFrame\<close> writes the timestamp only: the abstract state does not move.\<close>

lemma process_frame_protocol:
  assumes pf: "rp_process_frame engine pts (s_rp s) (s_world s) = Inr (r, rp, w)"
  shows "session_abs (s\<lparr>s_rp := rp, s_world := w\<rparr>) = session_abs s"
proof (cases "rp_shared_texture (s_rp s)")
  case None
  with process_frame_heap [OF pf] show ?thesis by (simp add: session_abs_def)
next
  case (Some a)
  with process_frame_heap [OF pf] obtain t where t: "w_heap (s_world s) a = Some t"
    and hw: "w_heap w = (w_heap (s_world s))(a \<mapsto> t\<lparr>st_pts := pts\<rparr>)"
    and rp: "rp_shared_texture rp = rp_shared_texture (s_rp s)" "rp_size rp = rp_size (s_rp s)"
    by blast
  have "dom (w_heap w) = dom (w_heap (s_world s))" using t hw by auto
  note ls = lease_state_of_dom [OF this]
  from t hw rp ls show ?thesis
    by (simp add: session_abs_def texture_state_of_upd_other)
qed



text \<open>\<open>GetFrameLease\<close> pushes a null lease when there is no texture, and otherwise a live
  lease that locks the texture exactly when the driver's lock call succeeds.\<close>

lemma acquire_protocol:
  assumes inv: "store_inv s" and ln: "lease_new ok (rp_shared_texture (s_rp s)) (s_world s) = Inr (l, w)"
  shows "protocol_step (session_abs s) (Ev_Acquire_Lease ok)
           (session_abs (s\<lparr>s_leases := l # s_leases s, s_world := w\<rparr>))"
proof (cases "rp_shared_texture (s_rp s)")
  case None
  with ln have "l = None" "w = s_world s" by (simp_all add: lease_new_def)
  with None show ?thesis
    by (intro protocol_step.acquire_none)
       (simp_all add: session_abs_def texture_state_of_def lease_state_of_def)
next
  case (Some a)
  from inv have winv: "world_inv (s_world s)" by (simp add: store_inv_def rp_inv_def)
  from ln Some obtain r where lk: "tex_lock ok a (s_world s) = Inr (r, w)" and l: "l = Some a"
    by (auto simp: lease_new_def res_bind_eq_Inr)
  from tex_lock_inv [OF winv lk] obtain t where t: "w_heap (s_world s) a = Some t" "\<not> st_is_locked t"
    and hw: "w_heap w = (w_heap (s_world s))(a \<mapsto> t\<lparr>st_is_locked := r\<rparr>)" by blast
  have r: "r = ok" by (rule tex_lock_result [OF winv lk])
  have "dom (w_heap w) = dom (w_heap (s_world s))" using t hw by auto
  note ls = lease_state_of_dom [OF this]
  show ?thesis
  proof (rule protocol_step.acquire)
    show "pr_texture (session_abs s) = Unlocked"
      using Some t by (simp add: session_abs_def texture_state_of_def)
    show "session_abs (s\<lparr>s_leases := l # s_leases s, s_world := w\<rparr>) =
      (session_abs s)\<lparr>pr_texture := (if ok then Locked else Unlocked),
                      pr_leases := Live_Lease # pr_leases (session_abs s)\<rparr>"
      using Some t hw r l ls by (simp add: session_abs_def texture_state_of_upd_lock lease_state_of_def)
  qed
qed

text \<open>The end of a lease's scope: a null lease does nothing; a lease on a stored texture
  is live (the store holds only the render path's texture) and unlocks it, if it is
  locked, exactly when the driver's unlock call succeeds.\<close>

lemma release_protocol:
  assumes inv: "store_inv s" and ls: "s_leases s = l # ls"
    and ld: "lease_destroy ok l (s_world s) = Inr (l', w)"
  shows "protocol_step (session_abs s) (Ev_Release_Lease ok) (session_abs (s\<lparr>s_leases := ls, s_world := w\<rparr>))"
proof (cases l)
  case None
  with ld have "w = s_world s" by (simp add: lease_destroy_def)
  with None ls show ?thesis
    by (intro protocol_step.release_null [where ls = "map (lease_state_of (rp_shared_texture (s_rp s))
         (w_heap (s_world s))) ls"]) (simp_all add: session_abs_def lease_state_of_def)
next
  case (Some b)
  let ?P = "rp_shared_texture (s_rp s)" and ?H = "w_heap (s_world s)"
  from inv have winv: "world_inv (s_world s)" and dm: "dom ?H \<subseteq> set_option ?P"
    by (simp_all add: store_inv_def rp_inv_def)
  from ld Some obtain t where t: "?H b = Some t"
    by (cases "?H b") (auto simp: lease_destroy_def)
  with dm have P: "?P = Some b" by auto
  have "dom (w_heap w) = dom ?H \<and>
        texture_state_of ?P (w_heap w) =
          (if texture_state_of ?P ?H = Locked \<and> ok then Unlocked else texture_state_of ?P ?H)"
  proof (cases "st_is_locked t")
    case True
    with ld Some t obtain r where ul: "tex_unlock ok b (s_world s) = Inr (r, w)"
      by (auto simp: lease_destroy_def res_bind_eq_Inr)
    from tex_unlock_inv [OF winv ul] t
    have hw: "w_heap w = ?H(b \<mapsto> t\<lparr>st_is_locked := \<not> r\<rparr>)" by auto
    from tex_unlock_result [OF winv t True ul] have "r = ok" .
    with hw t True P show ?thesis by (auto simp: texture_state_of_def)
  next
    case False
    with ld Some t have "w = s_world s" by (simp add: lease_destroy_def)
    with False t P show ?thesis by (simp add: texture_state_of_def)
  qed
  then have d: "dom (w_heap w) = dom ?H"
    and x: "texture_state_of ?P (w_heap w) =
          (if texture_state_of ?P ?H = Locked \<and> ok then Unlocked else texture_state_of ?P ?H)" by simp_all
  note lsd = lease_state_of_dom [OF d]
  show ?thesis
  proof (rule protocol_step.release_live)
    show "pr_leases (session_abs s) = Live_Lease # map (lease_state_of ?P ?H) ls"
      using ls Some t P by (simp add: session_abs_def lease_state_of_def)
    show "session_abs (s\<lparr>s_leases := ls, s_world := w\<rparr>) =
      (session_abs s)\<lparr>pr_texture := (if pr_texture (session_abs s) = Locked \<and> ok then Unlocked
                                        else pr_texture (session_abs s)),
                      pr_leases := map (lease_state_of ?P ?H) ls\<rparr>"
      using x lsd by (simp add: session_abs_def)
  qed
qed

text \<open>\<open>InitializeRenderTarget\<close>: a texture of the requested size is kept; otherwise the
  new texture, if any, is unlocked, and every lease on the old one is stale.\<close>

lemma init_target_protocol:
  assumes inv: "store_inv s"
    and it: "rp_initialize_render_target cok rok uok sz (s_rp s) (s_world s) = Inr (r, rp, w)"
  shows "protocol_step (session_abs s) (Ev_Init_Target cok rok uok sz) (session_abs (s\<lparr>s_rp := rp, s_world := w\<rparr>))"
proof -
  let ?P = "rp_shared_texture (s_rp s)" and ?H = "w_heap (s_world s)"
  from inv have rpi: "rp_inv (s_rp s) (s_world s)"
    and below: "\<forall>b. Some b \<in> set (s_leases s) \<longrightarrow> b < w_next (s_world s)"
    by (simp_all add: store_inv_def)
  have present: "texture_state_of ?P ?H = No_Texture \<longleftrightarrow> ?P = None"
    using rpi by (auto simp: rp_inv_def texture_state_of_def split: option.splits)
  from init_target_effect [OF rpi it] show ?thesis
  proof
    assume k: "?P \<noteq> None \<and> sz = rp_size (s_rp s) \<and> rp = s_rp s \<and> w = s_world s"
    then have s: "s\<lparr>s_rp := rp, s_world := w\<rparr> = s" by simp
    have "protocol_step (session_abs s) (Ev_Init_Target cok rok uok sz) (session_abs s)"
      using k present by (intro protocol_step.target_keep) (simp_all add: session_abs_def)
    with s show ?thesis by simp
  next
    assume e: "(?P = None \<or> sz \<noteq> rp_size (s_rp s)) \<and> rp_size rp = sz \<and> w_next (s_world s) \<le> w_next w \<and>
        (\<forall>a. ?P = Some a \<longrightarrow> w_heap w a = None) \<and>
        (rp_shared_texture rp = None \<or> (rp_shared_texture rp = Some (w_next (s_world s)) \<and>
          (\<exists>t. w_heap w (w_next (s_world s)) = Some t \<and> \<not> st_is_locked t)))"
    let ?x = "texture_state_of (rp_shared_texture rp) (w_heap w)"
    have x: "?x = No_Texture \<or> ?x = Unlocked"
      using e by (auto simp: texture_state_of_def)
    have g: "pr_texture (session_abs s) = No_Texture \<or> sz \<noteq> pr_size (session_abs s)"
      using e present by (auto simp: session_abs_def)
    have "map (lease_state_of (rp_shared_texture rp) (w_heap w)) (s_leases s) =
          map stale (map (lease_state_of ?P ?H) (s_leases s))"
      using e below by (auto intro!: lease_state_of_replaced)
    with e have "session_abs (s\<lparr>s_rp := rp, s_world := w\<rparr>) =
        \<lparr>pr_size = sz, pr_texture = ?x, pr_leases = map stale (pr_leases (session_abs s))\<rparr>"
      by (simp add: session_abs_def)
    with g x show ?thesis by (intro protocol_step.target_new) simp_all
  qed
qed

text \<open>Destroying the render path deletes its texture; every lease on it goes stale.\<close>

lemma new_session_protocol:
  assumes inv: "store_inv s" and rd: "rp_destroy uok (s_rp s) (s_world s) = Inr (rp, w)"
  shows "protocol_step (session_abs s) (Ev_New_Session uok)
           (session_abs (s\<lparr>s_rp := render_path_new, s_attrs := at, s_world := w\<rparr>))"
proof (rule protocol_step.new_session)
  from inv have below: "\<forall>b. Some b \<in> set (s_leases s) \<longrightarrow> b < w_next (s_world s)"
    by (simp add: store_inv_def)
  then have "map (lease_state_of None (w_heap w)) (s_leases s) =
      map stale (map (lease_state_of (rp_shared_texture (s_rp s)) (w_heap (s_world s))) (s_leases s))"
    by (auto intro!: lease_state_of_replaced)
  then show "session_abs (s\<lparr>s_rp := render_path_new, s_attrs := at, s_world := w\<rparr>) =
      \<lparr>pr_size = (0, 0), pr_texture = No_Texture, pr_leases = map stale (pr_leases (session_abs s))\<rparr>"
    by (simp add: session_abs_def render_path_new_def texture_state_of_def)
qed

section \<open>The session refines the protocol\<close>

lemma session_step_protocol:
  assumes inv: "store_inv s" and st: "session_step s e = Inr s'"
  shows "protocol_step (session_abs s) e (session_abs s')"
proof (cases e)
  case (Ev_Initialize e ok)
  with st obtain r at w where "rp_initialize e ok (s_attrs s) (s_world s) = Inr (r, at, w)"
    and s': "s' = s\<lparr>s_attrs := at, s_world := w\<rparr>"
    by (auto simp: res_bind_eq_Inr)
  with rp_initialize_inv inv have "session_abs s' = session_abs s"
    by (fastforce simp: store_inv_def session_abs_def)
  with Ev_Initialize show ?thesis by (simp add: protocol_step.initialize)
next
  case (Ev_Init_Target cok rok uok sz)
  with st obtain r rp w where it: "rp_initialize_render_target cok rok uok sz (s_rp s) (s_world s) = Inr (r, rp, w)"
    and s': "s' = s\<lparr>s_rp := rp, s_world := w\<rparr>"
    by (auto simp: res_bind_eq_Inr)
  from init_target_protocol [OF inv it] s' Ev_Init_Target show ?thesis by simp
next
  case (Ev_Process_Frame ok pts)
  with st process_frame_protocol show ?thesis
    by (auto simp: res_bind_eq_Inr intro: protocol_step.process)
next
  case (Ev_Acquire_Lease ok)
  with st acquire_protocol [OF inv] show ?thesis by (auto simp: res_bind_eq_Inr rp_get_frame_lease_def)
next
  case (Ev_Release_Lease ok)
  show ?thesis
  proof (cases "s_leases s")
    case Nil
    with st Ev_Release_Lease have "s' = s" by simp
    with Nil Ev_Release_Lease show ?thesis
      by (simp add: protocol_step.release_none session_abs_def)
  next
    case (Cons l ls)
    with st Ev_Release_Lease release_protocol [OF inv Cons] show ?thesis
      by (auto simp: res_bind_eq_Inr)
  qed
next
  case (Ev_GL_Current g)
  with st have "session_abs s' = session_abs s" by (auto simp: session_abs_def)
  with Ev_GL_Current show ?thesis by (simp add: protocol_step.gl_current)
next
  case (Ev_New_Session uok)
  with st new_session_protocol [OF inv] show ?thesis by (auto simp: res_bind_eq_Inr)
qed

section \<open>Properties of the protocol\<close>

text \<open>C17: the render path, its textures and its leases implement the lease protocol:
  every run of events from a reachable session, whatever the outcomes of the driver
  calls, is a run of the protocol between the abstractions of its first and last state.
  In particular a reachable session never takes a step that locks a locked texture or
  ends a stale lease: such a step fails.\<close>

theorem session_refines_protocol:
  assumes "reachable s" "session_run s es = Inr s'"
  shows "protocol_run (session_abs s) es (session_abs s')"
  using assms
proof (induction es arbitrary: s)
  case Nil
  then show ?case by (simp add: protocol_run.nil)
next
  case (Cons e es)
  then obtain s1 where st: "session_step s e = Inr s1" and run: "session_run s1 es = Inr s'"
    by (auto simp: res_bind_eq_Inr)
  from Cons.prems(1) st have r1: "reachable s1" by (rule reachable.step)
  from session_step_protocol [OF reachable_store_inv [OF Cons.prems(1)] st] Cons.IH [OF r1 run]
  show ?case by (rule protocol_run.cons)
qed

lemma session_refines_protocol_witness:
  "\<exists>s'. reachable session_init \<and>
     session_run session_init [Ev_Initialize env_ok True, Ev_Init_Target True True True (4, 4),
       Ev_Acquire_Lease True, Ev_Release_Lease True] = Inr s' \<and>
     protocol_run (session_abs session_init) [Ev_Initialize env_ok True, Ev_Init_Target True True True (4, 4),
       Ev_Acquire_Lease True, Ev_Release_Lease True] (session_abs s')"
proof -
  have "\<exists>s'. session_run session_init [Ev_Initialize env_ok True, Ev_Init_Target True True True (4, 4),
       Ev_Acquire_Lease True, Ev_Release_Lease True] = Inr s'"
    by (simp add: op_defs state_defs Let_def)
  then obtain s' where run: "session_run session_init [Ev_Initialize env_ok True,
       Ev_Init_Target True True True (4, 4), Ev_Acquire_Lease True, Ev_Release_Lease True] = Inr s'" by blast
  from session_refines_protocol [OF reachable.start run] run reachable.start show ?thesis by blast
qed

text \<open>C18: a lease does not keep its texture alive. From any reachable session in which
  the innermost live lease points to the render path's texture, resizing the render
  target or destroying the render path succeeds and deletes that texture, whatever the
  driver answers, and the end of the lease's scope then dereferences the freed object.\<close>

theorem lease_dangles_after_resize:
  assumes r: "reachable s" and l: "s_leases s = Some a # ls"
    and a: "rp_shared_texture (s_rp s) = Some a" and sz: "sz \<noteq> rp_size (s_rp s)"
  shows "session_run s [Ev_Init_Target cok rok uok sz, Ev_Release_Lease ok] = Inl Dangling_Pointer \<and>
         session_run s [Ev_New_Session uok, Ev_Release_Lease ok] = Inl Dangling_Pointer"
proof -
  from reachable_store_inv [OF r] have rp: "rp_inv (s_rp s) (s_world s)" by (simp add: store_inv_def)
  then have winv: "world_inv (s_world s)" by (simp add: rp_inv_def)
  from init_target_total [OF rp a] obtain x rp' w'
    where it: "rp_initialize_render_target cok rok uok sz (s_rp s) (s_world s) = Inr (x, rp', w')" by blast
  from init_target_effect [OF rp it] sz a have fa: "w_heap w' a = None" by auto
  from rp a have "w_heap (s_world s) a \<noteq> None" by (auto simp: rp_inv_def)
  with release_texture_ok [OF winv, of "Some a" uok] obtain w2
    where rel: "release_texture uok (Some a) (s_world s) = Inr w2" by blast
  from release_texture_inv [OF winv rel] have fb: "w_heap w2 a = None" by simp
  show ?thesis
    using it fa rel fb l a by (simp add: rp_destroy_def lease_destroy_def)
qed

lemma lease_dangles_after_resize_witness:
  "\<exists>s. session_run session_init [Ev_Initialize env_ok True, Ev_Init_Target True True True (4, 4),
        Ev_Acquire_Lease True] = Inr s \<and> reachable s \<and> s_leases s = [Some 1] \<and>
     rp_shared_texture (s_rp s) = Some 1 \<and> (8, 8) \<noteq> rp_size (s_rp s) \<and>
     session_run s [Ev_Init_Target True True True (8, 8), Ev_Release_Lease True] = Inl Dangling_Pointer"
proof -
  have "\<exists>s. session_run session_init [Ev_Initialize env_ok True, Ev_Init_Target True True True (4, 4),
        Ev_Acquire_Lease True] = Inr s \<and> s_leases s = [Some 1] \<and>
     rp_shared_texture (s_rp s) = Some 1 \<and> (8, 8) \<noteq> rp_size (s_rp s)"
    by (simp add: op_defs state_defs Let_def)
  then obtain s where run: "session_run session_init [Ev_Initialize env_ok True,
        Ev_Init_Target True True True (4, 4), Ev_Acquire_Lease True] = Inr s"
    and p: "s_leases s = [Some 1]" "rp_shared_texture (s_rp s) = Some 1" "(8, 8) \<noteq> rp_size (s_rp s)"
    by blast
  have r: "reachable s" by (rule session_run_reachable [OF reachable.start run])
  from lease_dangles_after_resize [OF r p(1) p(2) p(3), of True True True True] run r p show ?thesis
    by blast
qed

end
