(* ===== verification/Encoder.thy ===== *)
theory Encoder
  imports Prelude
begin

text \<open>
  The Media Foundation sink writer and the file it writes: the environment of
  \<open>MediaWriter\<close>, not code of the repository. The sink writer is a COM object with a
  reference count: it is created with one reference, \<open>AddRef\<close> and \<open>Release\<close> move
  the count, and the object is destroyed, ending the writing, when the count reaches
  zero. A count below zero is a \<open>Release\<close> too many. The file is the list of samples
  the sink accepted and whether \<open>Finalize\<close> closed it.
\<close>

text \<open>A sample submitted to the sink: start time and duration in the 100 ns time base
  of Media Foundation, and the pixel buffer.\<close>

record sample =
  smp_time :: longlong
  smp_duration :: longlong
  smp_data :: "32 word list"

record encoder =
  enc_refs :: int                \<comment> \<open>reference count of the sink writer\<close>
  enc_writing :: bool            \<comment> \<open>\<open>BeginWriting\<close> succeeded and the object is alive\<close>
  enc_samples :: "sample list"   \<comment> \<open>the samples in the file\<close>
  enc_finalized :: bool          \<comment> \<open>\<open>Finalize\<close> closed the file\<close>

definition enc_open :: "encoder \<Rightarrow> bool" where
  "enc_open e \<longleftrightarrow> 0 < enc_refs e"

definition com_add_ref :: "encoder \<Rightarrow> encoder" where
  "com_add_ref e = e\<lparr>enc_refs := enc_refs e + 1\<rparr>"

text \<open>\<open>Release\<close>: the last reference destroys the sink writer, which stops writing.\<close>

definition com_release :: "encoder \<Rightarrow> encoder" where
  "com_release e = e\<lparr>enc_refs := enc_refs e - 1, enc_writing := enc_writing e \<and> 1 < enc_refs e\<rparr>"

definition encoder_none :: encoder where
  "encoder_none = \<lparr>enc_refs = 0, enc_writing = False, enc_samples = [], enc_finalized = False\<rparr>"

text \<open>Outcomes of the calls of \<open>InitializeSinkWriter\<close>, in their order.\<close>

record sink_env =
  se_create :: bool              \<comment> \<open>\<open>MFCreateSinkWriterFromURL\<close>\<close>
  se_add_stream :: "32 word option" \<comment> \<open>output media type and \<open>AddStream\<close>: the stream index\<close>
  se_input_type :: bool          \<comment> \<open>input media type and \<open>SetInputMediaType\<close>\<close>
  se_begin :: bool               \<comment> \<open>\<open>BeginWriting\<close>\<close>

text \<open>Outcomes used in the examples: every step of the initialisation succeeds.\<close>

definition sink_env_ok :: sink_env where
  "sink_env_ok = \<lparr>se_create = True, se_add_stream = Some 0, se_input_type = True, se_begin = True\<rparr>"

lemmas encoder_states [state_defs] = encoder_none_def sink_env_ok_def

lemma com_release_simps [simp]:
  "enc_refs (com_release e) = enc_refs e - 1"
  "enc_writing (com_release e) \<longleftrightarrow> enc_writing e \<and> 1 < enc_refs e"
  "enc_samples (com_release e) = enc_samples e"
  "enc_finalized (com_release e) = enc_finalized e"
  by (simp_all add: com_release_def)

lemma com_add_ref_simps [simp]:
  "enc_refs (com_add_ref e) = enc_refs e + 1"
  "enc_writing (com_add_ref e) = enc_writing e"
  "enc_samples (com_add_ref e) = enc_samples e"
  "enc_finalized (com_add_ref e) = enc_finalized e"
  by (simp_all add: com_add_ref_def)

lemma encoder_none_simps [simp]:
  "enc_refs encoder_none = 0" "\<not> enc_writing encoder_none" "enc_samples encoder_none = []"
  "\<not> enc_finalized encoder_none"
  by (simp_all add: encoder_none_def)

end
