(* ===== verification/MediaWriter.thy ===== *)
theory MediaWriter
  imports Encoder "HOL-Library.Sublist"
begin

text \<open>
  \<open>MediaWriter\<close> (\<open>src/blocks/AX-MediaPlayer/src/AX-MediaWriter.h\<close>): encodes
  rendered frames into a container through a Media Foundation sink writer. The header
  gives the state (lines 34--44) and the operations (lines 24--32); their bodies,
  \<open>AX-MediaWriter.cpp\<close>, are not in the sources and are modelled from the
  specification (section 4.5), following the sink-writer tutorial the header cites.
  The sink writer and the file it writes are the environment \<open>encoder\<close> (theory
  \<open>Encoder\<close>); the outcome of each call into it is an argument. The one body the
  header does hold, \<open>mfSafeRelease\<close> (lines 46--53), is translated from the source.
\<close>

section \<open>The writer\<close>

record media_writer =
  mw_sink_writer :: bool         \<comment> \<open>\<open>_pSinkWriter\<close> is non-null\<close>
  mw_size :: ivec2               \<comment> \<open>\<open>_size\<close>\<close>
  mw_stream :: "32 word"         \<comment> \<open>\<open>_stream\<close>, a \<open>DWORD\<close> initialised to \<open>-1\<close>\<close>
  mw_rt_start :: longlong        \<comment> \<open>\<open>_rtStart\<close>\<close>
  mw_frame_duration :: "32 word" \<comment> \<open>\<open>_videoFrameDuration\<close>, a \<open>long\<close>\<close>
  mw_buffer :: "32 word list"    \<comment> \<open>\<open>_videoFrameBuffer\<close>\<close>
  mw_is_ready :: bool            \<comment> \<open>\<open>_isReady\<close>\<close>
  mw_bitrate :: "32 word"        \<comment> \<open>\<open>_videoBitrate\<close>\<close>
  mw_framerate :: "32 word"      \<comment> \<open>\<open>_framerate\<close>\<close>
  mw_file_path :: string         \<comment> \<open>\<open>_filePath\<close>\<close>

definition frame_pixels :: "ivec2 \<Rightarrow> nat" where
  "frame_pixels sz = nat (fst sz) * nat (snd sz)"

text \<open>\<open>mfSafeRelease (T** ppT)\<close>: release the object and null the pointer, if the
  pointer is not null. The pointer is the flag \<open>p\<close> (non-null); the result is its new
  value and the sink writer after the \<open>Release\<close>.\<close>

definition mf_safe_release :: "bool \<Rightarrow> encoder \<Rightarrow> bool \<times> encoder" where
  "mf_safe_release p e = (if p then (False, com_release e) else (p, e))"

text \<open>\<open>InitializeSinkWriter\<close>, as the sink-writer tutorial the header cites writes it:
  create the sink writer (one reference), add the encoded stream, declare the input
  type, start writing; on full success hand a reference to the writer (\<open>AddRef\<close>)
  with the stream index; in every case release the local pointer with
  \<open>SafeRelease\<close>.\<close>

definition mw_initialize_sink_writer ::
  "sink_env \<Rightarrow> media_writer \<Rightarrow> encoder \<Rightarrow> bool \<times> media_writer \<times> encoder" where
  "mw_initialize_sink_writer se m e =
     (if \<not> se_create se then (False, m, e) else
      let e1 = e\<lparr>enc_refs := 1\<rparr>;
          (ok, m1, e2) =
            (case se_add_stream se of
               None \<Rightarrow> (False, m, e1)
             | Some idx \<Rightarrow>
                 if se_input_type se \<and> se_begin se
                 then (True, m\<lparr>mw_sink_writer := True, mw_stream := idx\<rparr>,
                       com_add_ref (e1\<lparr>enc_writing := True\<rparr>))
                 else (False, m, e1));
          (_, e3) = mf_safe_release True e2 in
      (ok, m1, e3))"

text \<open>The constructor: store the parameters, the frame duration
  \<open>10 * 1000 * 1000 / fps\<close> in \<open>long\<close> arithmetic, size the pixel buffer once, and
  initialise the sink writer; \<open>_isReady\<close> is its success.\<close>

definition mw_create ::
  "string \<Rightarrow> ivec2 \<Rightarrow> 32 word \<Rightarrow> 32 word \<Rightarrow> sink_env \<Rightarrow> (media_writer \<times> encoder) result" where
  "mw_create path sz bitrate fps se =
     (if fps = 0 then Inl Division_By_Zero else
      let m0 = \<lparr>mw_sink_writer = False, mw_size = sz, mw_stream = -1, mw_rt_start = 0,
                mw_frame_duration = word_of_int (10000000 sdiv sint fps),
                mw_buffer = replicate (frame_pixels sz) 0, mw_is_ready = False,
                mw_bitrate = bitrate, mw_framerate = fps, mw_file_path = path\<rparr>;
          (ok, m1, e1) = mw_initialize_sink_writer se m0 encoder_none in
      Inr (m1\<lparr>mw_is_ready := ok\<rparr>, e1))"

text \<open>Reading the rendered frame into the buffer, row by row, bottom row first when
  \<open>flip\<close> is set: the image is a function from column and row to pixel.\<close>

definition read_pixels :: "nat \<Rightarrow> nat \<Rightarrow> bool \<Rightarrow> (nat \<Rightarrow> nat \<Rightarrow> 32 word) \<Rightarrow> 32 word list" where
  "read_pixels w h flip img =
     concat (map (\<lambda>y. map (\<lambda>x. img x (if flip then h - 1 - y else y)) [0..<w]) [0..<h])"

text \<open>\<open>WriteFrame\<close>: a sample at \<open>_rtStart\<close> of one frame's duration holding the
  buffer, submitted with \<open>WriteSample\<close>; the sink accepts it only while writing.\<close>

definition mw_write_frame :: "bool \<Rightarrow> media_writer \<Rightarrow> encoder \<Rightarrow> bool \<times> encoder" where
  "mw_write_frame ok m e =
     (let s = \<lparr>smp_time = mw_rt_start m, smp_duration = scast (mw_frame_duration m),
               smp_data = mw_buffer m\<rparr> in
      if ok \<and> enc_writing e \<and> \<not> enc_finalized e
      then (True, e\<lparr>enc_samples := enc_samples e @ [s]\<rparr>) else (False, e))"

text \<open>\<open>Write\<close>: fail without effect unless ready; otherwise fill the buffer, write the
  frame, and advance \<open>_rtStart\<close> by one frame duration on success.\<close>

definition mw_write ::
  "bool \<Rightarrow> (nat \<Rightarrow> nat \<Rightarrow> 32 word) \<Rightarrow> bool \<Rightarrow> media_writer \<Rightarrow> encoder \<Rightarrow> bool \<times> media_writer \<times> encoder" where
  "mw_write ok img flip m e =
     (if \<not> mw_is_ready m then (False, m, e) else
      let m1 = m\<lparr>mw_buffer := read_pixels (nat (fst (mw_size m))) (nat (snd (mw_size m))) flip img\<rparr>;
          (r, e1) = mw_write_frame ok m1 e in
      if r then (True, m1\<lparr>mw_rt_start := mw_rt_start m1 + scast (mw_frame_duration m1)\<rparr>, e1)
      else (False, m1, e1))"

text \<open>\<open>Finalize\<close>: only when ready; the writer is never ready again, whatever the
  sink answers.\<close>

definition mw_finalize :: "bool \<Rightarrow> media_writer \<Rightarrow> encoder \<Rightarrow> bool \<times> media_writer \<times> encoder" where
  "mw_finalize ok m e =
     (if \<not> mw_is_ready m then (False, m, e) else
      (ok, m\<lparr>mw_is_ready := False\<rparr>,
       if ok then e\<lparr>enc_writing := False, enc_finalized := True\<rparr> else e))"

text \<open>The destructor: the deleter of \<open>_pSinkWriter\<close> releases the sink writer it
  holds with \<open>mfSafeRelease\<close>.\<close>

definition mw_destroy :: "media_writer \<Rightarrow> encoder \<Rightarrow> encoder" where
  "mw_destroy m e = snd (mf_safe_release (mw_sink_writer m) e)"

text \<open>A capture loop: one \<open>Write\<close> per frame, with the outcome of its submission.\<close>

fun mw_write_all ::
  "(bool \<times> (nat \<Rightarrow> nat \<Rightarrow> 32 word)) list \<Rightarrow> bool \<Rightarrow> media_writer \<Rightarrow> encoder \<Rightarrow> media_writer \<times> encoder" where
  "mw_write_all [] flip m e = (m, e)"
| "mw_write_all ((ok, img) # fs) flip m e =
     (case mw_write ok img flip m e of (_, m', e') \<Rightarrow> mw_write_all fs flip m' e')"

text \<open>The specification's state machine (section 9): \<open>Uninitialized\<close> until the
  sink writer is ready, \<open>Ready\<close> while frames may be written, \<open>Closed\<close> after
  \<open>Finalize\<close>; a write or a finalize outside \<open>Ready\<close> fails and changes nothing.
  Its state is the phase and the number of frames in the file.\<close>

datatype mw_phase = Uninitialized | Ready | Closed

datatype mw_op = Op_Write bool "nat \<Rightarrow> nat \<Rightarrow> 32 word" bool | Op_Finalize bool

fun mw_spec :: "mw_op \<Rightarrow> mw_phase \<times> nat \<Rightarrow> bool \<times> mw_phase \<times> nat" where
  "mw_spec (Op_Write ok img flip) (Ready, n) = (ok, Ready, if ok then Suc n else n)"
| "mw_spec (Op_Finalize ok) (Ready, n) = (ok, Closed, n)"
| "mw_spec op s = (False, s)"

text \<open>One call of the writer's public interface.\<close>

fun mw_step :: "mw_op \<Rightarrow> media_writer \<times> encoder \<Rightarrow> bool \<times> media_writer \<times> encoder" where
  "mw_step (Op_Write ok img flip) (m, e) = mw_write ok img flip m e"
| "mw_step (Op_Finalize ok) (m, e) = mw_finalize ok m e"

definition mw_abs :: "media_writer \<Rightarrow> encoder \<Rightarrow> mw_phase \<times> nat" where
  "mw_abs m e =
     (if mw_is_ready m then Ready else if mw_sink_writer m then Closed else Uninitialized,
      length (enc_samples e))"

text \<open>The writer's invariant: a ready writer holds a started, unfinalized sink; the
  writer holds the only reference to the sink writer, and none once it has none; the
  accumulator is the number of accepted samples times the frame duration; the samples
  are stamped \<open>0, d, 2d, ...\<close> with duration \<open>d\<close> and each holds one frame of the
  writer's size; the buffer has one pixel per point of the frame.\<close>

definition mw_inv :: "media_writer \<Rightarrow> encoder \<Rightarrow> bool" where
  "mw_inv m e \<longleftrightarrow>
     (mw_is_ready m \<longrightarrow> mw_sink_writer m \<and> enc_writing e \<and> \<not> enc_finalized e) \<and>
     (enc_writing e \<longrightarrow> mw_sink_writer m) \<and> enc_refs e = (if mw_sink_writer m then 1 else 0) \<and>
     mw_rt_start m = of_nat (length (enc_samples e)) * scast (mw_frame_duration m) \<and>
     map smp_time (enc_samples e) =
       map (\<lambda>i. of_nat i * scast (mw_frame_duration m)) [0..<length (enc_samples e)] \<and>
     map smp_duration (enc_samples e) =
       replicate (length (enc_samples e)) (scast (mw_frame_duration m)) \<and>
     list_all (\<lambda>s. length (smp_data s) = frame_pixels (mw_size m)) (enc_samples e) \<and>
     length (mw_buffer m) = frame_pixels (mw_size m)"

text \<open>A sequence of calls, with the result of each.\<close>

fun mw_run :: "mw_op list \<Rightarrow> media_writer \<times> encoder \<Rightarrow> bool list \<times> media_writer \<times> encoder" where
  "mw_run [] s = ([], s)"
| "mw_run (op # ops) s =
     (case mw_step op s of (r, s') \<Rightarrow> (case mw_run ops s' of (rs, s'') \<Rightarrow> (r # rs, s'')))"

text \<open>The phases in the order the specification traverses them; a writer never moves
  back.\<close>

fun mw_phase_rank :: "mw_phase \<Rightarrow> nat" where
  "mw_phase_rank Uninitialized = 0"
| "mw_phase_rank Ready = 1"
| "mw_phase_rank Closed = 2"

instantiation mw_phase :: linorder
begin

definition less_eq_mw_phase :: "mw_phase \<Rightarrow> mw_phase \<Rightarrow> bool" where
  "less_eq_mw_phase p q \<longleftrightarrow> mw_phase_rank p \<le> mw_phase_rank q"

definition less_mw_phase :: "mw_phase \<Rightarrow> mw_phase \<Rightarrow> bool" where
  "less_mw_phase p q \<longleftrightarrow> mw_phase_rank p < mw_phase_rank q"

instance
proof
  fix x y :: mw_phase
  show "x \<le> y \<Longrightarrow> y \<le> x \<Longrightarrow> x = y"
    by (cases x; cases y) (simp_all add: less_eq_mw_phase_def)
qed (auto simp: less_eq_mw_phase_def less_mw_phase_def)

end

lemmas media_writer_defs [op_defs] =
  mf_safe_release_def mw_initialize_sink_writer_def mw_create_def mw_write_def mw_write_frame_def
  mw_finalize_def mw_destroy_def

section \<open>Pixels\<close>

lemma length_read_pixels [simp]: "length (read_pixels w h flip img) = w * h"
  by (simp add: read_pixels_def length_concat comp_def sum_list_triv)

section \<open>The operations, branch by branch\<close>

lemma mw_write_idle [simp]: "\<not> mw_is_ready m \<Longrightarrow> mw_write ok img flip m e = (False, m, e)"
  by (simp add: mw_write_def)

lemma mw_finalize_idle [simp]: "\<not> mw_is_ready m \<Longrightarrow> mw_finalize ok m e = (False, m, e)"
  by (simp add: mw_finalize_def)

lemma mw_write_ready:
  assumes "mw_is_ready m" "enc_writing e" "\<not> enc_finalized e"
  shows "mw_write ok img flip m e =
    (let buf = read_pixels (nat (fst (mw_size m))) (nat (snd (mw_size m))) flip img in
     if ok then (True, m\<lparr>mw_buffer := buf, mw_rt_start := mw_rt_start m + scast (mw_frame_duration m)\<rparr>,
                 e\<lparr>enc_samples := enc_samples e @ [\<lparr>smp_time = mw_rt_start m,
                     smp_duration = scast (mw_frame_duration m), smp_data = buf\<rparr>]\<rparr>)
     else (False, m\<lparr>mw_buffer := buf\<rparr>, e))"
  using assms by (simp add: mw_write_def mw_write_frame_def Let_def)

lemma mw_create_Inr:
  assumes "mw_create path sz br fps se = Inr (m, e)"
  shows "fps \<noteq> 0 \<and> mw_rt_start m = 0 \<and> enc_samples e = [] \<and> \<not> enc_finalized e \<and>
    mw_frame_duration m = word_of_int (10000000 sdiv sint fps) \<and>
    length (mw_buffer m) = frame_pixels (mw_size m) \<and> mw_size m = sz \<and>
    (mw_is_ready m \<longleftrightarrow> se_create se \<and> se_add_stream se \<noteq> None \<and> se_input_type se \<and> se_begin se) \<and>
    (mw_is_ready m \<longleftrightarrow> mw_sink_writer m) \<and> (enc_writing e \<longleftrightarrow> mw_is_ready m) \<and>
    enc_refs e = (if mw_is_ready m then 1 else 0) \<and> (enc_open e \<longleftrightarrow> mw_is_ready m)"
  using assms
  by (auto simp: mw_create_def mw_initialize_sink_writer_def mf_safe_release_def enc_open_def Let_def
      split: if_splits option.splits)

section \<open>The invariant\<close>

lemma mw_create_inv: "mw_create path sz br fps se = Inr (m, e) \<Longrightarrow> mw_inv m e"
  by (drule mw_create_Inr) (auto simp: mw_inv_def)

lemma mw_write_inv:
  assumes inv: "mw_inv m e" and w: "mw_write ok img flip m e = (r, m', e')"
  shows "mw_inv m' e' \<and> mw_is_ready m' = mw_is_ready m \<and> mw_sink_writer m' = mw_sink_writer m \<and>
    mw_frame_duration m' = mw_frame_duration m \<and> mw_size m' = mw_size m \<and>
    enc_samples e' = (if mw_is_ready m \<and> ok then enc_samples e @ [\<lparr>smp_time = mw_rt_start m,
       smp_duration = scast (mw_frame_duration m), smp_data = mw_buffer m'\<rparr>] else enc_samples e) \<and>
    r = (mw_is_ready m \<and> ok)"
proof (cases "mw_is_ready m")
  case False
  with inv w show ?thesis by simp
next
  case True
  with inv have we: "enc_writing e" "\<not> enc_finalized e" by (auto simp: mw_inv_def)
  with inv w True show ?thesis
    by (cases ok) (auto simp: mw_write_ready mw_inv_def frame_pixels_def Let_def algebra_simps
        replicate_append_same)
qed

lemma mw_finalize_inv:
  assumes inv: "mw_inv m e" and f: "mw_finalize ok m e = (r, m', e')"
  shows "mw_inv m' e' \<and> \<not> mw_is_ready m' \<and> enc_samples e' = enc_samples e \<and>
    mw_sink_writer m' = mw_sink_writer m \<and> r = (mw_is_ready m \<and> ok) \<and>
    mw_size m' = mw_size m \<and> mw_frame_duration m' = mw_frame_duration m \<and>
    (mw_is_ready m \<and> ok \<longrightarrow> enc_finalized e')"
  using inv f by (cases "mw_is_ready m") (auto simp: mw_finalize_def mw_inv_def split: if_splits)

lemma mw_write_all_ok:
  assumes "mw_inv m e" "mw_is_ready m" "mw_write_all (map (Pair True) imgs) flip m e = (m', e')"
  shows "mw_inv m' e' \<and> mw_is_ready m' \<and> mw_sink_writer m' = mw_sink_writer m \<and>
    mw_frame_duration m' = mw_frame_duration m \<and> mw_size m' = mw_size m \<and>
    length (enc_samples e') = length (enc_samples e) + length imgs"
  using assms
proof (induction imgs arbitrary: m e)
  case Nil then show ?case by simp
next
  case (Cons img imgs)
  obtain r m1 e1 where w: "mw_write True img flip m e = (r, m1, e1)" by (metis prod.exhaust)
  from mw_write_inv [OF Cons.prems(1) w] Cons.prems(2) have s: "mw_inv m1 e1" "mw_is_ready m1"
    "mw_sink_writer m1 = mw_sink_writer m" "mw_frame_duration m1 = mw_frame_duration m"
    "mw_size m1 = mw_size m" "length (enc_samples e1) = Suc (length (enc_samples e))" by auto
  from Cons.prems(3) w have "mw_write_all (map (Pair True) imgs) flip m1 e1 = (m', e')" by simp
  from Cons.IH [OF s(1,2) this] s show ?case by simp
qed

lemma mw_step_mono:
  assumes inv: "mw_inv m e" and st: "mw_step op (m, e) = (r, m', e')"
  shows "mw_inv m' e' \<and> fst (mw_abs m e) \<le> fst (mw_abs m' e') \<and>
    prefix (enc_samples e) (enc_samples e') \<and> mw_size m' = mw_size m \<and>
    mw_frame_duration m' = mw_frame_duration m"
proof (cases op)
  case (Op_Write ok img flip)
  with st have "mw_write ok img flip m e = (r, m', e')" by simp
  from mw_write_inv [OF inv this] show ?thesis by (auto simp: mw_abs_def)
next
  case (Op_Finalize ok)
  with st have "mw_finalize ok m e = (r, m', e')" by simp
  from mw_finalize_inv [OF inv this] inv show ?thesis
    by (auto simp: mw_abs_def mw_inv_def less_eq_mw_phase_def)
qed

lemma mw_run_frame:
  "mw_inv m e \<Longrightarrow> mw_run ops (m, e) = (rs, m', e') \<Longrightarrow>
     mw_inv m' e' \<and> mw_size m' = mw_size m \<and> mw_frame_duration m' = mw_frame_duration m"
proof (induction ops arbitrary: m e rs)
  case Nil then show ?case by simp
next
  case (Cons op ops)
  obtain r m1 e1 where st: "mw_step op (m, e) = (r, m1, e1)" by (metis prod.exhaust)
  with Cons.prems(2) obtain rs' where "mw_run ops (m1, e1) = (rs', m', e')"
    by (auto split: prod.splits)
  with Cons.IH mw_step_mono [OF Cons.prems(1) st] show ?case by fastforce
qed

lemma mw_create_exists: "fps \<noteq> 0 \<Longrightarrow> \<exists>m e. mw_create path sz br fps se = Inr (m, e)"
  by (auto simp: mw_create_def Let_def split: prod.split)

lemma mw_duration_30: "(word_of_int (10000000 sdiv sint (30 :: 32 word)) :: 32 word) = 333333"
  by simp

lemma scast_333333: "(scast (333333 :: 32 word) :: 64 word) = 333333"
  by (simp add: scast_eq)

section \<open>Properties of the writer\<close>

text \<open>C22: after \<open>N\<close> successful writes on a freshly created, ready writer, the
  samples in the file are stamped \<open>0, d, ..., (N - 1) d\<close> and each lasts \<open>d\<close>, the
  frame duration \<open>10^7 / fps\<close>; the accumulator is \<open>N d\<close> and the writer is still
  ready.\<close>

lemma mw_write_all_times:
  assumes c: "mw_create path sz br fps se = Inr (m, e)" and r: "mw_is_ready m"
    and w: "mw_write_all (map (Pair True) imgs) flip m e = (m', e')"
  shows "map smp_time (enc_samples e') =
           map (\<lambda>i. of_nat i * scast (mw_frame_duration m)) [0..<length imgs] \<and>
         map smp_duration (enc_samples e') = replicate (length imgs) (scast (mw_frame_duration m)) \<and>
         mw_rt_start m' = of_nat (length imgs) * scast (mw_frame_duration m) \<and> mw_is_ready m'"
proof -
  from mw_create_Inr [OF c] have "enc_samples e = []" by simp
  with mw_write_all_ok [OF mw_create_inv [OF c] r w] show ?thesis by (simp add: mw_inv_def)
qed

text \<open>C23: the writer refines the specification's state machine: every call returns
  what the abstract machine returns and moves the phase and the frame count of the file
  as it does, and the invariant is preserved.\<close>

lemma mw_refines_spec:
  assumes inv: "mw_inv m e" and st: "mw_step op (m, e) = (r, m', e')"
  shows "(r, mw_abs m' e') = mw_spec op (mw_abs m e) \<and> mw_inv m' e'"
proof (cases op)
  case (Op_Write ok img flip)
  with st have "mw_write ok img flip m e = (r, m', e')" by simp
  from mw_write_inv [OF inv this] Op_Write show ?thesis by (auto simp: mw_abs_def)
next
  case (Op_Finalize ok)
  with st have "mw_finalize ok m e = (r, m', e')" by simp
  from mw_finalize_inv [OF inv this] inv Op_Finalize show ?thesis
    by (auto simp: mw_abs_def mw_inv_def)
qed

text \<open>C24: every sample in the file of a writer, after any sequence of calls from its
  creation, is well-formed for the writer: it holds exactly one frame of the size the
  writer was created with (one pixel per point) and lasts one frame duration.\<close>

lemma mw_samples_conform:
  assumes c: "mw_create path sz br fps se = Inr (m, e)" and r: "mw_run ops (m, e) = (rs, m', e')"
  shows "list_all (\<lambda>s. length (smp_data s) = frame_pixels sz \<and>
                        smp_duration s = scast (mw_frame_duration m)) (enc_samples e')"
proof -
  from mw_run_frame [OF mw_create_inv [OF c] r] mw_create_Inr [OF c]
  have "mw_inv m' e'" "mw_size m' = sz" "mw_frame_duration m' = mw_frame_duration m" by auto
  then show ?thesis by (auto simp: mw_inv_def list_all_iff dest: map_eq_replicate_list_all)
qed

text \<open>C26: along any sequence of calls on a writer that satisfies its invariant, the
  phase never moves back (\<open>Uninitialized < Ready < Closed\<close>), the file is only
  appended to, and the invariant holds at the end.\<close>

lemma mw_run_monotone:
  assumes "mw_inv m e" "mw_run ops (m, e) = (rs, m', e')"
  shows "fst (mw_abs m e) \<le> fst (mw_abs m' e') \<and> prefix (enc_samples e) (enc_samples e') \<and>
         mw_inv m' e'"
  using assms
proof (induction ops arbitrary: m e rs)
  case Nil then show ?case by simp
next
  case (Cons op ops)
  obtain r m1 e1 where st: "mw_step op (m, e) = (r, m1, e1)" by (metis prod.exhaust)
  with Cons.prems(2) obtain rs' where run: "mw_run ops (m1, e1) = (rs', m', e')" and rs: "rs = r # rs'"
    by (auto split: prod.splits)
  note one = mw_step_mono [OF Cons.prems(1) st]
  from Cons.IH [OF conjunct1 [OF one] run] one rs show ?case
    by (auto intro: order_trans prefix_order.trans)
qed

text \<open>C28: destroying a writer that satisfies its invariant drops the sink writer's
  reference count to exactly zero on every path (never initialised, ready, or finalized):
  the sink writer is released, neither leaked nor released twice, and the file is kept
  as it is: the destructor does not finalize a file that \<open>Finalize\<close> never closed.\<close>

lemma mw_destroy_releases:
  assumes "mw_inv m e"
  shows "enc_refs (mw_destroy m e) = 0 \<and> \<not> enc_open (mw_destroy m e) \<and>
         \<not> enc_writing (mw_destroy m e) \<and> enc_samples (mw_destroy m e) = enc_samples e \<and>
         enc_finalized (mw_destroy m e) = enc_finalized e"
  using assms by (auto simp: mw_destroy_def mf_safe_release_def mw_inv_def enc_open_def)

text \<open>C29: the sink writer is released exactly once on every path of
  \<open>InitializeSinkWriter\<close>: its reference count is one when the writer keeps it and
  zero after any failure; \<open>mfSafeRelease\<close> releases a non-null pointer once and nulls
  it, so a second call releases nothing.\<close>

lemma mw_sink_released_once:
  "enc_refs (snd (snd (mw_initialize_sink_writer se m encoder_none))) =
     (if fst (mw_initialize_sink_writer se m encoder_none) then 1 else 0) \<and>
   enc_refs (snd (mf_safe_release p e)) = enc_refs e - (if p then 1 else 0) \<and>
   mf_safe_release (fst (mf_safe_release p e)) (snd (mf_safe_release p e)) =
     (False, snd (mf_safe_release p e))"
  by (auto simp: mw_initialize_sink_writer_def mf_safe_release_def Let_def split: option.splits)

section \<open>Witnesses\<close>

lemma mw_clip_created:
  "\<exists>m e. mw_create ''clip.mp4'' (2, 2) 6000000 30 se = Inr (m, e)"
  by (rule mw_create_exists) simp

lemma mw_clip_ready:
  assumes "mw_create ''clip.mp4'' (2, 2) 6000000 30 sink_env_ok = Inr (m, e)"
  shows "mw_is_ready m \<and> mw_frame_duration m = 333333 \<and> mw_inv m e \<and> enc_samples e = []"
  using mw_create_Inr [OF assms] mw_create_inv [OF assms]
  by (simp add: sink_env_ok_def mw_duration_30)

lemma mw_write_all_times_witness:
  "\<exists>m e m' e'. mw_create ''clip.mp4'' (2, 2) 6000000 30 sink_env_ok = Inr (m, e) \<and> mw_is_ready m \<and>
     mw_write_all (map (Pair True) [\<lambda>x y. 0, \<lambda>x y. 1]) True m e = (m', e') \<and>
     map smp_time (enc_samples e') = [0, 333333] \<and> mw_rt_start m' = 666666"
proof -
  obtain m e where c: "mw_create ''clip.mp4'' (2, 2) 6000000 30 sink_env_ok = Inr (m, e)"
    using mw_clip_created by blast
  note r = mw_clip_ready [OF c]
  obtain m' e' where w: "mw_write_all (map (Pair True) [\<lambda>x y. 0, \<lambda>x y. 1]) True m e = (m', e')"
    by (metis prod.exhaust)
  from mw_write_all_times [OF c conjunct1 [OF r] w] r
  have "map smp_time (enc_samples e') = [0, 333333] \<and> mw_rt_start m' = 666666"
    by (simp add: scast_333333 upt_rec)
  with c r w show ?thesis by (intro exI) auto
qed

lemma mw_refines_spec_witness:
  "\<exists>m e r m' e'. mw_create ''clip.mp4'' (2, 2) 6000000 30 sink_env_ok = Inr (m, e) \<and> mw_inv m e \<and>
     mw_step (Op_Write True (\<lambda>x y. 1) False) (m, e) = (r, m', e') \<and>
     (r, mw_abs m' e') = (True, Ready, 1)"
proof -
  obtain m e where c: "mw_create ''clip.mp4'' (2, 2) 6000000 30 sink_env_ok = Inr (m, e)"
    using mw_clip_created by blast
  note r = mw_clip_ready [OF c]
  obtain x m' e' where st: "mw_step (Op_Write True (\<lambda>x y. 1) False) (m, e) = (x, m', e')"
    by (metis prod.exhaust)
  have a: "mw_abs m e = (Ready, 0)" using r by (simp add: mw_abs_def)
  from mw_refines_spec [OF conjunct1 [OF conjunct2 [OF conjunct2 [OF r]]] st] a
  have "(x, mw_abs m' e') = (True, Ready, 1)" by simp
  with c r st show ?thesis by blast
qed

lemma mw_run_monotone_witness:
  "\<exists>m e rs m' e'. mw_create ''clip.mp4'' (2, 2) 6000000 30 sink_env_ok = Inr (m, e) \<and>
     mw_inv m e \<and>
     mw_run [Op_Write True (\<lambda>x y. 1) False, Op_Finalize True, Op_Write True (\<lambda>x y. 2) False] (m, e) =
       (rs, m', e') \<and>
     Ready \<le> fst (mw_abs m' e') \<and> prefix (enc_samples e) (enc_samples e')"
proof -
  obtain m e where c: "mw_create ''clip.mp4'' (2, 2) 6000000 30 sink_env_ok = Inr (m, e)"
    using mw_clip_created by blast
  note r = mw_clip_ready [OF c]
  obtain rs m' e' where run:
    "mw_run [Op_Write True (\<lambda>x y. 1) False, Op_Finalize True, Op_Write True (\<lambda>x y. 2) False] (m, e) =
       (rs, m', e')"
    by (metis prod.exhaust)
  have a: "fst (mw_abs m e) = Ready" using r by (simp add: mw_abs_def)
  from mw_run_monotone [OF conjunct1 [OF conjunct2 [OF conjunct2 [OF r]]] run] a
  have "Ready \<le> fst (mw_abs m' e') \<and> prefix (enc_samples e) (enc_samples e')" by simp
  with c r run show ?thesis by (intro exI) auto
qed

lemma mw_destroy_releases_witness:
  "\<exists>m e. mw_create ''clip.mp4'' (2, 2) 6000000 30 sink_env_ok = Inr (m, e) \<and> mw_inv m e \<and>
     enc_open e \<and> \<not> enc_open (mw_destroy m e)"
proof -
  obtain m e where c: "mw_create ''clip.mp4'' (2, 2) 6000000 30 sink_env_ok = Inr (m, e)"
    using mw_clip_created by blast
  note r = mw_clip_ready [OF c]
  have "enc_open e" using mw_create_Inr [OF c] r by simp
  with mw_destroy_releases [OF conjunct1 [OF conjunct2 [OF conjunct2 [OF r]]]] c r show ?thesis by blast
qed

lemma mw_samples_conform_witness:
  "\<exists>m e rs m' e'. mw_create ''clip.mp4'' (2, 2) 6000000 30 sink_env_ok = Inr (m, e) \<and>
     mw_run [Op_Write True (\<lambda>x y. 1) False, Op_Write True (\<lambda>x y. 2) True] (m, e) = (rs, m', e') \<and>
     list_all (\<lambda>s. length (smp_data s) = 4 \<and> smp_duration s = 333333) (enc_samples e')"
proof -
  obtain m e where c: "mw_create ''clip.mp4'' (2, 2) 6000000 30 sink_env_ok = Inr (m, e)"
    using mw_clip_created by blast
  note r = mw_clip_ready [OF c]
  obtain rs m' e' where run:
    "mw_run [Op_Write True (\<lambda>x y. 1) False, Op_Write True (\<lambda>x y. 2) True] (m, e) = (rs, m', e')"
    by (metis prod.exhaust)
  from mw_samples_conform [OF c run] r
  have "list_all (\<lambda>s. length (smp_data s) = 4 \<and> smp_duration s = 333333) (enc_samples e')"
    by (simp add: frame_pixels_def scast_333333)
  with c run show ?thesis by (intro exI) auto
qed

end
