(* ===== verification/Spec2Isabelle.thy ===== *)
theory Spec2Isabelle
  imports Protocol MediaWriter
begin

text \<open>
  \<^bold>\<open>AX-MediaPlayer: the DXGI render path and its interop with GL.\<close>

  \<^emph>\<open>The program.\<close> \<open>src/blocks/AX-MediaPlayer/src/msw/AX-MediaPlayerMSWDXGIRenderPath.cxx\<close>
  bridges a D3D11 device, into which the Media Foundation engine decodes video, to the
  GL context that draws it, through the \<open>WGL_NV_DX_interop\<close> extension. Its parts:
  \<^item> \<open>InteropContext\<close> (lines 32--78, 135--197): a process-wide singleton
    (\<open>kInteropContext\<close>, created by \<open>StaticInitialize\<close>, read by \<open>Get\<close>) that
    owns the device, the DXGI device manager and the interop handle; its constructor
    runs five steps, each gating the next.
  \<^item> \<open>SharedTexture\<close> (lines 80--105, 199--255): a D3D texture and a GL texture
    registered together with the driver; \<open>Lock\<close>/\<open>Unlock\<close> fence it for GL.
  \<^item> \<open>DXGIRenderPathFrameLease\<close> (lines 107--133): a non-owning pointer that locks
    the texture for the scope of one presented frame.
  \<^item> \<open>DXGIRenderPath\<close> (lines 257--318, with \<open>CreateSharedTexture\<close>, 167--173):
    one per session; owns the texture, recreates it when the size changes, has the
    engine transfer frames into it, and hands out leases.
  \<open>src/blocks/AX-MediaPlayer/src/AX-MediaWriter.h\<close> declares \<open>MediaWriter\<close>, the
  encoder of rendered frames into a Media Foundation sink writer; its implementation file
  \<open>AX-MediaWriter.cpp\<close> is not in the sources. It does not interact with the render
  path: the capture loop of the application feeds it frames.

  \<^emph>\<open>The theories.\<close>
  \<^item> \<open>Prelude\<close>: machine types (\<open>handle\<close>, \<open>addr\<close>, \<open>longlong = 64 word\<close>,
    \<open>ivec2\<close>), the error type \<open>err\<close> (failed \<open>assert\<close>s of the debug build,
    null and dangling dereferences), the result type \<open>err + 'a\<close> with
    \<open>res_bind\<close>, and lemmas on stores (\<open>fresh_above\<close>).
  \<^item> \<open>Bridge\<close>: the interop driver, the environment of the code. It is not code of
    the repository and is not in the map: a store of registered share handles, each
    with its fence state. Register, lock, unlock and unregister fail on a null
    device handle, on an unknown object, or when the object is in the wrong state,
    and may fail for any other reason (the outcome argument \<open>ok\<close>).
  \<^item> \<open>Interop\<close>: \<open>interop_ctx\<close> (the class's fields), \<open>interop_ctx_new\<close> (the
    constructor, with the outcome of each external call in \<open>init_env\<close>),
    \<open>interop_static_initialize\<close>, \<open>interop_get\<close>, \<open>interop_ctx_destroy\<close>,
    \<open>device_flags\<close>; the well-formedness \<open>interop_wf\<close>.
  \<^item> \<open>SharedTexture\<close>: \<open>shared_texture\<close>, its constructor \<open>shared_texture_new\<close>
    (with the D3D descriptor \<open>texture_desc\<close> and the GL texture
    \<open>gl_texture_rgba\<close>), \<open>st_lock\<close>, \<open>st_unlock\<close>, \<open>st_destroy\<close>; the system
    state \<open>world\<close> (singleton pointer, driver, store of textures, whether a GL
    context is current) and the pointer operations \<open>tex_lock\<close>, \<open>tex_unlock\<close>,
    \<open>tex_delete\<close>; the agreement of a texture's lock flag with the driver,
    \<open>fence_agrees\<close>.
  \<^item> \<open>FrameLease\<close>: the lease as an address or null; \<open>lease_new\<close>,
    \<open>lease_to_texture\<close>, \<open>lease_is_valid\<close>, \<open>lease_pts\<close>, \<open>lease_destroy\<close>.
  \<^item> \<open>RenderPath\<close>: \<open>render_path\<close> (\<open>_size\<close>, \<open>_sharedTexture\<close> and the owner's
    \<open>_hasNewFrame\<close>), \<open>rp_initialize\<close>, \<open>create_shared_texture\<close>,
    \<open>rp_initialize_render_target\<close>, \<open>rp_process_frame\<close>,
    \<open>rp_get_frame_lease\<close>, \<open>rp_destroy\<close>; the invariants \<open>world_inv\<close> and
    \<open>rp_inv\<close> with one preservation lemma per operation.
  \<^item> \<open>Session\<close>: the player's use of the render path as a sequence of events
    (\<open>session_step\<close>, \<open>session_run\<close>): every public operation of the render
    path and of the lease, the GL context becoming current or not, and the end of a
    playback session (the render path destroyed, a new one created against the same
    context); the reachable sessions as an inductive predicate, the ownership of the
    store \<open>store_inv\<close> (it holds only the render path's texture, and every lease
    points to an address allocated before) and the lease discipline \<open>lease_inv\<close>.
    Leases end in the reverse order of their creation, as the scopes of the renderer
    nest them.
  \<^item> \<open>Protocol\<close>: the specification's lease protocol as an abstract state machine
    \<open>protocol_step\<close> (an inductive relation over the events, nondeterministic where
    the outcome of texture creation is hidden): the render target's size, the texture
    absent, unlocked or locked, and each lease null, live or stale. \<open>session_abs\<close>
    maps a session to it; one lemma per operation shows that the operation is a
    protocol step.
  \<^item> \<open>Encoder\<close>: the Media Foundation sink writer and its file, the environment of
    \<open>MediaWriter\<close> (not in the map): the COM reference count of the sink writer
    (\<open>com_add_ref\<close>, \<open>com_release\<close>), whether it is writing, the samples it
    accepted and whether the file was finalized.
  \<^item> \<open>MediaWriter\<close>: \<open>media_writer\<close> (the header's fields, lines 34--44),
    \<open>mf_safe_release\<close> (the header's \<open>mfSafeRelease\<close>, lines 46--53) and,
    modelled from the specification (section 4.5) and the sink-writer tutorial the
    header cites, since their bodies are not in the sources,
    \<open>mw_initialize_sink_writer\<close>, \<open>mw_create\<close>, \<open>read_pixels\<close> (the readback
    into \<open>_videoFrameBuffer\<close>, flipped or not), \<open>mw_write_frame\<close>, \<open>mw_write\<close>, \<open>mw_finalize\<close>,
    \<open>mw_destroy\<close>. The specification's state machine
    \<open>Uninitialized | Ready | Closed\<close> is \<open>mw_spec\<close>, over the phase and the number
    of frames in the file; \<open>mw_abs\<close> maps the writer to it, \<open>mw_inv\<close> is the
    writer's invariant, \<open>mw_run\<close> runs a sequence of calls, and the phases are
    ordered (an instance of \<open>linorder\<close>) in the order the machine traverses them.
  \<^item> this theory: the properties that span the components.

  \<^emph>\<open>How the model corresponds to the code.\<close> Each class is a record of its fields;
  each method a function that takes the object and the shared state and returns them
  updated, inside \<open>err + _\<close> where the code can assert or dereference a bad
  pointer. The outcome of every external call (D3D11, Media Foundation, the media
  engine, the driver) is an argument of the operation, so that every path of the
  code is a branch of the model and every theorem holds for all outcomes unless it
  says otherwise. \<open>unique_ptr\<close> ownership and raw pointers are addresses of one
  store of \<open>SharedTexture\<close> objects (\<open>w_heap\<close>): deleting an object removes its
  address, and a later use of a pointer to it is \<open>Dangling_Pointer\<close>. The model is
  the debug build: \<open>assert\<close> is checked. There are no loops in this code, hence no
  fuel and no termination property: every operation is a non-recursive definition,
  and the only recursions, over the event and call lists of \<open>session_run\<close>,
  \<open>mw_write_all\<close> and \<open>mw_run\<close>, are structural.

  \<^emph>\<open>What is proved.\<close>
  \<^item> The render target: the same size keeps the texture object; a new size frees the
    old object and, exactly on success, holds a new one of the new size. The render
    path's destructor frees its texture and unregisters it from the driver exactly when
    a GL context is current.
  \<^item> Ownership: in every reachable session the store holds exactly the render path's
    texture; replaced, invalid and destroyed textures are always deleted.
  \<^item> The lease protocol (refinement): every run of a reachable session is a run of
    \<open>protocol_step\<close>, for all outcomes of the driver calls. A texture is locked only
    by a lease on an unlocked texture and only when the lock call succeeds, unlocked
    only by the end of a live lease and only when the unlock call succeeds, and no
    step ends a stale lease.
  \<^item> No session is stuck (liveness): from every reachable session with a valid context,
    re-initialising the render target at a new size gives a valid locked lease again,
    also after a failed unlock left the old texture locked for good.
  \<^item> Locking: the flag is always the outcome of the last call that changed it, lock
    and unlock alternate strictly, and lock-then-unlock restores texture and driver.
  \<^item> The interop invariant: in every reachable session every texture in the store is
    valid and its lock flag is the driver's fence state (rule induction over
    \<open>reachable\<close>, from one preservation lemma per operation).
  \<^item> Leases: a null lease is invalid with timestamp \<open>-1\<close> and a no-op destructor; a
    lease on a ready texture locks it and its destructor restores the exact state; in
    a session whose unlocks succeed, no texture is locked once no lease is alive.
  \<^item> The constructor of the context: each step takes effect exactly when all steps
    before it succeeded, and the context is valid exactly when all five did; the
    singleton is created once and never retried; two sessions against a context whose
    bridge failed to open never get a texture.
  \<^item> The writer refines the specification's state machine and keeps its invariant;
    \<open>N\<close> successful writes stamp the samples \<open>0, d, ..., (N - 1) d\<close> with
    \<open>d = 10^7 / fps\<close> (C-style truncating division of the \<open>int\<close> frame rate);
    along any sequence of calls the phase never moves back and the file is only
    appended to; every sample in the file holds exactly one frame of the writer's size
    and lasts one frame (well-formedness); the sink writer's reference count ends at
    exactly zero on every path of the constructor and destructor, and
    \<open>mfSafeRelease\<close> never releases twice.
  \<^item> Findings, each a theorem: a failed unlock in a lease's destructor leaves the
    texture locked and the next lease asserts; from every reachable session, a lease
    that outlives a resize or the render path holds a dangling pointer;
    \<open>ProcessFrame\<close> records the timestamp of a failed transfer, also into a texture
    a live lease holds locked; a lease whose lock failed still reports itself valid;
    \<open>InitializeRenderTarget\<close> after a failed device creation dereferences the null
    device.

  \<^emph>\<open>Not modelled.\<close> The pixels (what the engine writes and GL samples); the GL and
  D3D objects beyond their identity, size and format; \<open>MediaPlayer::Impl\<close>, which
  calls the render path (only composed, in \<open>Session\<close>); the interop context's
  destructor is modelled but never runs (the singleton is leaked on purpose); the
  release build, where the asserts are absent. For \<open>MediaWriter\<close>: the encoding
  itself, the GL framebuffer \<open>_fbo\<close> the texture is drawn into (the readback is the
  function \<open>read_pixels\<close> of an image), and the media types' attributes beyond the
  stream index; one outcome argument stands for all the calls of \<open>WriteFrame\<close>.
  The interop driver: \<open>Bridge\<close> removes an object's fence state with its
  registration, so the \<open>Unlock\<close> that the texture's destructor makes before
  unregistering (line 250) has no effect the model can observe, and no property
  depends on it. The constructor of the context assumes the extension is loaded: line
  162 computes whether \<open>wglDXOpenDeviceNV\<close> is null but line 163 calls it anyway,
  and a call through a null function pointer is not a branch of the model; the device
  flags (\<open>device_flags\<close>) are computed but the outcome of \<open>D3D11CreateDevice\<close> is
  an argument that does not depend on them.
  The includes and type aliases at the top of both files, and the declarations of
  \<open>MediaWriter\<close>'s members (header lines 20--32), whose bodies are not in the
  repository, have nothing to translate.
\<close>

text \<open>C11: against an interop context whose bridge failed to open, two sessions both
  fail \<open>Initialize\<close> (the second does not retry the context), leave the engine
  attributes untouched, and neither ever obtains a texture.\<close>

theorem failed_interop_two_sessions:
  assumes w0: "w_interop w0 = None"
    and i1: "rp_initialize env_bridge_fails ok1 a1 w0 = Inr (r1, a1', w1)"
    and i2: "rp_initialize e2 ok2 a2 w1 = Inr (r2, a2', w2)"
    and t1: "rp_initialize_render_target c1 g1 u1 sz1 render_path_new w2 = Inr (x1, rp1, w3)"
    and t2: "rp_initialize_render_target c2 g2 u2 sz2 render_path_new w3 = Inr (x2, rp2, w4)"
  shows "\<not> r1 \<and> \<not> r2 \<and> a1' = a1 \<and> a2' = a2 \<and> \<not> x1 \<and> \<not> x2 \<and>
         rp_shared_texture rp1 = None \<and> rp_shared_texture rp2 = None \<and> w4 = w2 \<and>
         w_interop w2 = Some (interop_ctx_new env_bridge_fails)"
proof -
  have bad: "\<not> ic_is_valid (interop_ctx_new env_bridge_fails)"
    "ic_interop_handle (interop_ctx_new env_bridge_fails) = None"
    by (simp_all add: interop_ctx_new_def state_defs)
  from rp_initialize_result [OF i1] w0 bad have s1: "\<not> r1" "a1' = a1"
    "w_interop w1 = Some (interop_ctx_new env_bridge_fails)" by auto
  from rp_initialize_result [OF i2] s1 bad have s2: "\<not> r2" "a2' = a2"
    "w_interop w2 = Some (interop_ctx_new env_bridge_fails)" by auto
  have none: "rp_shared_texture render_path_new = None" by (simp add: render_path_new_def)
  from init_target_without_handle [OF s2(3) bad(2) none t1]
  have s3: "\<not> x1" "rp_shared_texture rp1 = None" "w3 = w2" by auto
  from init_target_without_handle [OF _ bad(2) none t2] s2(3) s3(3)
  have "\<not> x2" "rp_shared_texture rp2 = None" "w4 = w3" by auto
  with s1 s2 s3 show ?thesis by simp
qed

theorem failed_interop_two_sessions_witness:
  "\<exists>r1 a1' w1 r2 a2' w2 x1 rp1 w3 x2 rp2 w4.
     w_interop (s_world session_init) = None \<and>
     rp_initialize env_bridge_fails True (s_attrs session_init) (s_world session_init) = Inr (r1, a1', w1) \<and>
     rp_initialize env_ok True (s_attrs session_init) w1 = Inr (r2, a2', w2) \<and>
     rp_initialize_render_target True True True (1280, 720) render_path_new w2 = Inr (x1, rp1, w3) \<and>
     rp_initialize_render_target True True True (640, 480) render_path_new w3 = Inr (x2, rp2, w4) \<and>
     \<not> r1 \<and> \<not> r2 \<and> \<not> x1 \<and> \<not> x2"
proof -
  have "\<exists>r1 a1' w1 r2 a2' w2 x1 rp1 w3 x2 rp2 w4.
     rp_initialize env_bridge_fails True (s_attrs session_init) (s_world session_init) = Inr (r1, a1', w1) \<and>
     rp_initialize env_ok True (s_attrs session_init) w1 = Inr (r2, a2', w2) \<and>
     rp_initialize_render_target True True True (1280, 720) render_path_new w2 = Inr (x1, rp1, w3) \<and>
     rp_initialize_render_target True True True (640, 480) render_path_new w3 = Inr (x2, rp2, w4)"
    by (auto simp: op_defs state_defs Let_def)
  then obtain r1 a1' w1 r2 a2' w2 x1 rp1 w3 x2 rp2 w4 where
    i1: "rp_initialize env_bridge_fails True (s_attrs session_init) (s_world session_init) = Inr (r1, a1', w1)" and
    i2: "rp_initialize env_ok True (s_attrs session_init) w1 = Inr (r2, a2', w2)" and
    t1: "rp_initialize_render_target True True True (1280, 720) render_path_new w2 = Inr (x1, rp1, w3)" and
    t2: "rp_initialize_render_target True True True (640, 480) render_path_new w3 = Inr (x2, rp2, w4)"
    by blast
  have w0: "w_interop (s_world session_init) = None" by (simp add: session_init_def)
  from failed_interop_two_sessions [OF w0 i1 i2 t1 t2] w0 i1 i2 t1 t2 show ?thesis by blast
qed

end
